(* ===== verification/Prelude.thy ===== *)
theory Prelude
  imports Main "HOL-Library.Multiset"
begin

text \<open>
  Shared vocabulary of the development: the Go run-time behaviour that every component
  relies on.  A Go panic (index or slice out of range, a method call through a nil
  interface, a nil pointer dereference) and a returned \<open>error\<close> value are both values of \<open>go_error\<close>; a
  computation that may fail has type \<open>go_error + 'a\<close> with \<open>Inl\<close> the failure.
  \<open>go_nth\<close> and \<open>go_slice\<close> are Go's bounds-checked \<open>xs[i]\<close> and
  \<open>s[lo:hi]\<close>; \<open>wrap64\<close> is two's-complement wrap-around of Go's 64-bit \<open>int\<close>
  and \<open>int64\<close>; \<open>for_range\<close> is the loop
  \<open>for i := lo; i < hi; i++ { body }\<close> whose body may \<open>break\<close> or panic.
\<close>

named_theorems go_simps "evaluation rules of the Go run-time helpers"

datatype go_error =
    PanicIndex          \<comment> \<open>runtime error: index out of range\<close>
  | PanicSlice          \<comment> \<open>runtime error: slice bounds out of range\<close>
  | PanicNilCall        \<comment> \<open>method call through a nil embedded interface\<close>
  | PanicNilDeref       \<comment> \<open>nil pointer dereference\<close>
  | ErrAtoi string      \<comment> \<open>strconv.Atoi: the string that failed to parse\<close>
  | ErrMsg string       \<comment> \<open>an error built by fmt.Errorf\<close>

type_synonym 'a go_result = "go_error + 'a"

definition go_bind :: "'a go_result \<Rightarrow> ('a \<Rightarrow> 'b go_result) \<Rightarrow> 'b go_result" where
  "go_bind x f = (case x of Inl e \<Rightarrow> Inl e | Inr a \<Rightarrow> f a)"

definition go_map :: "('a \<Rightarrow> 'b) \<Rightarrow> 'a go_result \<Rightarrow> 'b go_result" where
  "go_map f x = (case x of Inl e \<Rightarrow> Inl e | Inr a \<Rightarrow> Inr (f a))"

definition is_panic :: "go_error \<Rightarrow> bool" where
  "is_panic e = (e = PanicIndex \<or> e = PanicSlice \<or> e = PanicNilCall \<or> e = PanicNilDeref)"

text \<open>\<open>v, err := f(); if err != nil { return }\<close>: a returned error takes the early
  exit \<open>on_err\<close>, a panic propagates, a value continues.\<close>

definition go_check :: "'a go_result \<Rightarrow> 'b go_result \<Rightarrow> ('a \<Rightarrow> 'b go_result) \<Rightarrow> 'b go_result" where
  "go_check r on_err k = (case r of Inl e \<Rightarrow> if is_panic e then Inl e else on_err | Inr a \<Rightarrow> k a)"

text \<open>Go's indexing \<open>xs[i]\<close>: a panic unless \<open>0 \<le> i < len(xs)\<close>.\<close>

definition go_nth :: "'a list \<Rightarrow> int \<Rightarrow> 'a go_result" where
  "go_nth xs i = (if 0 \<le> i \<and> i < int (length xs) then Inr (xs ! nat i) else Inl PanicIndex)"

text \<open>Go's slicing \<open>s[lo:hi]\<close>: a panic unless \<open>0 \<le> lo \<le> hi \<le> len(s)\<close>.\<close>

definition go_slice :: "'a list \<Rightarrow> int \<Rightarrow> int \<Rightarrow> 'a list go_result" where
  "go_slice xs lo hi =
     (if 0 \<le> lo \<and> lo \<le> hi \<and> hi \<le> int (length xs)
      then Inr (take (nat hi - nat lo) (drop (nat lo) xs)) else Inl PanicSlice)"

subsection \<open>64-bit integers\<close>

definition int64_min :: int where "int64_min = - (2 ^ 63)"
definition int64_max :: int where "int64_max = 2 ^ 63 - 1"

definition in_int64 :: "int \<Rightarrow> bool" where
  "in_int64 x = (int64_min \<le> x \<and> x \<le> int64_max)"

text \<open>The value a Go \<open>int64\<close> (or 64-bit \<open>int\<close>) operation yields for the exact result \<open>x\<close>.\<close>

definition wrap64 :: "int \<Rightarrow> int" where
  "wrap64 x = (x + 2 ^ 63) mod 2 ^ 64 - 2 ^ 63"

subsection \<open>The counting loop\<close>

text \<open>
  \<open>for_range lo hi body s\<close> runs \<open>body i\<close> for \<open>i = lo, lo+1, \<dots>\<close> while
  \<open>i < hi\<close>, threading the loop variables \<open>s\<close>.  The body returns the new loop
  variables and whether it executed \<open>break\<close> (or an early \<open>return\<close> that leaves the
  loop); a panic of the body is the panic of the loop.
\<close>

function for_range ::
  "int \<Rightarrow> int \<Rightarrow> (int \<Rightarrow> 's \<Rightarrow> ('s \<times> bool) go_result) \<Rightarrow> 's \<Rightarrow> 's go_result" where
  "for_range i hi body s =
     (if i < hi then
        (case body i s of
           Inl e \<Rightarrow> Inl e
         | Inr (s', brk) \<Rightarrow> if brk then Inr s' else for_range (i + 1) hi body s')
      else Inr s)"
  by pat_completeness auto
termination
  by (relation "measure (\<lambda>(i, hi, _, _). nat (hi - i))") auto

declare for_range.simps [simp del]

text \<open>
  The loops of the program read \<open>xs[i]\<close> first and then update their variables:
  \<open>for_each_index xs lo hi step s\<close> is that loop, with \<open>step\<close> returning the new
  loop variables and whether to break.  Its list reading is \<open>break_fold\<close>: the same
  step folded over a list, stopping after the first step that breaks.
\<close>

definition for_each_index ::
  "'a list \<Rightarrow> int \<Rightarrow> int \<Rightarrow> ('a \<Rightarrow> 's \<Rightarrow> 's \<times> bool) \<Rightarrow> 's \<Rightarrow> 's go_result" where
  "for_each_index xs lo hi step s = for_range lo hi (\<lambda>i s. go_map (\<lambda>d. step d s) (go_nth xs i)) s"

fun break_fold :: "('a \<Rightarrow> 's \<Rightarrow> 's \<times> bool) \<Rightarrow> 'a list \<Rightarrow> 's \<Rightarrow> 's" where
  "break_fold g [] s = s"
| "break_fold g (x # xs) s = (case g x s of (s', brk) \<Rightarrow> if brk then s' else break_fold g xs s')"

fun breaks :: "('a \<Rightarrow> 's \<Rightarrow> 's \<times> bool) \<Rightarrow> 'a list \<Rightarrow> 's \<Rightarrow> bool" where
  "breaks g [] s = False"
| "breaks g (x # xs) s = (case g x s of (s', brk) \<Rightarrow> brk \<or> breaks g xs s')"

section \<open>Lemmas\<close>

lemma go_bind_simps [simp, go_simps]:
  "go_bind (Inl e) f = Inl e"
  "go_bind (Inr a) f = f a"
  by (simp_all add: go_bind_def)

lemma go_check_simps [simp, go_simps]:
  "go_check (Inr a) on_err k = k a"
  "\<not> is_panic e \<Longrightarrow> go_check (Inl e) on_err k = on_err"
  "is_panic e \<Longrightarrow> go_check (Inl e) on_err k = Inl e"
  by (simp_all add: go_check_def)

lemma go_check_eq_Inr:
  "go_check r on_err k = Inr x \<longleftrightarrow>
     (\<exists>e. r = Inl e \<and> \<not> is_panic e \<and> on_err = Inr x) \<or> (\<exists>a. r = Inr a \<and> k a = Inr x)"
  by (cases r) (auto simp: go_check_def)

lemma go_map_simps [simp, go_simps]:
  "go_map f (Inl e) = Inl e"
  "go_map f (Inr a) = Inr (f a)"
  by (simp_all add: go_map_def)

lemma go_bind_eq_Inr:
  "go_bind x f = Inr b \<longleftrightarrow> (\<exists>a. x = Inr a \<and> f a = Inr b)"
  by (cases x) auto

lemma go_map_eq_Inr:
  "go_map f x = Inr b \<longleftrightarrow> (\<exists>a. x = Inr a \<and> b = f a)"
  by (cases x) auto

lemma go_nth_in_range [simp, go_simps]:
  "0 \<le> i \<Longrightarrow> i < int (length xs) \<Longrightarrow> go_nth xs i = Inr (xs ! nat i)"
  by (simp add: go_nth_def)

lemma go_nth_out_of_range [go_simps]:
  "\<not> (0 \<le> i \<and> i < int (length xs)) \<Longrightarrow> go_nth xs i = Inl PanicIndex"
  by (simp add: go_nth_def)

lemma go_nth_0_Cons [simp, go_simps]: "go_nth (x # xs) 0 = Inr x"
  by (simp add: go_nth_def)

lemma go_nth_0_nonempty [simp, go_simps]: "xs \<noteq> [] \<Longrightarrow> go_nth xs 0 = Inr (hd xs)"
  by (cases xs) auto

lemma go_nth_last [simp, go_simps]:
  "xs \<noteq> [] \<Longrightarrow> go_nth xs (int (length xs) - 1) = Inr (last xs)"
  by (simp add: go_nth_def last_conv_nth nat_diff_distrib')

lemma go_nth_0_eq_Inr [simp]: "go_nth xs 0 = Inr c \<longleftrightarrow> xs \<noteq> [] \<and> c = hd xs"
  by (cases xs) (auto simp: go_nth_def)

lemma go_nth_Nil [simp, go_simps]: "go_nth [] i = Inl PanicIndex"
  by (simp add: go_nth_def)

lemma go_nth_Inr_iff:
  "go_nth xs i = Inr x \<longleftrightarrow> 0 \<le> i \<and> i < int (length xs) \<and> x = xs ! nat i"
  by (auto simp: go_nth_def)

text \<open>An index that is valid in \<open>xs\<close> reads the same element after anything is appended.\<close>

lemma go_nth_append_Inr:
  "go_nth xs i = Inr x \<Longrightarrow> go_nth (xs @ ys) i = Inr x"
  by (auto simp: go_nth_Inr_iff nth_append)

lemma go_nth_take:
  "i < n \<Longrightarrow> go_nth (take (nat n) xs) i = go_nth xs i \<or> n > int (length xs)"
  by (auto simp: go_nth_def)

lemma wrap64_id [simp, go_simps]: "in_int64 x \<Longrightarrow> wrap64 x = x"
proof -
  assume "in_int64 x"
  then have "0 \<le> x + 2 ^ 63" and "x + 2 ^ 63 < 2 ^ 64"
    by (simp_all add: in_int64_def int64_min_def int64_max_def)
  then show ?thesis by (simp add: wrap64_def)
qed

lemma wrap64_in_int64: "in_int64 (wrap64 x)"
  by (simp add: in_int64_def int64_min_def int64_max_def wrap64_def)

text \<open>An \<open>int64\<close> difference of two \<open>int64\<close> values is zero exactly when they are
  equal: the wrap-around cannot produce a spurious zero.\<close>

lemma wrap64_diff_eq_0:
  assumes "in_int64 a" and "in_int64 b"
  shows "wrap64 (a - b) = 0 \<longleftrightarrow> a = b"
proof
  assume w: "wrap64 (a - b) = 0"
  have r: "- (2 ^ 64) < a - b" "a - b < 2 ^ 64"
    using assms by (simp_all add: in_int64_def int64_min_def int64_max_def)
  from w have "(a - b + 2 ^ 63) mod 2 ^ 64 = 2 ^ 63" by (simp add: wrap64_def)
  then obtain q where q: "a - b + 2 ^ 63 = 2 ^ 64 * q + 2 ^ 63"
    by (metis mult.commute div_mult_mod_eq)
  then have "a - b = 2 ^ 64 * q" by simp
  with r have "q = 0" by (smt (verit) mult_le_cancel_left1 mult_minus_right)
  with q show "a = b" by simp
qed (simp add: wrap64_def)

subsection \<open>Lists\<close>

lemma go_slice_butlast: "xs \<noteq> [] \<Longrightarrow> go_slice xs 0 (int (length xs) - 1) = Inr (butlast xs)"
  by (simp add: go_slice_def butlast_conv_take nat_diff_distrib')

lemma find_Some_in: "find P xs = Some x \<Longrightarrow> x \<in> set xs \<and> P x"
  by (induction xs) (auto split: if_splits)

lemma find_first_match:
  "\<forall>y \<in> set ys. \<not> P y \<Longrightarrow> P z \<Longrightarrow> find P (ys @ z # zs) = Some z"
  by (induction ys) auto

lemma find_no_match: "\<forall>y \<in> set ys. \<not> P y \<Longrightarrow> find P ys = None"
  by (simp add: find_None_iff)

subsection \<open>The loop combinator\<close>

lemma for_range_stop [simp, go_simps]: "\<not> i < hi \<Longrightarrow> for_range i hi body s = Inr s"
  by (simp add: for_range.simps)

lemma for_range_step:
  "i < hi \<Longrightarrow> for_range i hi body s =
     (case body i s of
        Inl e \<Rightarrow> Inl e
      | Inr (s', brk) \<Rightarrow> if brk then Inr s' else for_range (i + 1) hi body s')"
  by (simp add: for_range.simps)

text \<open>
  A body that never breaks nor panics makes the loop a left fold over the index range
  \<open>[lo..hi-1]\<close>: the reference reading of every counting loop of the program.
\<close>

lemma for_range_fold_gen:
  "body = (\<lambda>j s. Inr (f j s, False)) \<Longrightarrow> for_range i hi body s = Inr (fold f [i..hi - 1] s)"
proof (induction i hi body s rule: for_range.induct)
  case (1 i hi body s)
  show ?case
  proof (cases "i < hi")
    case True
    with "1.prems" have "for_range (i + 1) hi body (f i s) = Inr (fold f [i + 1..hi - 1] (f i s))"
      by (intro "1.IH" [OF True, of "(f i s, False)" "f i s" False]) simp_all
    with True "1.prems" show ?thesis
      by (simp add: for_range_step upto_rec1)
  next
    case False
    then show ?thesis by (simp add: upto_rec1)
  qed
qed

lemma for_range_fold:
  "for_range i hi (\<lambda>j s. Inr (f j s, False)) s = Inr (fold f [i..hi - 1] s)"
  by (rule for_range_fold_gen) (rule refl)

text \<open>
  Agreement: if every successful step of \<open>b1\<close> is a step of \<open>b2\<close>, every successful
  run of the loop over \<open>b1\<close> is a run over \<open>b2\<close>.  This carries facts about loops
  that read \<open>vs[i]\<close> over to \<open>vs @ extra\<close>.
\<close>

lemma for_range_agree:
  "for_range i hi b1 s = Inr r \<Longrightarrow> (\<And>j t r. b1 j t = Inr r \<Longrightarrow> b2 j t = Inr r) \<Longrightarrow>
   for_range i hi b2 s = Inr r"
proof (induction i hi b1 s rule: for_range.induct)
  case (1 i hi b1 s)
  show ?case
  proof (cases "i < hi")
    case True
    then obtain s' brk where b: "b1 i s = Inr (s', brk)"
      using "1.prems"(1) by (auto simp: for_range_step split: sum.splits)
    then have b2: "b2 i s = Inr (s', brk)" by (rule "1.prems"(2))
    show ?thesis
    proof (cases brk)
      case True
      with b b2 \<open>i < hi\<close> "1.prems"(1) show ?thesis by (simp add: for_range_step)
    next
      case False
      with b \<open>i < hi\<close> "1.prems"(1) have "for_range (i + 1) hi b1 s' = Inr r"
        by (simp add: for_range_step)
      with "1.IH" [OF \<open>i < hi\<close> b refl] False "1.prems"(2)
      have "for_range (i + 1) hi b2 s' = Inr r" by blast
      with b2 False \<open>i < hi\<close> show ?thesis by (simp add: for_range_step)
    qed
  next
    case False
    with "1.prems" show ?thesis by simp
  qed
qed

subsection \<open>Loops that read a list\<close>

lemma drop_take_Cons:
  "0 \<le> lo \<Longrightarrow> lo < hi \<Longrightarrow> hi \<le> int (length xs) \<Longrightarrow>
   drop (nat lo) (take (nat hi) xs) = xs ! nat lo # drop (nat (lo + 1)) (take (nat hi) xs)"
proof -
  assume a: "0 \<le> lo" "lo < hi" "hi \<le> int (length xs)"
  then have "nat lo < length (take (nat hi) xs)" by simp
  then have "drop (nat lo) (take (nat hi) xs) =
      take (nat hi) xs ! nat lo # drop (Suc (nat lo)) (take (nat hi) xs)"
    by (rule Cons_nth_drop_Suc [symmetric])
  moreover have "nat (lo + 1) = Suc (nat lo)" using a by simp
  ultimately show ?thesis using a by simp
qed

text \<open>Within the bounds of the list the loop is the fold over the window
  \<open>xs[lo..hi-1]\<close>.\<close>

lemma for_range_window:
  "body = (\<lambda>i s. go_map (\<lambda>d. g d s) (go_nth xs i)) \<Longrightarrow> 0 \<le> lo \<Longrightarrow> hi \<le> int (length xs) \<Longrightarrow>
   for_range lo hi body s = Inr (break_fold g (drop (nat lo) (take (nat hi) xs)) s)"
proof (induction lo hi body s rule: for_range.induct)
  case (1 lo hi body s)
  show ?case
  proof (cases "lo < hi")
    case True
    obtain s' brk where g: "g (xs ! nat lo) s = (s', brk)" by fastforce
    have nth: "go_nth xs lo = Inr (xs ! nat lo)" using True "1.prems" by simp
    have win: "drop (nat lo) (take (nat hi) xs) = xs ! nat lo # drop (nat (lo + 1)) (take (nat hi) xs)"
      using True "1.prems" by (intro drop_take_Cons) auto
    show ?thesis
    proof (cases brk)
      case True
      with \<open>lo < hi\<close> g nth win "1.prems" show ?thesis by (simp add: for_range_step)
    next
      case False
      have "for_range (lo + 1) hi body s' =
          Inr (break_fold g (drop (nat (lo + 1)) (take (nat hi) xs)) s')"
        using "1.IH" [OF \<open>lo < hi\<close>, of "(s', brk)" s' brk] "1.prems" nth g False by simp
      with \<open>lo < hi\<close> g nth win False "1.prems" show ?thesis by (simp add: for_range_step)
    qed
  next
    case False
    then show ?thesis by simp
  qed
qed

lemma for_each_index_window:
  "0 \<le> lo \<Longrightarrow> hi \<le> int (length xs) \<Longrightarrow>
   for_each_index xs lo hi g s = Inr (break_fold g (drop (nat lo) (take (nat hi) xs)) s)"
  unfolding for_each_index_def by (rule for_range_window) (rule refl)

lemma break_fold_fold [simp]: "break_fold (\<lambda>x s. (f x s, False)) xs s = fold f xs s"
  by (induction xs arbitrary: s) auto

text \<open>A successful loop over \<open>xs\<close> runs the same on \<open>xs @ ys\<close>.\<close>

lemma for_each_index_append:
  "for_each_index xs lo hi g s = Inr r \<Longrightarrow> for_each_index (xs @ ys) lo hi g s = Inr r"
  unfolding for_each_index_def
  by (erule for_range_agree) (auto simp: go_map_eq_Inr dest: go_nth_append_Inr)

text \<open>A loop that runs one index past the end of the list panics unless it breaks before.\<close>

lemma for_range_past_end:
  "body = (\<lambda>i s. go_map (\<lambda>d. g d s) (go_nth xs i)) \<Longrightarrow>
   0 \<le> lo \<Longrightarrow> lo \<le> int (length xs) \<Longrightarrow> int (length xs) < hi \<Longrightarrow>
   \<not> breaks g (drop (nat lo) xs) s \<Longrightarrow> for_range lo hi body s = Inl PanicIndex"
proof (induction lo hi body s rule: for_range.induct)
  case (1 lo hi body s)
  show ?case
  proof (cases "lo < int (length xs)")
    case True
    obtain s' brk where g: "g (xs ! nat lo) s = (s', brk)" by fastforce
    have nth: "go_nth xs lo = Inr (xs ! nat lo)" using True "1.prems" by simp
    have lo_hi: "lo < hi" using True "1.prems" by simp
    have dr: "drop (nat lo) xs = xs ! nat lo # drop (nat (lo + 1)) xs"
      using drop_take_Cons [of lo "int (length xs)" xs] True "1.prems" by simp
    with "1.prems" g have nb: "\<not> brk" "\<not> breaks g (drop (nat (lo + 1)) xs) s'" by auto
    have "for_range (lo + 1) hi body s' = Inl PanicIndex"
      using "1.IH" [OF lo_hi, of "(s', brk)" s' brk] "1.prems" nth g nb True by simp
    with lo_hi g nth nb "1.prems" show ?thesis by (simp add: for_range_step)
  next
    case False
    with "1.prems" have "lo = int (length xs)" by simp
    with "1.prems" show ?thesis by (simp add: for_range_step go_nth_out_of_range)
  qed
qed

lemma for_each_index_past_end:
  "0 \<le> lo \<Longrightarrow> lo \<le> int (length xs) \<Longrightarrow> int (length xs) < hi \<Longrightarrow>
   \<not> breaks g (drop (nat lo) xs) s \<Longrightarrow> for_each_index xs lo hi g s = Inl PanicIndex"
  unfolding for_each_index_def by (rule for_range_past_end) (rule refl)

end
