(* ===== verification/Float64.thy ===== *)
theory Float64
  imports Complex_Main Prelude
begin

text \<open>
  Go's \<open>float64\<close> as the IEEE-754 value classes the judge distinguishes: a finite
  value, the two infinities and NaN.  Finite values are exact reals: rounding is not
  modelled, so every theorem about finite arithmetic holds of the exact result.  What
  the code depends on is kept: NaN propagates through arithmetic and makes every
  ordered comparison false, \<open>x / 0\<close> is an infinity or NaN rather than HOL's \<open>0\<close>,
  and \<open>NaN == NaN\<close> is false.  Signed zero is not modelled (\<open>x / 0\<close> takes the sign
  of \<open>x\<close>).
\<close>

datatype f64 = Fin real | PInf | NInf | NaN

fun fneg :: "f64 \<Rightarrow> f64" where
  "fneg (Fin a) = Fin (- a)"
| "fneg PInf = NInf"
| "fneg NInf = PInf"
| "fneg NaN = NaN"

fun fadd :: "f64 \<Rightarrow> f64 \<Rightarrow> f64" where
  "fadd (Fin a) (Fin b) = Fin (a + b)"
| "fadd NaN _ = NaN"
| "fadd _ NaN = NaN"
| "fadd PInf NInf = NaN"
| "fadd NInf PInf = NaN"
| "fadd PInf _ = PInf"
| "fadd NInf _ = NInf"
| "fadd _ PInf = PInf"
| "fadd _ NInf = NInf"

definition fsub :: "f64 \<Rightarrow> f64 \<Rightarrow> f64" where
  "fsub a b = fadd a (fneg b)"

fun fmul :: "f64 \<Rightarrow> f64 \<Rightarrow> f64" where
  "fmul (Fin a) (Fin b) = Fin (a * b)"
| "fmul NaN _ = NaN"
| "fmul _ NaN = NaN"
| "fmul (Fin a) y = (if a = 0 then NaN else if 0 < a then y else fneg y)"
| "fmul x (Fin b) = (if b = 0 then NaN else if 0 < b then x else fneg x)"
| "fmul x y = (if x = y then PInf else NInf)"

fun fdiv :: "f64 \<Rightarrow> f64 \<Rightarrow> f64" where
  "fdiv (Fin a) (Fin b) =
     (if b \<noteq> 0 then Fin (a / b) else if a = 0 then NaN else if 0 < a then PInf else NInf)"
| "fdiv NaN _ = NaN"
| "fdiv _ NaN = NaN"
| "fdiv (Fin a) _ = Fin 0"
| "fdiv x (Fin b) = (if 0 \<le> b then x else fneg x)"
| "fdiv _ _ = NaN"

fun fabs :: "f64 \<Rightarrow> f64" where
  "fabs (Fin a) = Fin \<bar>a\<bar>"
| "fabs NaN = NaN"
| "fabs _ = PInf"

text \<open>Go's \<open><\<close>, \<open>==\<close> and \<open><=\<close> on \<open>float64\<close>: every comparison with NaN is false.\<close>

fun flt :: "f64 \<Rightarrow> f64 \<Rightarrow> bool" where
  "flt NaN _ = False"
| "flt _ NaN = False"
| "flt (Fin a) (Fin b) = (a < b)"
| "flt NInf y = (y \<noteq> NInf)"
| "flt x PInf = (x \<noteq> PInf)"
| "flt _ _ = False"

fun feq :: "f64 \<Rightarrow> f64 \<Rightarrow> bool" where
  "feq (Fin a) (Fin b) = (a = b)"
| "feq PInf PInf = True"
| "feq NInf NInf = True"
| "feq _ _ = False"

definition fle :: "f64 \<Rightarrow> f64 \<Rightarrow> bool" where
  "fle x y = (flt x y \<or> feq x y)"

definition is_nan :: "f64 \<Rightarrow> bool" where
  "is_nan x = (x = NaN)"

text \<open>\<open>float64(n)\<close> for a Go \<open>int\<close> (exact: rounding above \<open>2^53\<close> is not modelled).\<close>

definition f64_of_int :: "int \<Rightarrow> f64" where
  "f64_of_int n = Fin (of_int n)"

definition is_finite :: "f64 \<Rightarrow> bool" where
  "is_finite x = (\<exists>r. x = Fin r)"

lemma is_finite_code [code]:
  "is_finite x = (case x of Fin _ \<Rightarrow> True | _ \<Rightarrow> False)"
  by (cases x) (auto simp: is_finite_def)

text \<open>The real number of a finite value (used to state specifications over finite data).\<close>

fun fin_val :: "f64 \<Rightarrow> real" where
  "fin_val (Fin a) = a"
| "fin_val _ = 0"

section \<open>Lemmas\<close>

named_theorems f64_simps "arithmetic of finite float64 values"

lemma fsub_Fin [simp, f64_simps]: "fsub (Fin a) (Fin b) = Fin (a - b)"
  by (simp add: fsub_def)

lemma fdiv_Fin_nz [simp, f64_simps]: "b \<noteq> 0 \<Longrightarrow> fdiv (Fin a) (Fin b) = Fin (a / b)"
  by simp

lemma fle_Fin [simp, f64_simps]: "fle (Fin a) (Fin b) = (a \<le> b)"
  by (auto simp: fle_def)

lemma f64_of_int_Fin [simp, f64_simps]: "f64_of_int n = Fin (of_int n)"
  by (simp add: f64_of_int_def)

lemma is_nan_simps [simp, f64_simps]:
  "is_nan (Fin a) = False" "is_nan NaN = True" "is_nan PInf = False" "is_nan NInf = False"
  by (simp_all add: is_nan_def)

lemma is_finite_simps [simp, f64_simps]:
  "is_finite (Fin a)" "\<not> is_finite NaN" "\<not> is_finite PInf" "\<not> is_finite NInf"
  by (simp_all add: is_finite_def)

text \<open>NaN is absorbing and incomparable.\<close>

lemma nan_absorbs [simp]:
  "fadd NaN x = NaN" "fadd x NaN = NaN" "fsub NaN x = NaN" "fsub x NaN = NaN"
  "fdiv NaN x = NaN" "fdiv x NaN = NaN" "fmul NaN x = NaN" "fmul x NaN = NaN"
  by (cases x; simp add: fsub_def)+

lemma nan_incomparable [simp]:
  "\<not> flt NaN x" "\<not> flt x NaN" "\<not> fle NaN x" "\<not> fle x NaN" "\<not> feq NaN x" "\<not> feq x NaN"
  by (cases x; simp add: fle_def)+

text \<open>Between two non-NaN values \<open><\<close> and \<open>>=\<close> are complementary.\<close>

lemma flt_fle_dual: "\<not> is_nan x \<Longrightarrow> \<not> is_nan y \<Longrightarrow> flt x y \<longleftrightarrow> \<not> fle y x"
  by (cases x; cases y) (auto simp: fle_def is_nan_def)

lemma flt_asym: "flt x y \<Longrightarrow> \<not> flt y x"
  by (cases x; cases y) auto

lemma fadd_Fin_closed: "fadd x y = Fin r \<Longrightarrow> \<exists>a b. x = Fin a \<and> y = Fin b \<and> r = a + b"
  by (cases x; cases y) auto

end
