(* ===== verification/Model.thy ===== *)
theory Model
  imports Float64
begin

text \<open>
  The data types of \<open>common/model\<close> that the judge exchanges with the graph backend,
  the strategy source and the event queue.  That package is not part of the sources
  under \<open>src/\<close>; the records follow the field lists of the specification (section 3
  and 6).  Go maps from tag name to tag value are association lists.
\<close>

text \<open>A sample point \<open>RRDData\<close>: \<open>Timestamp int64\<close>, \<open>Value float64\<close>.\<close>

record rrd_data =
  rrd_timestamp :: int
  rrd_value :: f64

type_synonym tags = "(string \<times> string) list"

text \<open>A strategy \<open>Strategy\<close> as delivered by the configuration source.\<close>

record strategy =
  s_id :: int
  s_metric :: string
  s_tags :: tags
  s_func :: string
  s_operator :: string
  s_right_value :: f64
  s_max_step :: int
  s_priority :: int

text \<open>An alert event \<open>Event\<close>; \<open>Status\<close> is the string \<open>"PROBLEM"\<close> or \<open>"OK"\<close>.\<close>

record event =
  ev_id :: string
  ev_strategy :: strategy
  ev_endpoint :: string
  ev_left_value :: f64
  ev_event_time :: int
  ev_status :: string
  ev_current_step :: int
  ev_pushed_tags :: tags

text \<open>\<open>Event.Priority()\<close> is the priority of the event's strategy.\<close>

definition ev_priority :: "event \<Rightarrow> int" where
  "ev_priority e = s_priority (ev_strategy e)"

text \<open>The request and response of the graph query \<open>GraphRpc.QueryOne\<close>.\<close>

record graph_query_param =
  q_start :: int
  q_end :: int
  q_consol_fun :: string
  q_endpoint :: string
  q_counter :: string
  q_step :: int

record graph_query_response =
  r_endpoint :: string
  r_counter :: string
  r_ds_type :: string
  r_step :: int
  r_values :: "rrd_data list"

text \<open>A pushed sample \<open>JudgeItem\<close> as kept by the judge's item cache.\<close>

record judge_item =
  ji_endpoint :: string
  ji_metric :: string
  ji_value :: f64
  ji_timestamp :: int
  ji_judge_type :: string
  ji_tags :: tags

end
