(* ===== verification/Functions.thy ===== *)
theory Functions
  imports Model
begin

text \<open>
  The windowed alert functions of \<open>modules/judge/judge/func2.go\<close>.  Each Go type
  implementing \<open>Function\<close> is a constructor of \<open>func\<close> carrying its fields; each
  \<open>Compute\<close> method is a definition \<open><name>_compute\<close> returning the named results
  \<open>(leftValue, isTriggered, isEnough)\<close>, or a panic.  Early returns before the
  results are assigned yield Go's zero values \<open>(0, false, false)\<close>.  Every loop is
  \<open>for_range\<close> with the source's bounds, and every \<open>vs[i]\<close> is the bounds-checked
  \<open>go_nth\<close>, so a read past the end of the history is the panic it is in Go.
\<close>

type_synonym outcome = "f64 \<times> bool \<times> bool"

definition not_enough :: "outcome go_result" where
  "not_enough = Inr (Fin 0, False, False)"

text \<open>\<open>checkIsTriggered\<close>: an unknown operator never triggers.\<close>

definition eq_tolerance :: f64 where
  "eq_tolerance = Fin (1 / 10000)"

definition check_is_triggered :: "f64 \<Rightarrow> string \<Rightarrow> f64 \<Rightarrow> bool" where
  "check_is_triggered left operator right =
     (if operator = ''='' \<or> operator = ''=='' then flt (fabs (fsub left right)) eq_tolerance
      else if operator = ''!='' then flt eq_tolerance (fabs (fsub left right))
      else if operator = ''<'' then flt left right
      else if operator = ''<='' then fle left right
      else if operator = ''>'' then flt right left
      else if operator = ''>='' then fle right left
      else False)"

text \<open>The implementations of \<open>Function\<close>: \<open>Limit\<close>, \<open>Operator\<close>, \<open>RightValue\<close>
  (and \<open>Num\<close> before \<open>Limit\<close> for \<open>lookup\<close>).\<close>

datatype func =
    MaxFunction int string f64
  | MinFunction int string f64
  | AllFunction int string f64
  | LookupFunction int int string f64
  | SumFunction int string f64
  | AvgFunction int string f64
  | DiffFunction int string f64
  | PDiffFunction int string f64
  | CAvgRateAbs string f64

definition fmax_step :: "f64 \<Rightarrow> f64 \<Rightarrow> f64" where
  "fmax_step m v = (if flt m v then v else m)"

definition fmin_step :: "f64 \<Rightarrow> f64 \<Rightarrow> f64" where
  "fmin_step m v = (if flt v m then v else m)"

definition max_compute :: "int \<Rightarrow> string \<Rightarrow> f64 \<Rightarrow> rrd_data list \<Rightarrow> outcome go_result" where
  "max_compute limit operator right vs =
     (if limit \<le> int (length vs) then
        go_bind (go_nth vs 0) (\<lambda>d0.
        go_bind (for_each_index vs 1 limit (\<lambda>d m. (fmax_step m (rrd_value d), False))
                   (rrd_value d0)) (\<lambda>m.
        Inr (m, check_is_triggered m operator right, True)))
      else not_enough)"

definition min_compute :: "int \<Rightarrow> string \<Rightarrow> f64 \<Rightarrow> rrd_data list \<Rightarrow> outcome go_result" where
  "min_compute limit operator right vs =
     (if limit \<le> int (length vs) then
        go_bind (go_nth vs 0) (\<lambda>d0.
        go_bind (for_each_index vs 1 limit (\<lambda>d m. (fmin_step m (rrd_value d), False))
                   (rrd_value d0)) (\<lambda>m.
        Inr (m, check_is_triggered m operator right, True)))
      else not_enough)"

text \<open>\<open>all\<close>: the loop stops at the first point that does not satisfy the comparison;
  \<open>leftValue\<close> is \<open>vs[0]\<close>, read after the loop.\<close>

definition all_step :: "string \<Rightarrow> f64 \<Rightarrow> rrd_data \<Rightarrow> bool \<Rightarrow> bool \<times> bool" where
  "all_step operator right d t =
     (let t' = check_is_triggered (rrd_value d) operator right in (t', \<not> t'))"

definition all_compute :: "int \<Rightarrow> string \<Rightarrow> f64 \<Rightarrow> rrd_data list \<Rightarrow> outcome go_result" where
  "all_compute limit operator right vs =
     (if limit \<le> int (length vs) then
        go_bind (for_each_index vs 0 limit (all_step operator right) True) (\<lambda>t.
        go_bind (go_nth vs 0) (\<lambda>d0.
        Inr (rrd_value d0, t, True)))
      else not_enough)"

text \<open>\<open>lookup\<close>: \<open>leftValue = vs[0]\<close> first; the loop counts matching points in
  \<open>n\<close> and returns with \<open>isTriggered\<close> when \<open>n\<close> reaches \<open>Num\<close>.  The loop
  variables are \<open>(n, isTriggered)\<close>.\<close>

definition lookup_step ::
  "int \<Rightarrow> string \<Rightarrow> f64 \<Rightarrow> rrd_data \<Rightarrow> int \<times> bool \<Rightarrow> (int \<times> bool) \<times> bool" where
  "lookup_step num operator right d nt =
     (let (n, t) = nt in
      if check_is_triggered (rrd_value d) operator right
      then (if n + 1 = num then ((n + 1, True), True) else ((n + 1, t), False))
      else ((n, t), False))"

definition lookup_compute :: "int \<Rightarrow> int \<Rightarrow> string \<Rightarrow> f64 \<Rightarrow> rrd_data list \<Rightarrow> outcome go_result" where
  "lookup_compute num limit operator right vs =
     (if limit \<le> int (length vs) then
        go_bind (go_nth vs 0) (\<lambda>d0.
        go_bind (for_each_index vs 0 limit (lookup_step num operator right) (0, False)) (\<lambda>(n, t).
        Inr (rrd_value d0, t, True)))
      else not_enough)"

definition sum_compute :: "int \<Rightarrow> string \<Rightarrow> f64 \<Rightarrow> rrd_data list \<Rightarrow> outcome go_result" where
  "sum_compute limit operator right vs =
     (if limit \<le> int (length vs) then
        go_bind (for_each_index vs 0 limit (\<lambda>d s. (fadd s (rrd_value d), False)) (Fin 0)) (\<lambda>s.
        Inr (s, check_is_triggered s operator right, True))
      else not_enough)"

definition avg_compute :: "int \<Rightarrow> string \<Rightarrow> f64 \<Rightarrow> rrd_data list \<Rightarrow> outcome go_result" where
  "avg_compute limit operator right vs =
     (if limit \<le> int (length vs) then
        go_bind (for_each_index vs 0 limit (\<lambda>d s. (fadd s (rrd_value d), False)) (Fin 0)) (\<lambda>s.
        let l = fdiv s (f64_of_int limit) in
        Inr (l, check_is_triggered l operator right, True))
      else not_enough)"

text \<open>\<open>diff\<close>: after the \<open>len(vs) >= Limit\<close> check the loop reads
  \<open>vs[1] .. vs[Limit]\<close>, one point more than the check guarantees.  The loop variables
  are \<open>(leftValue, isTriggered)\<close>; the loop breaks at the first trigger.  (\<open>Limit+1\<close>
  cannot wrap: \<open>len(vs) >= Limit\<close> bounds \<open>Limit\<close> by a slice length.)\<close>

definition diff_step ::
  "string \<Rightarrow> f64 \<Rightarrow> f64 \<Rightarrow> rrd_data \<Rightarrow> f64 \<times> bool \<Rightarrow> (f64 \<times> bool) \<times> bool" where
  "diff_step operator right first d lt =
     (let l' = fsub first (rrd_value d);
          t' = check_is_triggered l' operator right
      in ((l', t'), t'))"

definition diff_compute :: "int \<Rightarrow> string \<Rightarrow> f64 \<Rightarrow> rrd_data list \<Rightarrow> outcome go_result" where
  "diff_compute limit operator right vs =
     (if limit \<le> int (length vs) then
        (if vs = [] then not_enough
         else
           go_bind (go_nth vs 0) (\<lambda>d0.
           go_bind (for_each_index vs 1 (limit + 1) (diff_step operator right (rrd_value d0))
                      (Fin 0, False)) (\<lambda>(l, t).
           Inr (l, t, True))))
      else not_enough)"

text \<open>\<open>pdiff\<close>: as \<open>diff\<close> with the relative change in percent; a zero point is
  skipped (\<open>continue\<close>) and leaves the loop variables unchanged.\<close>

definition pdiff_step ::
  "string \<Rightarrow> f64 \<Rightarrow> f64 \<Rightarrow> rrd_data \<Rightarrow> f64 \<times> bool \<Rightarrow> (f64 \<times> bool) \<times> bool" where
  "pdiff_step operator right first d lt =
     (if feq (rrd_value d) (Fin 0) then (lt, False)
      else
        let l' = fmul (fdiv (fsub first (rrd_value d)) (rrd_value d)) (Fin 100);
            t' = check_is_triggered l' operator right
        in ((l', t'), t'))"

definition pdiff_compute :: "int \<Rightarrow> string \<Rightarrow> f64 \<Rightarrow> rrd_data list \<Rightarrow> outcome go_result" where
  "pdiff_compute limit operator right vs =
     (if limit \<le> int (length vs) then
        (if vs = [] then not_enough
         else
           go_bind (go_nth vs 0) (\<lambda>d0.
           go_bind (for_each_index vs 1 (limit + 1) (pdiff_step operator right (rrd_value d0))
                      (Fin 0, False)) (\<lambda>(l, t).
           Inr (l, t, True))))
      else not_enough)"

text \<open>\<open>CAvgRateAbs.RelativeCompute\<close>: the means of the non-NaN, non-zero points of both
  series and their relative distance in percent.  The loops run over the whole slices,
  so they are folds.\<close>

definition avg_acc :: "f64 \<times> int \<Rightarrow> rrd_data \<Rightarrow> f64 \<times> int" where
  "avg_acc acc d =
     (let (s, c) = acc in
      if \<not> is_nan (rrd_value d) \<and> \<not> feq (rrd_value d) (Fin 0)
      then (fadd s (rrd_value d), c + 1) else (s, c))"

definition c_avg_rate_abs_relative ::
  "string \<Rightarrow> f64 \<Rightarrow> rrd_data list \<Rightarrow> rrd_data list \<Rightarrow> outcome go_result" where
  "c_avg_rate_abs_relative operator right current relative =
     (if current \<noteq> [] \<and> relative \<noteq> [] then
        (let (csum, ccount) = foldl avg_acc (Fin 0, 0) current;
             (rsum, rcount) = foldl avg_acc (Fin 0, 0) relative
         in if ccount \<noteq> 0 \<and> rcount \<noteq> 0 then
              (let cv = fdiv csum (f64_of_int ccount);
                   rv = fdiv rsum (f64_of_int rcount);
                   rate = fmul (fdiv (fabs (fsub cv rv)) rv) (Fin 100)
               in Inr (rate, check_is_triggered rate operator right, True))
            else not_enough)
      else not_enough)"

text \<open>Dispatch of the interface methods.  A type that does not define a method inherits
  it from its embedded \<open>Function\<close> interface, which is nil: calling it panics.\<close>

fun compute :: "func \<Rightarrow> rrd_data list \<Rightarrow> outcome go_result" where
  "compute (MaxFunction limit operator right) vs = max_compute limit operator right vs"
| "compute (MinFunction limit operator right) vs = min_compute limit operator right vs"
| "compute (AllFunction limit operator right) vs = all_compute limit operator right vs"
| "compute (LookupFunction num limit operator right) vs = lookup_compute num limit operator right vs"
| "compute (SumFunction limit operator right) vs = sum_compute limit operator right vs"
| "compute (AvgFunction limit operator right) vs = avg_compute limit operator right vs"
| "compute (DiffFunction limit operator right) vs = diff_compute limit operator right vs"
| "compute (PDiffFunction limit operator right) vs = pdiff_compute limit operator right vs"
| "compute (CAvgRateAbs operator right) vs = Inl PanicNilCall"

fun relative_compute :: "func \<Rightarrow> rrd_data list \<Rightarrow> rrd_data list \<Rightarrow> outcome go_result" where
  "relative_compute (CAvgRateAbs operator right) current relative =
     c_avg_rate_abs_relative operator right current relative"
| "relative_compute _ current relative = Inl PanicNilCall"

section \<open>Properties\<close>

lemmas compute_defs = max_compute_def min_compute_def all_compute_def lookup_compute_def
  sum_compute_def avg_compute_def diff_compute_def pdiff_compute_def not_enough_def

definition finite_window :: "rrd_data list \<Rightarrow> bool" where
  "finite_window ds = list_all (\<lambda>d. is_finite (rrd_value d)) ds"

lemma finite_window_Cons [simp]:
  "finite_window (d # ds) \<longleftrightarrow> is_finite (rrd_value d) \<and> finite_window ds"
  by (simp add: finite_window_def)

lemma finite_window_Nil [simp]: "finite_window []"
  by (simp add: finite_window_def)

subsection \<open>Comparisons\<close>

text \<open>C14: A NaN on either side of the comparison never triggers, whatever the operator.\<close>

theorem check_is_triggered_nan:
  "is_nan left \<or> is_nan right \<Longrightarrow> \<not> check_is_triggered left operator right"
  unfolding is_nan_def check_is_triggered_def
  by (elim disjE) (simp_all add: fle_def)

theorem check_is_triggered_nan_witness:
  "(is_nan NaN \<or> is_nan (Fin 0)) \<and> \<not> check_is_triggered NaN ''!='' (Fin 0)"
  using check_is_triggered_nan [of NaN "Fin 0" "''!=''"] by simp

text \<open>C13: Operator duality: for two values neither of which is NaN, exactly one of the comparisons "<" and ">=" of checkIsTriggered holds.\<close>

theorem check_is_triggered_lt_ge:
  "\<not> is_nan left \<Longrightarrow> \<not> is_nan right \<Longrightarrow>
   check_is_triggered left ''<'' right \<longleftrightarrow> \<not> check_is_triggered left ''>='' right"
  unfolding check_is_triggered_def by (simp add: flt_fle_dual)

theorem check_is_triggered_lt_ge_witness:
  "\<not> is_nan (Fin 1) \<and> \<not> is_nan (Fin 2) \<and>
   (check_is_triggered (Fin 1) ''<'' (Fin 2) \<longleftrightarrow> \<not> check_is_triggered (Fin 1) ''>='' (Fin 2))"
  using check_is_triggered_lt_ge [of "Fin 1" "Fin 2"] by simp

lemma check_is_triggered_gt_le:
  "\<not> is_nan left \<Longrightarrow> \<not> is_nan right \<Longrightarrow>
   check_is_triggered left ''>'' right \<longleftrightarrow> \<not> check_is_triggered left ''<='' right"
  unfolding check_is_triggered_def by (simp add: flt_fle_dual)

lemma check_is_triggered_eq_ne:
  "\<not> (check_is_triggered left ''='' right \<and> check_is_triggered left ''!='' right)"
  unfolding check_is_triggered_def using flt_asym by simp

lemma check_is_triggered_Fin [simp]:
  "check_is_triggered (Fin a) ''>'' (Fin b) = (b < a)"
  "check_is_triggered (Fin a) ''>='' (Fin b) = (b \<le> a)"
  "check_is_triggered (Fin a) ''<'' (Fin b) = (a < b)"
  "check_is_triggered (Fin a) ''<='' (Fin b) = (a \<le> b)"
  "check_is_triggered (Fin a) ''='' (Fin b) = (\<bar>a - b\<bar> < 1 / 10000)"
  "check_is_triggered (Fin a) ''=='' (Fin b) = (\<bar>a - b\<bar> < 1 / 10000)"
  "check_is_triggered (Fin a) ''!='' (Fin b) = (1 / 10000 < \<bar>a - b\<bar>)"
  by (simp_all add: check_is_triggered_def eq_tolerance_def)

subsection \<open>Windows of finite values\<close>

lemma fold_fmax_step_Fin:
  "finite_window ds \<Longrightarrow>
   fold (\<lambda>d m. fmax_step m (rrd_value d)) ds (Fin a) = Fin (fold max (map (fin_val \<circ> rrd_value) ds) a)"
proof (induction ds arbitrary: a)
  case Nil
  then show ?case by simp
next
  case (Cons d ds)
  then obtain b where "rrd_value d = Fin b" by (auto simp: is_finite_def)
  with Cons show ?case by (simp add: fmax_step_def max_def)
qed

lemma fold_fmin_step_Fin:
  "finite_window ds \<Longrightarrow>
   fold (\<lambda>d m. fmin_step m (rrd_value d)) ds (Fin a) = Fin (fold min (map (fin_val \<circ> rrd_value) ds) a)"
proof (induction ds arbitrary: a)
  case Nil
  then show ?case by simp
next
  case (Cons d ds)
  then obtain b where "rrd_value d = Fin b" by (auto simp: is_finite_def)
  with Cons show ?case by (simp add: fmin_step_def min_def)
qed

lemma fold_fadd_Fin:
  "finite_window ds \<Longrightarrow>
   fold (\<lambda>d s. fadd s (rrd_value d)) ds (Fin a) = Fin (a + sum_list (map (fin_val \<circ> rrd_value) ds))"
proof (induction ds arbitrary: a)
  case Nil
  then show ?case by simp
next
  case (Cons d ds)
  then obtain b where "rrd_value d = Fin b" by (auto simp: is_finite_def)
  with Cons show ?case by (simp add: algebra_simps)
qed

text \<open>The loops of \<open>max\<close> and \<open>min\<close> start from \<open>vs[0]\<close> and fold the rest of
  the window \<open>vs[0..Limit)\<close>.\<close>

lemma head_window_loop:
  assumes "1 \<le> limit" "limit \<le> int (length vs)" "finite_window (take (nat limit) vs)"
  shows "\<exists>d0 a w. go_nth vs 0 = Inr d0 \<and> rrd_value d0 = Fin a \<and> finite_window w \<and>
           take (nat limit) vs = d0 # w \<and>
           (\<forall>s. for_each_index vs 1 limit (\<lambda>d m. (f d m, False)) s = Inr (fold f w s))"
proof (cases vs)
  case Nil
  with assms show ?thesis by simp
next
  case (Cons d0 rest)
  let ?w = "take (nat limit - 1) rest"
  have tk: "take (nat limit) vs = d0 # ?w" using Cons assms(1) by (simp add: take_Cons')
  with assms(3) obtain a where "rrd_value d0 = Fin a" "finite_window ?w"
    by (auto simp: is_finite_def)
  moreover have "\<forall>s. for_each_index vs 1 limit (\<lambda>d m. (f d m, False)) s = Inr (fold f ?w s)"
    using assms(2) tk by (simp add: for_each_index_window)
  ultimately show ?thesis using Cons tk by auto
qed

lemma sum_window_loop:
  "0 \<le> limit \<Longrightarrow> limit \<le> int (length vs) \<Longrightarrow> finite_window (take (nat limit) vs) \<Longrightarrow>
   for_each_index vs 0 limit (\<lambda>d s. (fadd s (rrd_value d), False)) (Fin 0) =
     Inr (Fin (sum_list (map (fin_val \<circ> rrd_value) (take (nat limit) vs))))"
  by (simp add: for_each_index_window fold_fadd_Fin)

text \<open>The list readings of the loops that break.\<close>

lemma break_fold_all_step:
  "break_fold (all_step operator right) ds t =
     (if ds = [] then t else list_all (\<lambda>d. check_is_triggered (rrd_value d) operator right) ds)"
  by (induction ds arbitrary: t) (auto simp: all_step_def Let_def)

lemma break_fold_lookup_step:
  "snd (break_fold (lookup_step num operator right) ds (n, False)) \<longleftrightarrow>
     n < num \<and> num \<le> n + int (length (filter (\<lambda>d. check_is_triggered (rrd_value d) operator right) ds))"
proof (induction ds arbitrary: n)
  case Nil
  then show ?case by simp
next
  case (Cons d ds)
  show ?case
  proof (cases "check_is_triggered (rrd_value d) operator right")
    case True
    show ?thesis
    proof (cases "n + 1 = num")
      case True
      with \<open>check_is_triggered (rrd_value d) operator right\<close> show ?thesis
        by (simp add: lookup_step_def)
    next
      case False
      with \<open>check_is_triggered (rrd_value d) operator right\<close> Cons.IH [of "n + 1"] show ?thesis
        by (simp add: lookup_step_def) arith
    qed
  next
    case False
    with Cons.IH [of n] show ?thesis by (simp add: lookup_step_def)
  qed
qed

lemma break_fold_diff_step:
  "break_fold (diff_step operator right first) ds lt =
     (case find (\<lambda>d. check_is_triggered (fsub first (rrd_value d)) operator right) ds of
        Some d \<Rightarrow> (fsub first (rrd_value d), True)
      | None \<Rightarrow> if ds = [] then lt else (fsub first (rrd_value (last ds)), False))"
  by (induction ds arbitrary: lt) (auto simp: diff_step_def Let_def split: option.splits)

lemma breaks_diff_step:
  "breaks (diff_step operator right first) ds lt \<longleftrightarrow>
     (\<exists>d \<in> set ds. check_is_triggered (fsub first (rrd_value d)) operator right)"
  by (induction ds arbitrary: lt) (auto simp: diff_step_def Let_def)

subsection \<open>Functional behaviour of each function\<close>

text \<open>C16: max(#N) on a history of at least N finite points is the maximum of the newest N points, compared with the threshold, with isEnough set.\<close>

theorem max_compute_finite:
  assumes "1 \<le> limit" "limit \<le> int (length vs)" "finite_window (take (nat limit) vs)"
  shows "max_compute limit operator right vs =
           (let m = Fin (Max (set (map (fin_val \<circ> rrd_value) (take (nat limit) vs))))
            in Inr (m, check_is_triggered m operator right, True))"
proof -
  obtain d0 a w where h: "go_nth vs 0 = Inr d0" "rrd_value d0 = Fin a" "finite_window w"
      "take (nat limit) vs = d0 # w"
    and loop: "\<forall>s. for_each_index vs 1 limit (\<lambda>d m. (fmax_step m (rrd_value d), False)) s =
               Inr (fold (\<lambda>d m. fmax_step m (rrd_value d)) w s)"
    using head_window_loop [OF assms, of "\<lambda>d m. fmax_step m (rrd_value d)"] by blast
  have "Max (set (map (fin_val \<circ> rrd_value) (take (nat limit) vs))) =
      fold max (map (fin_val \<circ> rrd_value) w) a"
    unfolding h(4) using Max.set_eq_fold [of a "map (fin_val \<circ> rrd_value) w"] h(2) by simp
  with assms(1,2) h loop show ?thesis
    by (simp add: max_compute_def fold_fmax_step_Fin Let_def hd_conv_nth)
qed

theorem max_compute_finite_witness:
  "max_compute 3 ''>'' (Fin 10) [\<lparr>rrd_timestamp = 300, rrd_value = Fin 12\<rparr>, \<lparr>rrd_timestamp = 240, rrd_value = Fin 11\<rparr>,
     \<lparr>rrd_timestamp = 180, rrd_value = Fin 10\<rparr>] = Inr (Fin 12, True, True)"
  using max_compute_finite [of 3 "[\<lparr>rrd_timestamp = 300, rrd_value = Fin 12\<rparr>, \<lparr>rrd_timestamp = 240, rrd_value = Fin 11\<rparr>,  \<lparr>rrd_timestamp = 180, rrd_value = Fin 10\<rparr>]" "''>''" "Fin 10"]
  by (simp add: Let_def)

theorem min_compute_finite:
  assumes "1 \<le> limit" "limit \<le> int (length vs)" "finite_window (take (nat limit) vs)"
  shows "min_compute limit operator right vs =
           (let m = Fin (Min (set (map (fin_val \<circ> rrd_value) (take (nat limit) vs))))
            in Inr (m, check_is_triggered m operator right, True))"
proof -
  obtain d0 a w where h: "go_nth vs 0 = Inr d0" "rrd_value d0 = Fin a" "finite_window w"
      "take (nat limit) vs = d0 # w"
    and loop: "\<forall>s. for_each_index vs 1 limit (\<lambda>d m. (fmin_step m (rrd_value d), False)) s =
               Inr (fold (\<lambda>d m. fmin_step m (rrd_value d)) w s)"
    using head_window_loop [OF assms, of "\<lambda>d m. fmin_step m (rrd_value d)"] by blast
  have "Min (set (map (fin_val \<circ> rrd_value) (take (nat limit) vs))) =
      fold min (map (fin_val \<circ> rrd_value) w) a"
    unfolding h(4) using Min.set_eq_fold [of a "map (fin_val \<circ> rrd_value) w"] h(2) by simp
  with assms(1,2) h loop show ?thesis
    by (simp add: min_compute_def fold_fmin_step_Fin Let_def hd_conv_nth)
qed

theorem sum_compute_finite:
  assumes "0 \<le> limit" "limit \<le> int (length vs)" "finite_window (take (nat limit) vs)"
  shows "sum_compute limit operator right vs =
           (let s = Fin (sum_list (map (fin_val \<circ> rrd_value) (take (nat limit) vs)))
            in Inr (s, check_is_triggered s operator right, True))"
  using assms by (simp add: sum_compute_def sum_window_loop Let_def)

text \<open>C15: avg(#N) on a history of at least N finite points is the arithmetic mean of the newest N points, compared with the threshold, with isEnough set.\<close>

theorem avg_compute_finite:
  assumes "1 \<le> limit" "limit \<le> int (length vs)" "finite_window (take (nat limit) vs)"
  shows "avg_compute limit operator right vs =
           (let l = Fin (sum_list (map (fin_val \<circ> rrd_value) (take (nat limit) vs)) / of_int limit)
            in Inr (l, check_is_triggered l operator right, True))"
  using assms by (simp add: avg_compute_def sum_window_loop Let_def)

theorem avg_compute_finite_witness:
  "avg_compute 3 ''>'' (Fin 10) [\<lparr>rrd_timestamp = 300, rrd_value = Fin 12\<rparr>, \<lparr>rrd_timestamp = 240, rrd_value = Fin 11\<rparr>,
     \<lparr>rrd_timestamp = 180, rrd_value = Fin 10\<rparr>] = Inr (Fin 11, True, True)"
  using avg_compute_finite [of 3 "[\<lparr>rrd_timestamp = 300, rrd_value = Fin 12\<rparr>, \<lparr>rrd_timestamp = 240, rrd_value = Fin 11\<rparr>,  \<lparr>rrd_timestamp = 180, rrd_value = Fin 10\<rparr>]" "''>''" "Fin 10"]
  by (simp add: Let_def)

text \<open>C18: all(#N) triggers exactly when every one of the newest N points satisfies the comparison; its left value is the newest point.\<close>

theorem all_compute_window:
  assumes "1 \<le> limit" "limit \<le> int (length vs)"
  shows "all_compute limit operator right vs =
           Inr (rrd_value (hd vs),
                list_all (\<lambda>d. check_is_triggered (rrd_value d) operator right) (take (nat limit) vs),
                True)"
proof -
  have ne: "vs \<noteq> []" "take (nat limit) vs \<noteq> []" using assms by auto
  then have "go_nth vs 0 = Inr (hd vs)" by (cases vs) auto
  with assms ne show ?thesis
    by (simp add: all_compute_def for_each_index_window break_fold_all_step)
qed

theorem all_compute_window_witness:
  "all_compute 3 ''>'' (Fin 10) [\<lparr>rrd_timestamp = 300, rrd_value = Fin 12\<rparr>, \<lparr>rrd_timestamp = 240, rrd_value = Fin 11\<rparr>,
     \<lparr>rrd_timestamp = 180, rrd_value = Fin 10\<rparr>] = Inr (Fin 12, False, True)"
  using all_compute_window [of 3 "[\<lparr>rrd_timestamp = 300, rrd_value = Fin 12\<rparr>, \<lparr>rrd_timestamp = 240, rrd_value = Fin 11\<rparr>,  \<lparr>rrd_timestamp = 180, rrd_value = Fin 10\<rparr>]" "''>''" "Fin 10"]
  by simp

text \<open>C17: lookup(#M#N) triggers exactly when M is positive and at least M of the newest N points satisfy the comparison; its left value is the newest point.\<close>

theorem lookup_compute_window:
  assumes "0 \<le> limit" "limit \<le> int (length vs)" "vs \<noteq> []"
  shows "lookup_compute num limit operator right vs =
           Inr (rrd_value (hd vs),
                0 < num \<and> num \<le> int (length (filter (\<lambda>d. check_is_triggered (rrd_value d) operator right)
                                                     (take (nat limit) vs))),
                True)"
proof -
  have "go_nth vs 0 = Inr (hd vs)" using assms(3) by (cases vs) auto
  moreover obtain n t where
    "break_fold (lookup_step num operator right) (take (nat limit) vs) (0, False) = (n, t)"
    by fastforce
  moreover note break_fold_lookup_step [of num operator right "take (nat limit) vs" 0]
  ultimately show ?thesis
    using assms by (simp add: lookup_compute_def for_each_index_window)
qed

theorem lookup_compute_window_witness:
  "lookup_compute 2 5 ''>'' (Fin 0) [\<lparr>rrd_timestamp = 5, rrd_value = Fin 1\<rparr>, \<lparr>rrd_timestamp = 4, rrd_value = Fin (-1)\<rparr>,
     \<lparr>rrd_timestamp = 3, rrd_value = Fin 1\<rparr>, \<lparr>rrd_timestamp = 2, rrd_value = Fin (-1)\<rparr>,
     \<lparr>rrd_timestamp = 1, rrd_value = Fin 1\<rparr>] = Inr (Fin 1, True, True)"
  using lookup_compute_window [of 5 "[\<lparr>rrd_timestamp = 5, rrd_value = Fin 1\<rparr>, \<lparr>rrd_timestamp = 4, rrd_value = Fin (-1)\<rparr>,  \<lparr>rrd_timestamp = 3, rrd_value = Fin 1\<rparr>, \<lparr>rrd_timestamp = 2, rrd_value = Fin (-1)\<rparr>,  \<lparr>rrd_timestamp = 1, rrd_value = Fin 1\<rparr>]" 2 "''>''" "Fin 0"]
  by simp

text \<open>\<open>diff(#N)\<close> with more than \<open>N\<close> points: the first of \<open>vs[0]-vs[1] ..
  vs[0]-vs[N]\<close> that satisfies the comparison, else the last one computed.\<close>

text \<open>C19: diff(#N) on more than N points takes the first difference vs[0]-vs[i], i = 1..N, that satisfies the comparison and triggers; otherwise it reports the last difference, untriggered.\<close>

theorem diff_compute_window:
  assumes "0 \<le> limit" "limit < int (length vs)"
  defines "ds \<equiv> drop 1 (take (nat limit + 1) vs)"
  shows "diff_compute limit operator right vs =
           (case find (\<lambda>d. check_is_triggered (fsub (rrd_value (hd vs)) (rrd_value d)) operator right) ds of
              Some d \<Rightarrow> Inr (fsub (rrd_value (hd vs)) (rrd_value d), True, True)
            | None \<Rightarrow> if ds = [] then Inr (Fin 0, False, True)
                      else Inr (fsub (rrd_value (hd vs)) (rrd_value (last ds)), False, True))"
proof -
  have ne: "vs \<noteq> []" using assms by auto
  then have "go_nth vs 0 = Inr (hd vs)" by (cases vs) auto
  moreover have "nat (limit + 1) = nat limit + 1" using assms(1) by simp
  ultimately show ?thesis
    using assms ne
    by (simp add: diff_compute_def for_each_index_window break_fold_diff_step split: option.splits)
qed

theorem diff_compute_window_witness:
  "diff_compute 2 ''>'' (Fin 5) [\<lparr>rrd_timestamp = 3, rrd_value = Fin 110\<rparr>, \<lparr>rrd_timestamp = 2, rrd_value = Fin 100\<rparr>,
     \<lparr>rrd_timestamp = 1, rrd_value = Fin 105\<rparr>] = Inr (Fin 10, True, True)"
  using diff_compute_window [of 2 "[\<lparr>rrd_timestamp = 3, rrd_value = Fin 110\<rparr>, \<lparr>rrd_timestamp = 2, rrd_value = Fin 100\<rparr>,  \<lparr>rrd_timestamp = 1, rrd_value = Fin 105\<rparr>]" "''>''" "Fin 5"]
  by simp

text \<open>C20: diff(#N) accepts a history of exactly N points as enough data but then reads vs[N]: unless an earlier difference triggers, the computation panics with an index out of range.\<close>

theorem diff_compute_exact_window_panics:
  assumes "1 \<le> limit" "int (length vs) = limit"
    and "\<forall>d \<in> set (tl vs). \<not> check_is_triggered (fsub (rrd_value (hd vs)) (rrd_value d)) operator right"
  shows "diff_compute limit operator right vs = Inl PanicIndex"
proof -
  have ne: "vs \<noteq> []" using assms(1,2) by auto
  then have "go_nth vs 0 = Inr (hd vs)" by (cases vs) auto
  moreover have "drop (nat 1) vs = tl vs" by (simp add: drop_Suc)
  moreover have "for_each_index vs 1 (limit + 1) (diff_step operator right (rrd_value (hd vs))) (Fin 0, False)
      = Inl PanicIndex"
    using assms ne by (intro for_each_index_past_end) (auto simp: breaks_diff_step drop_Suc)
  ultimately show ?thesis using assms ne by (simp add: diff_compute_def)
qed

theorem diff_compute_exact_window_panics_witness:
  "diff_compute 2 ''>'' (Fin 5) [\<lparr>rrd_timestamp = 2, rrd_value = Fin 10\<rparr>, \<lparr>rrd_timestamp = 1, rrd_value = Fin 10\<rparr>] = Inl PanicIndex"
  using diff_compute_exact_window_panics [of 2 "[\<lparr>rrd_timestamp = 2, rrd_value = Fin 10\<rparr>, \<lparr>rrd_timestamp = 1, rrd_value = Fin 10\<rparr>]" "''>''" "Fin 5"]
  by simp

text \<open>C12: Enough-data monotonicity: when a function reports enough data on a history, appending older points to the history changes neither its left value nor its trigger decision, because every function reads only the first Limit (diff and pdiff: Limit+1) points.\<close>

theorem compute_enough_mono:
  "compute f vs = Inr (l, t, True) \<Longrightarrow> compute f (vs @ extra) = Inr (l, t, True)"
  by (cases f)
     (auto simp: compute_defs go_bind_eq_Inr nth_append hd_conv_nth Let_def split: if_splits prod.splits
           dest: go_nth_append_Inr for_each_index_append)

theorem compute_enough_mono_witness:
  "compute (AvgFunction 3 ''>'' (Fin 10)) [\<lparr>rrd_timestamp = 300, rrd_value = Fin 12\<rparr>, \<lparr>rrd_timestamp = 240, rrd_value = Fin 11\<rparr>,
     \<lparr>rrd_timestamp = 180, rrd_value = Fin 10\<rparr>] = Inr (Fin 11, True, True) \<and>
   compute (AvgFunction 3 ''>'' (Fin 10)) ([\<lparr>rrd_timestamp = 300, rrd_value = Fin 12\<rparr>, \<lparr>rrd_timestamp = 240, rrd_value = Fin 11\<rparr>,
     \<lparr>rrd_timestamp = 180, rrd_value = Fin 10\<rparr>] @ [\<lparr>rrd_timestamp = 120, rrd_value = Fin 0\<rparr>]) =
     Inr (Fin 11, True, True)"
proof -
  have h: "compute (AvgFunction 3 ''>'' (Fin 10)) [\<lparr>rrd_timestamp = 300, rrd_value = Fin 12\<rparr>, \<lparr>rrd_timestamp = 240, rrd_value = Fin 11\<rparr>,
     \<lparr>rrd_timestamp = 180, rrd_value = Fin 10\<rparr>] = Inr (Fin 11, True, True)"
    by (simp add: avg_compute_def for_each_index_def for_range_step)
  show ?thesis using compute_enough_mono [OF h] h by simp
qed

end
