(* ===== verification/GoStrings.thy ===== *)
theory GoStrings
  imports Prelude
begin

text \<open>
  The Go library string functions the judge calls, on byte strings (a \<open>string\<close> of
  ASCII characters): \<open>strings.Index\<close> for a one-character pattern, \<open>strings.Split\<close>
  with a one-character separator, \<open>strings.Contains\<close>, \<open>strconv.Atoi\<close> and its
  inverse \<open>strconv.Itoa\<close> (used here to print descriptors).  They are library code, not
  part of the repository, and follow Go's documented behaviour: \<open>Index\<close> is \<open>-1\<close> when
  the character is absent, \<open>Split\<close> of the empty string is \<open>[""]\<close>, \<open>Atoi\<close>
  accepts an optional sign and at least one decimal digit, and fails out of the
  \<open>int64\<close> range.
\<close>

fun str_index :: "char \<Rightarrow> string \<Rightarrow> int" where
  "str_index c [] = -1"
| "str_index c (x # xs) =
     (if x = c then 0 else (let i = str_index c xs in if i < 0 then -1 else i + 1))"

fun str_split :: "char \<Rightarrow> string \<Rightarrow> string list" where
  "str_split c [] = [[]]"
| "str_split c (x # xs) =
     (if x = c then [] # str_split c xs
      else (case str_split c xs of w # ws \<Rightarrow> (x # w) # ws | [] \<Rightarrow> [[x]]))"

fun str_contains :: "string \<Rightarrow> string \<Rightarrow> bool" where
  "str_contains [] p = (p = [])"
| "str_contains (x # xs) p = (take (length p) (x # xs) = p \<or> str_contains xs p)"

definition is_digit :: "char \<Rightarrow> bool" where
  "is_digit c = (48 \<le> (of_char c :: nat) \<and> (of_char c :: nat) \<le> 57)"

definition digits_val :: "string \<Rightarrow> int" where
  "digits_val ds = foldl (\<lambda>n c. 10 * n + (int (of_char c) - 48)) 0 ds"

text \<open>\<open>strconv.Atoi\<close>: the error carries the string that failed.\<close>

definition atoi :: "string \<Rightarrow> int go_result" where
  "atoi s =
     (let neg = (s \<noteq> [] \<and> hd s = CHR ''-'');
          ds = (if s \<noteq> [] \<and> (hd s = CHR ''-'' \<or> hd s = CHR ''+'') then tl s else s);
          v = (if neg then - digits_val ds else digits_val ds)
      in if ds \<noteq> [] \<and> list_all is_digit ds \<and> in_int64 v then Inr v else Inl (ErrAtoi s))"

fun nat_to_string :: "nat \<Rightarrow> string" where
  "nat_to_string n =
     (if n < 10 then [char_of (48 + n)] else nat_to_string (n div 10) @ [char_of (48 + n mod 10)])"

text \<open>\<open>strconv.Itoa\<close>.\<close>

definition int_to_string :: "int \<Rightarrow> string" where
  "int_to_string i = (if i < 0 then CHR ''-'' # nat_to_string (nat (- i)) else nat_to_string (nat i))"

text \<open>\<open>strings.Join(ws, sep)\<close> for a one-character separator.\<close>

fun str_join :: "char \<Rightarrow> string list \<Rightarrow> string" where
  "str_join c [] = []"
| "str_join c [w] = w"
| "str_join c (w # ws) = w @ c # str_join c ws"

declare nat_to_string.simps [simp del]

section \<open>Lemmas\<close>

lemma digit_chars [simp]:
  "char_of (48::nat) = CHR ''0''" "char_of (49::nat) = CHR ''1''" "char_of (50::nat) = CHR ''2''"
  "char_of (51::nat) = CHR ''3''" "char_of (52::nat) = CHR ''4''" "char_of (53::nat) = CHR ''5''"
  "char_of (54::nat) = CHR ''6''" "char_of (55::nat) = CHR ''7''" "char_of (56::nat) = CHR ''8''"
  "char_of (57::nat) = CHR ''9''"
  by code_simp+

lemma str_split_nonempty [simp]: "str_split c s \<noteq> []"
  by (induction s) (auto split: list.splits)

lemma str_split_no_sep: "c \<notin> set w \<Longrightarrow> str_split c w = [w]"
  by (induction w) auto

lemma str_split_prefix: "c \<notin> set w \<Longrightarrow> str_split c (w @ c # r) = w # str_split c r"
  by (induction w) auto

lemma str_split_join:
  "ws \<noteq> [] \<Longrightarrow> \<forall>w \<in> set ws. c \<notin> set w \<Longrightarrow> str_split c (str_join c ws) = ws"
  by (induction c ws rule: str_join.induct) (auto simp: str_split_no_sep str_split_prefix)

lemma str_join_set: "x \<in> set (str_join c ws) \<Longrightarrow> x = c \<or> (\<exists>w \<in> set ws. x \<in> set w)"
  by (induction c ws rule: str_join.induct) auto

lemma str_index_absent: "c \<notin> set w \<Longrightarrow> str_index c (w @ c # r) = int (length w)"
  by (induction w) auto

lemma str_index_not_found: "c \<notin> set w \<Longrightarrow> str_index c w = -1"
  by (induction w) auto

lemma digits_val_snoc: "digits_val (ds @ [d]) = 10 * digits_val ds + (int (of_char d) - 48)"
  by (simp add: digits_val_def)

lemma of_char_digit: "k < 10 \<Longrightarrow> of_char (char_of (48 + k) :: char) = (48 + k :: nat)"
  by (simp add: of_char_of)

lemma is_digit_char_of: "k < 10 \<Longrightarrow> is_digit (char_of (48 + k :: nat))"
  by (simp add: is_digit_def of_char_digit)

lemma nat_to_string_digits:
  "nat_to_string n \<noteq> [] \<and> list_all is_digit (nat_to_string n) \<and> digits_val (nat_to_string n) = int n"
proof (induction n rule: nat_to_string.induct)
  case (1 n)
  show ?case
  proof (cases "n < 10")
    case True
    then have "nat_to_string n = [char_of (48 + n)]" by (simp add: nat_to_string.simps)
    with True show ?thesis by (simp add: is_digit_def digits_val_def of_char_digit)
  next
    case False
    then have IH: "nat_to_string (n div 10) \<noteq> [] \<and> list_all is_digit (nat_to_string (n div 10)) \<and>
        digits_val (nat_to_string (n div 10)) = int (n div 10)"
      using "1.IH" by simp
    have "int n = 10 * int (n div 10) + int (n mod 10)"
      by (simp add: zdiv_int zmod_int)
    moreover have "nat_to_string n = nat_to_string (n div 10) @ [char_of (48 + n mod 10)]"
      using False by (simp add: nat_to_string.simps)
    ultimately show ?thesis using IH by (simp add: digits_val_snoc is_digit_char_of of_char_digit)
  qed
qed

lemma is_digit_not_sign: "is_digit c \<Longrightarrow> c \<noteq> CHR ''-'' \<and> c \<noteq> CHR ''+'' \<and> c \<noteq> CHR '','' \<and> c \<noteq> CHR ''#'' \<and>
    c \<noteq> CHR '')''"
  by (auto simp: is_digit_def)

lemma nat_to_string_hd: "is_digit (hd (nat_to_string n))"
  using nat_to_string_digits [of n] by (cases "nat_to_string n") auto

text \<open>Round trip of the decimal printing: \<open>Atoi(Itoa(i)) = i\<close> on \<open>int64\<close>.\<close>

lemma atoi_int_to_string: "in_int64 i \<Longrightarrow> atoi (int_to_string i) = Inr i"
proof (cases "i < 0")
  case True
  assume r: "in_int64 i"
  have d: "nat_to_string (nat (- i)) \<noteq> []" "list_all is_digit (nat_to_string (nat (- i)))"
    "digits_val (nat_to_string (nat (- i))) = - i"
    using nat_to_string_digits [of "nat (- i)"] True by auto
  with True r show ?thesis by (simp add: atoi_def int_to_string_def)
next
  case False
  assume r: "in_int64 i"
  have d: "nat_to_string (nat i) \<noteq> []" "list_all is_digit (nat_to_string (nat i))"
    "digits_val (nat_to_string (nat i)) = i"
    using nat_to_string_digits [of "nat i"] False by auto
  have "hd (nat_to_string (nat i)) \<noteq> CHR ''-'' \<and> hd (nat_to_string (nat i)) \<noteq> CHR ''+''"
    using nat_to_string_hd is_digit_not_sign by blast
  with d False r show ?thesis by (simp add: atoi_def int_to_string_def)
qed

lemma int_to_string_chars: "c \<in> set (int_to_string i) \<Longrightarrow> is_digit c \<or> c = CHR ''-''"
  using nat_to_string_digits by (auto simp: int_to_string_def list_all_iff split: if_splits)

lemma int_to_string_no_sep: "CHR '','' \<notin> set (int_to_string i) \<and> CHR ''#'' \<notin> set (int_to_string i) \<and>
    CHR '')'' \<notin> set (int_to_string i)"
  using int_to_string_chars [of _ i] is_digit_not_sign by fastforce

lemma int_list_no_hash: "CHR ''#'' \<notin> set (str_join CHR '','' (map int_to_string ns))"
  using int_to_string_no_sep by (fastforce dest: str_join_set)

text \<open>A string holding a character that is neither a sign nor a digit is not a number.\<close>

lemma atoi_non_digit:
  "c \<in> set s \<Longrightarrow> \<not> is_digit c \<Longrightarrow> c \<noteq> CHR ''-'' \<Longrightarrow> c \<noteq> CHR ''+'' \<Longrightarrow> atoi s = Inl (ErrAtoi s)"
  by (cases s) (auto simp: atoi_def list_all_iff Let_def)

end
