(* ===== verification/FuncParse.thy ===== *)
theory FuncParse
  imports Functions GoStrings
begin

text \<open>
  The descriptor parser of \<open>modules/judge/judge/func2.go\<close>: \<open>Atois\<close> splits the
  argument list at commas and converts every piece with \<open>strconv.Atoi\<close>;
  \<open>ParseFuncFromString\<close> takes the text between the first \<open>#\<close> and the last
  character as the argument list, and the text before the character preceding that
  \<open>#\<close> as the function name, and builds the \<open>func\<close> value of \<open>Functions\<close>.
  The printer \<open>descriptor\<close> writes the syntax the parser accepts
  (\<open>name(#a,b)\<close>); it is the inverse the round-trip lemma is about.
\<close>

fun atoi_all :: "string list \<Rightarrow> int list go_result" where
  "atoi_all [] = Inr []"
| "atoi_all (v # vs) = go_bind (atoi v) (\<lambda>n. go_map (\<lambda>ns. n # ns) (atoi_all vs))"

definition atois :: "string \<Rightarrow> int list go_result" where
  "atois s = atoi_all (str_split CHR '','' s)"

text \<open>The \<open>switch str[:idx-1]\<close> of \<open>ParseFuncFromString\<close>; \<open>args\<close> is indexed
  with Go's bounds check.\<close>

definition func_of_name :: "string \<Rightarrow> int list \<Rightarrow> string \<Rightarrow> f64 \<Rightarrow> func go_result" where
  "func_of_name name args operator right =
     (if name = ''max'' then go_map (\<lambda>l. MaxFunction l operator right) (go_nth args 0)
      else if name = ''min'' then go_map (\<lambda>l. MinFunction l operator right) (go_nth args 0)
      else if name = ''all'' then go_map (\<lambda>l. AllFunction l operator right) (go_nth args 0)
      else if name = ''sum'' then go_map (\<lambda>l. SumFunction l operator right) (go_nth args 0)
      else if name = ''avg'' then go_map (\<lambda>l. AvgFunction l operator right) (go_nth args 0)
      else if name = ''diff'' then go_map (\<lambda>l. DiffFunction l operator right) (go_nth args 0)
      else if name = ''pdiff'' then go_map (\<lambda>l. PDiffFunction l operator right) (go_nth args 0)
      else if name = ''lookup'' then
        go_bind (go_nth args 0) (\<lambda>n. go_map (\<lambda>l. LookupFunction n l operator right) (go_nth args 1))
      else if name = ''c_avg_rate_abs'' then Inr (CAvgRateAbs operator right)
      else Inl (ErrMsg ''not_supported_method''))"

definition parse_func_from_string :: "string \<Rightarrow> string \<Rightarrow> f64 \<Rightarrow> func go_result" where
  "parse_func_from_string str operator right =
     (if str = [] then Inl (ErrMsg ''func can not be null!'')
      else (let idx = str_index CHR ''#'' str in
        go_bind (go_slice str (idx + 1) (int (length str) - 1)) (\<lambda>a.
        go_bind (atois a) (\<lambda>args.
        go_bind (go_slice str 0 (idx - 1)) (\<lambda>name.
        func_of_name name args operator right)))))"

subsection \<open>The printed form\<close>

fun func_name :: "func \<Rightarrow> string" where
  "func_name (MaxFunction _ _ _) = ''max''"
| "func_name (MinFunction _ _ _) = ''min''"
| "func_name (AllFunction _ _ _) = ''all''"
| "func_name (LookupFunction _ _ _ _) = ''lookup''"
| "func_name (SumFunction _ _ _) = ''sum''"
| "func_name (AvgFunction _ _ _) = ''avg''"
| "func_name (DiffFunction _ _ _) = ''diff''"
| "func_name (PDiffFunction _ _ _) = ''pdiff''"
| "func_name (CAvgRateAbs _ _) = ''c_avg_rate_abs''"

fun func_args :: "func \<Rightarrow> int list" where
  "func_args (MaxFunction l _ _) = [l]"
| "func_args (MinFunction l _ _) = [l]"
| "func_args (AllFunction l _ _) = [l]"
| "func_args (LookupFunction n l _ _) = [n, l]"
| "func_args (SumFunction l _ _) = [l]"
| "func_args (AvgFunction l _ _) = [l]"
| "func_args (DiffFunction l _ _) = [l]"
| "func_args (PDiffFunction l _ _) = [l]"
| "func_args (CAvgRateAbs _ _) = []"

fun func_operator :: "func \<Rightarrow> string" where
  "func_operator (MaxFunction _ op _) = op"
| "func_operator (MinFunction _ op _) = op"
| "func_operator (AllFunction _ op _) = op"
| "func_operator (LookupFunction _ _ op _) = op"
| "func_operator (SumFunction _ op _) = op"
| "func_operator (AvgFunction _ op _) = op"
| "func_operator (DiffFunction _ op _) = op"
| "func_operator (PDiffFunction _ op _) = op"
| "func_operator (CAvgRateAbs op _) = op"

fun func_right :: "func \<Rightarrow> f64" where
  "func_right (MaxFunction _ _ r) = r"
| "func_right (MinFunction _ _ r) = r"
| "func_right (AllFunction _ _ r) = r"
| "func_right (LookupFunction _ _ _ r) = r"
| "func_right (SumFunction _ _ r) = r"
| "func_right (AvgFunction _ _ r) = r"
| "func_right (DiffFunction _ _ r) = r"
| "func_right (PDiffFunction _ _ r) = r"
| "func_right (CAvgRateAbs _ r) = r"

definition descriptor :: "string \<Rightarrow> int list \<Rightarrow> string" where
  "descriptor name args = name @ ''(#'' @ str_join CHR '','' (map int_to_string args) @ '')''"

section \<open>Lemmas\<close>

lemma atoi_all_Inl: "(\<exists>e. atoi_all vs = Inl e) \<longleftrightarrow> (\<exists>v \<in> set vs. \<exists>e. atoi v = Inl e)"
  by (induction vs) (auto simp: go_bind_def go_map_def split: sum.splits)

lemma atoi_all_int_to_string: "list_all in_int64 ns \<Longrightarrow> atoi_all (map int_to_string ns) = Inr ns"
  by (induction ns) (simp_all add: atoi_int_to_string)

lemma atois_join:
  "ns \<noteq> [] \<Longrightarrow> list_all in_int64 ns \<Longrightarrow> atois (str_join CHR '','' (map int_to_string ns)) = Inr ns"
  using int_to_string_no_sep
  by (simp add: atois_def str_split_join atoi_all_int_to_string)

text \<open>Shape of a descriptor: the name, one opening character, \<open>#\<close>, the arguments and
  one closing character.\<close>

lemma parse_shape:
  assumes "CHR ''#'' \<notin> set name" and "c \<noteq> CHR ''#''"
  shows "parse_func_from_string (name @ c # CHR ''#'' # a @ [d]) operator right =
           go_bind (atois a) (\<lambda>args. func_of_name name args operator right)"
proof -
  let ?s = "name @ c # CHR ''#'' # a @ [d]"
  have idx: "str_index CHR ''#'' ?s = int (length name) + 1"
    using str_index_absent [of "CHR ''#''" "name @ [c]" "a @ [d]"] assms by simp
  have args: "go_slice ?s (2 + int (length name)) (2 + (int (length name) + int (length a))) = Inr a"
    by (simp add: go_slice_def nat_add_distrib)
  have nm: "go_slice ?s 0 (int (length name)) = Inr name"
    by (simp add: go_slice_def)
  show ?thesis
    by (simp add: parse_func_from_string_def idx args nm go_bind_simps)
qed

lemma parse_descriptor:
  "CHR ''#'' \<notin> set name \<Longrightarrow> ns \<noteq> [] \<Longrightarrow> list_all in_int64 ns \<Longrightarrow>
   parse_func_from_string (descriptor name ns) operator right = func_of_name name ns operator right"
  using parse_shape [of name "CHR ''(''" "str_join CHR '','' (map int_to_string ns)" "CHR '')''"]
  by (simp add: descriptor_def atois_join)

lemma atois_single: "CHR '','' \<notin> set a \<Longrightarrow> atois a = go_map (\<lambda>n. [n]) (atoi a)"
  by (simp add: atois_def str_split_no_sep go_bind_def go_map_def split: sum.splits)

lemma func_of_name_known:
  "func_args f \<noteq> [] \<Longrightarrow>
   func_of_name (func_name f) (func_args f) (func_operator f) (func_right f) = Inr f"
  by (cases f) (simp_all add: func_of_name_def)

text \<open>C21: Round trip of the descriptor syntax: every function with its Limit (and, for
  lookup, its Num) in the int64 range, printed as \<open>name(#a,b)\<close>, is parsed back to
  itself with its operator and threshold.\<close>

theorem parse_func_roundtrip:
  assumes "func_args f \<noteq> []" and "list_all in_int64 (func_args f)"
  shows "parse_func_from_string (descriptor (func_name f) (func_args f)) (func_operator f) (func_right f) =
           Inr f"
proof -
  have "CHR ''#'' \<notin> set (func_name f)" by (cases f) simp_all
  with assms show ?thesis by (simp add: parse_descriptor func_of_name_known)
qed

theorem parse_func_roundtrip_witness:
  "parse_func_from_string ''lookup(#2,5)'' ''>='' (Fin 90) = Inr (LookupFunction 2 5 ''>='' (Fin 90))"
proof -
  have "descriptor ''lookup'' [2, 5] = ''lookup(#2,5)''"
    by (simp add: descriptor_def int_to_string_def nat_to_string.simps)
  then show ?thesis
    using parse_func_roundtrip [of "LookupFunction 2 5 ''>='' (Fin 90)"]
    by (simp add: in_int64_def int64_min_def int64_max_def)
qed

text \<open>C22: The specification's \<open>#\<close>-separated argument syntax (\<open>lookup(#2#5)\<close>,
  \<open>c_avg_rate_abs(#3#1)\<close>) is rejected: the argument text after the first \<open>#\<close>
  contains a second \<open>#\<close>, so strconv.Atoi fails on it, whatever the function name.\<close>

theorem parse_hash_separated_rejected:
  assumes "CHR ''#'' \<notin> set name"
  shows "parse_func_from_string (name @ ''(#'' @ int_to_string m @ ''#'' @ int_to_string n @ '')'') operator right =
           Inl (ErrAtoi (int_to_string m @ ''#'' @ int_to_string n))"
proof -
  let ?a = "int_to_string m @ ''#'' @ int_to_string n"
  have "CHR '','' \<notin> set ?a" using int_to_string_no_sep by simp
  moreover have "atoi ?a = Inl (ErrAtoi ?a)"
    by (rule atoi_non_digit [of "CHR ''#''"]) (auto dest: is_digit_not_sign)
  ultimately have "atois ?a = Inl (ErrAtoi ?a)" by (simp add: atois_single)
  then show ?thesis
    using parse_shape [of name "CHR ''(''" ?a "CHR '')''"] assms by simp
qed

theorem parse_hash_separated_rejected_witness:
  "parse_func_from_string ''lookup(#2#5)'' ''>'' (Fin 1) = Inl (ErrAtoi ''2#5'')"
proof -
  have "int_to_string 2 = ''2''" "int_to_string 5 = ''5''"
    by (simp_all add: int_to_string_def nat_to_string.simps)
  then show ?thesis using parse_hash_separated_rejected [of "''lookup''" 2 5 "''>''" "Fin 1"] by simp
qed

text \<open>C23: A lookup descriptor with a single argument passes Atois and then panics on
  \<open>args[1]\<close> (index out of range) instead of returning an error.\<close>

theorem parse_lookup_one_arg_panics:
  assumes "in_int64 n"
  shows "parse_func_from_string (descriptor ''lookup'' [n]) operator right = Inl PanicIndex"
  using assms by (simp add: parse_descriptor func_of_name_def go_nth_def)

theorem parse_lookup_one_arg_panics_witness:
  "parse_func_from_string ''lookup(#5)'' ''>'' (Fin 1) = Inl PanicIndex"
proof -
  have "descriptor ''lookup'' [5] = ''lookup(#5)''"
    by (simp add: descriptor_def int_to_string_def nat_to_string.simps)
  then show ?thesis
    using parse_lookup_one_arg_panics [of 5 "''>''" "Fin 1"]
    by (simp add: in_int64_def int64_min_def int64_max_def)
qed

text \<open>C24: A non-empty descriptor without \<open>#\<close> never yields a function: Index gives
  -1, the text before the last character is parsed as the argument list, and if that
  succeeds the slice \<open>str[:-2]\<close> panics.\<close>

theorem parse_no_hash:
  assumes "CHR ''#'' \<notin> set str" and "str \<noteq> []"
  shows "parse_func_from_string str operator right = go_bind (atois (butlast str)) (\<lambda>_. Inl PanicSlice)"
proof -
  have "go_slice str 0 (int (length str) - 1) = Inr (butlast str)"
    using assms(2) by (simp add: go_slice_def butlast_conv_take nat_diff_distrib')
  moreover have "go_slice str 0 (-2) = Inl PanicSlice" by (simp add: go_slice_def)
  ultimately show ?thesis
    using assms by (simp add: parse_func_from_string_def str_index_not_found go_bind_def split: sum.splits)
qed

theorem parse_no_hash_witness:
  "parse_func_from_string ''60)'' ''>'' (Fin 1) = Inl PanicSlice"
proof -
  have "atois ''60'' = Inr [60]" by code_simp
  then show ?thesis using parse_no_hash [of "''60)''" "''>''" "Fin 1"] by simp
qed

text \<open>C25: The parenthesis before \<open>#\<close> is required: for \<open>avg#N)\<close> the name is taken as
  the text up to the character before \<open>#\<close>, \<open>av\<close>, which is not a supported
  function.\<close>

theorem parse_avg_without_paren:
  assumes "in_int64 n"
  shows "parse_func_from_string (''avg#'' @ int_to_string n @ '')'') operator right =
           Inl (ErrMsg ''not_supported_method'')"
proof -
  have "atois (int_to_string n) = Inr [n]"
    using atois_join [of "[n]"] assms by simp
  then show ?thesis
    using parse_shape [of "''av''" "CHR ''g''" "int_to_string n" "CHR '')''"]
    by (simp add: func_of_name_def)
qed

theorem parse_avg_without_paren_witness:
  "parse_func_from_string ''avg#3)'' ''<'' (Fin 5) = Inl (ErrMsg ''not_supported_method'')"
proof -
  have "int_to_string 3 = ''3''" by (simp add: int_to_string_def nat_to_string.simps)
  then show ?thesis
    using parse_avg_without_paren [of 3 "''<''" "Fin 5"]
    by (simp add: in_int64_def int64_min_def int64_max_def)
qed

text \<open>c_avg_rate_abs validates its arguments as integers but keeps none of them:
  every well-formed argument list parses to the same function value.\<close>

theorem parse_c_avg_rate_abs:
  assumes "ns \<noteq> []" and "list_all in_int64 ns"
  shows "parse_func_from_string (descriptor ''c_avg_rate_abs'' ns) operator right = Inr (CAvgRateAbs operator right)"
  using assms by (simp add: parse_descriptor func_of_name_def)

theorem parse_c_avg_rate_abs_witness:
  "parse_func_from_string ''c_avg_rate_abs(#3,1)'' ''>'' (Fin 20) = Inr (CAvgRateAbs ''>'' (Fin 20))"
proof -
  have "descriptor ''c_avg_rate_abs'' [3, 1] = ''c_avg_rate_abs(#3,1)''"
    by (simp add: descriptor_def int_to_string_def nat_to_string.simps)
  then show ?thesis
    using parse_c_avg_rate_abs [of "[3, 1]" "''>''" "Fin 20"]
    by (simp add: in_int64_def int64_min_def int64_max_def)
qed

end
