(* ===== verification/Alarm.thy ===== *)
theory Alarm
  imports Model
begin

text \<open>
  The alert state machine of \<open>modules/judge/cron/judge.go\<close>: \<open>sendEventIfNeed\<close>
  decides from a function's outcome and the last event of the same identity whether to
  emit, and \<open>sendEvent\<close> emits: it overwrites the last-event store and left-pushes the
  JSON encoding of the event onto the Redis list of its priority.  The state is the
  store \<open>g.LastEvents\<close> (a map from event id to event; the store's code is not under
  \<open>src/\<close> and follows the specification: atomic \<open>Get\<close> and \<open>Set\<close>) and the queues,
  keyed by priority (the key \<open>Sprintf(QueuePattern, priority)\<close> of a pattern with one
  \<open>%d\<close> is a function of the priority).  \<open>Status[0]\<close> is the bounds-checked read of
  the status string; \<open>now - EventTime\<close> and \<open>CurrentStep + 1\<close> wrap at 64 bits.
\<close>

record alarm_state =
  last_events :: "string \<Rightarrow> event option"
  queues :: "int \<Rightarrow> event list"

definition alarm_init :: alarm_state where
  "alarm_init = \<lparr>last_events = Map.empty, queues = (\<lambda>_. [])\<rparr>"

text \<open>The last-event store \<open>g.LastEvents\<close>: \<open>Get(id)\<close> and \<open>Set(id, event)\<close>.\<close>

definition last_events_get :: "alarm_state \<Rightarrow> string \<Rightarrow> event option" where
  "last_events_get st i = last_events st i"

definition last_events_set :: "string \<Rightarrow> event \<Rightarrow> alarm_state \<Rightarrow> alarm_state" where
  "last_events_set i e st = st\<lparr>last_events := (last_events st)(i \<mapsto> e)\<rparr>"

text \<open>\<open>json.Marshal(event)\<close> fails exactly on a float field that is NaN or infinite:
  the event's \<open>LeftValue\<close> and its strategy's \<open>RightValue\<close>.\<close>

definition json_marshal_ok :: "event \<Rightarrow> bool" where
  "json_marshal_ok e = (is_finite (ev_left_value e) \<and> is_finite (s_right_value (ev_strategy e)))"

text \<open>\<open>sendEvent\<close>: the store is updated first; an event that cannot be encoded is
  dropped after that; otherwise it is pushed on the left of its priority's list.\<close>

definition send_event :: "event \<Rightarrow> alarm_state \<Rightarrow> alarm_state" where
  "send_event e st =
     (let st' = last_events_set (ev_id e) e st in
      if json_marshal_ok e
      then st'\<lparr>queues := (queues st')(ev_priority e := e # queues st' (ev_priority e))\<rparr>
      else st')"

text \<open>\<open>sendEventIfNeed(historyData, isTriggered, now, event, maxStep)\<close> with the
  configured \<open>Alarm.MinInterval\<close> as first argument.  A triggered evaluation is a fresh
  incident when there is no last event or the last one is \<open>OK\<close>; a recovery is sent
  when the evaluation is not triggered and the last event is \<open>PROBLEM\<close>.\<close>

definition send_event_if_need ::
  "int \<Rightarrow> rrd_data list \<Rightarrow> bool \<Rightarrow> int \<Rightarrow> event \<Rightarrow> int \<Rightarrow> alarm_state \<Rightarrow> alarm_state go_result" where
  "send_event_if_need min_interval history triggered now e max_step st =
     (let prev = last_events_get st (ev_id e) in
      if triggered then
        (let e1 = e\<lparr>ev_status := ''PROBLEM''\<rparr>;
             fresh = (if max_step = 0 then Inr st
                      else Inr (send_event (e1\<lparr>ev_current_step := 1\<rparr>) st))
         in case prev of
              None \<Rightarrow> fresh
            | Some l \<Rightarrow>
                go_bind (go_nth (ev_status l) 0) (\<lambda>c.
                if c = CHR ''O'' then fresh
                else if max_step \<le> ev_current_step l then Inr st
                else
                  go_bind (go_nth history (int (length history) - 1)) (\<lambda>oldest.
                  if rrd_timestamp oldest \<le> ev_event_time l then Inr st
                  else if wrap64 (now - ev_event_time l) < min_interval then Inr st
                  else Inr (send_event (e1\<lparr>ev_current_step := wrap64 (ev_current_step l + 1)\<rparr>) st))))
      else
        (case prev of
           None \<Rightarrow> Inr st
         | Some l \<Rightarrow>
             go_bind (go_nth (ev_status l) 0) (\<lambda>c.
             if c = CHR ''P''
             then Inr (send_event (e\<lparr>ev_status := ''OK'', ev_current_step := 1\<rparr>) st)
             else Inr st)))"

subsection \<open>The decision, separated from the effect\<close>

text \<open>
  An abstract reading of \<open>sendEventIfNeed\<close>: which event, if any, is emitted.  It is
  the specification of section 4.D written over well-formed statuses; the refinement
  lemma below shows the code is this decision followed by \<open>sendEvent\<close>.
\<close>

datatype verdict = Emit event | Muted | Quota | Stale | TooSoon | NoChange

definition alarm_decide ::
  "int \<Rightarrow> rrd_data list \<Rightarrow> bool \<Rightarrow> int \<Rightarrow> event \<Rightarrow> int \<Rightarrow> event option \<Rightarrow> verdict go_result" where
  "alarm_decide min_interval history triggered now e max_step prev =
     (if triggered then
        (let fresh = (if max_step = 0 then Muted
                      else Emit (e\<lparr>ev_status := ''PROBLEM'', ev_current_step := 1\<rparr>))
         in case prev of
              None \<Rightarrow> Inr fresh
            | Some l \<Rightarrow>
                go_bind (go_nth (ev_status l) 0) (\<lambda>c.
                if c = CHR ''O'' then Inr fresh
                else if max_step \<le> ev_current_step l then Inr Quota
                else
                  go_bind (go_nth history (int (length history) - 1)) (\<lambda>oldest.
                  if rrd_timestamp oldest \<le> ev_event_time l then Inr Stale
                  else if wrap64 (now - ev_event_time l) < min_interval then Inr TooSoon
                  else Inr (Emit (e\<lparr>ev_status := ''PROBLEM'',
                                     ev_current_step := wrap64 (ev_current_step l + 1)\<rparr>)))))
      else
        (case prev of
           None \<Rightarrow> Inr NoChange
         | Some l \<Rightarrow>
             go_bind (go_nth (ev_status l) 0) (\<lambda>c.
             if c = CHR ''P'' then Inr (Emit (e\<lparr>ev_status := ''OK'', ev_current_step := 1\<rparr>))
             else Inr NoChange)))"

definition apply_verdict :: "verdict \<Rightarrow> alarm_state \<Rightarrow> alarm_state" where
  "apply_verdict v st = (case v of Emit e \<Rightarrow> send_event e st | _ \<Rightarrow> st)"

subsection \<open>Runs of the state machine\<close>

text \<open>
  A run is a sequence of calls of \<open>sendEventIfNeed\<close> as the worker makes them: the
  candidate event's \<open>EventTime\<close> is the \<open>now\<close> of the call, \<open>now\<close> is a Unix time
  (a non-negative \<open>int64\<close>), and the \<open>MaxStep\<close> passed for an identity is that of its
  strategy, fixed per identity by \<open>ms\<close> (strategies are not edited during the run).
  \<open>alarm_run mi ms st sent\<close> holds of the state reached and the emitted events, newest
  first.
\<close>

definition valid_call :: "(string \<Rightarrow> int) \<Rightarrow> int \<Rightarrow> event \<Rightarrow> int \<Rightarrow> bool" where
  "valid_call ms now e max_step =
     (ev_event_time e = now \<and> 0 \<le> now \<and> now \<le> int64_max \<and>
      max_step = ms (ev_id e) \<and> in_int64 max_step)"

text \<open>An emission is visible in the store: \<open>sendEvent\<close> always changes the entry of the
  identity (the lemma \<open>alarm_call\<close> below), so the event sent by a call is the new entry
  when the entry changed, and there is none when it did not.\<close>

definition sent_by_call :: "alarm_state \<Rightarrow> alarm_state \<Rightarrow> string \<Rightarrow> event list" where
  "sent_by_call st st' i =
     (if last_events st' i = last_events st i then [] else [the (last_events st' i)])"

inductive alarm_run :: "int \<Rightarrow> (string \<Rightarrow> int) \<Rightarrow> alarm_state \<Rightarrow> event list \<Rightarrow> bool"
  for mi :: int and ms :: "string \<Rightarrow> int" where
  start: "alarm_run mi ms alarm_init []"
| call: "alarm_run mi ms st sent \<Longrightarrow> valid_call ms now e max_step \<Longrightarrow>
     send_event_if_need mi history triggered now e max_step st = Inr st' \<Longrightarrow>
     alarm_run mi ms st' (sent_by_call st st' (ev_id e) @ sent)"

subsection \<open>Invariant of the runs\<close>

text \<open>A stored or emitted event is well formed: a \<open>PROBLEM\<close> with a step between 1 and
  \<open>MaxStep\<close> (1 when \<open>MaxStep\<close> is negative), or an \<open>OK\<close> with step 1; its time is a
  Unix time.  \<open>follows mi e1 e2\<close>: the emission \<open>e2\<close> may come next after \<open>e1\<close>
  for the same identity.\<close>

definition wf_event :: "(string \<Rightarrow> int) \<Rightarrow> event \<Rightarrow> bool" where
  "wf_event ms e =
     (((ev_status e = ''PROBLEM'' \<and> 1 \<le> ev_current_step e \<and> ev_current_step e \<le> max 1 (ms (ev_id e)))
       \<or> (ev_status e = ''OK'' \<and> ev_current_step e = 1))
      \<and> 0 \<le> ev_event_time e \<and> ev_event_time e \<le> int64_max)"

definition alarm_inv :: "(string \<Rightarrow> int) \<Rightarrow> alarm_state \<Rightarrow> event list \<Rightarrow> bool" where
  "alarm_inv ms st sent =
     ((\<forall>i. last_events st i = find (\<lambda>e. ev_id e = i) sent) \<and> (\<forall>e \<in> set sent. wf_event ms e))"

definition follows :: "int \<Rightarrow> event \<Rightarrow> event \<Rightarrow> bool" where
  "follows mi e1 e2 =
     ((ev_status e1 = ''PROBLEM'' \<and> ev_status e2 = ''PROBLEM'' \<and>
       ev_current_step e2 = ev_current_step e1 + 1 \<and> mi \<le> ev_event_time e2 - ev_event_time e1)
      \<or> (ev_status e1 = ''OK'' \<and> ev_status e2 = ''PROBLEM'' \<and> ev_current_step e2 = 1)
      \<or> (ev_status e1 = ''PROBLEM'' \<and> ev_status e2 = ''OK'' \<and> ev_current_step e2 = 1))"

subsection \<open>Scenario data\<close>

text \<open>The concrete strategy, events and histories of the specification's scenarios
  (section 8: \<open>avg(#3) > 10\<close>, \<open>MinInterval = 300\<close>, \<open>MaxStep = 3\<close>).\<close>

definition scenario_strategy :: strategy where
  "scenario_strategy = \<lparr>s_id = 1, s_metric = ''cpu.idle'', s_tags = [], s_func = ''avg(#3)'',
     s_operator = ''>'', s_right_value = Fin 10, s_max_step = 3, s_priority = 0\<rparr>"

definition scenario_event :: "int \<Rightarrow> real \<Rightarrow> event" where
  "scenario_event t v = \<lparr>ev_id = ''s_1_host'', ev_strategy = scenario_strategy, ev_endpoint = ''host'',
     ev_left_value = Fin v, ev_event_time = t, ev_status = [], ev_current_step = 0, ev_pushed_tags = []\<rparr>"

definition scenario_history :: "int \<Rightarrow> rrd_data list" where
  "scenario_history t = [\<lparr>rrd_timestamp = t, rrd_value = Fin 13\<rparr>,
     \<lparr>rrd_timestamp = t - 60, rrd_value = Fin 12\<rparr>, \<lparr>rrd_timestamp = t - 120, rrd_value = Fin 11\<rparr>]"

section \<open>Lemmas\<close>

lemma last_events_send_event [simp]:
  "last_events (send_event e st) = (last_events st)(ev_id e \<mapsto> e)"
  by (simp add: send_event_def last_events_set_def Let_def)

text \<open>Refinement: the code is the decision of section 4.D followed by \<open>sendEvent\<close> of the
  emitted event; a panic of the code is a panic of the decision.\<close>

lemma send_event_if_need_refines:
  "send_event_if_need mi history triggered now e max_step st =
     go_map (\<lambda>v. apply_verdict v st)
       (alarm_decide mi history triggered now e max_step (last_events st (ev_id e)))"
proof (cases "last_events st (ev_id e)")
  case None
  then show ?thesis
    by (simp add: send_event_if_need_def alarm_decide_def last_events_get_def apply_verdict_def Let_def)
next
  case (Some l)
  then show ?thesis
    unfolding send_event_if_need_def alarm_decide_def last_events_get_def
    by (cases "go_nth (ev_status l) 0"; cases "go_nth history (int (length history) - 1)")
       (simp_all add: apply_verdict_def Let_def)
qed

lemma alarm_decide_Emit:
  assumes "alarm_decide mi history triggered now e max_step prev = Inr (Emit e')"
  shows "ev_id e' = ev_id e \<and> ev_event_time e' = ev_event_time e \<and> ev_strategy e' = ev_strategy e \<and>
    ((triggered \<and> max_step \<noteq> 0 \<and>
      (prev = None \<or> (\<exists>l. prev = Some l \<and> ev_status l \<noteq> [] \<and> hd (ev_status l) = CHR ''O'')) \<and>
      ev_status e' = ''PROBLEM'' \<and> ev_current_step e' = 1)
   \<or> (triggered \<and> (\<exists>l. prev = Some l \<and> ev_status l \<noteq> [] \<and> hd (ev_status l) \<noteq> CHR ''O'' \<and>
        ev_current_step l < max_step \<and> history \<noteq> [] \<and>
        ev_event_time l < rrd_timestamp (last history) \<and> mi \<le> wrap64 (now - ev_event_time l) \<and>
        ev_status e' = ''PROBLEM'' \<and> ev_current_step e' = wrap64 (ev_current_step l + 1)))
   \<or> (\<not> triggered \<and> (\<exists>l. prev = Some l \<and> ev_status l \<noteq> [] \<and> hd (ev_status l) = CHR ''P'' \<and>
        ev_status e' = ''OK'' \<and> ev_current_step e' = 1)))"
  using assms
  by (cases "history = []")
     (auto simp: alarm_decide_def Let_def go_bind_def last_conv_nth nat_diff_distrib'
           split: if_splits option.splits sum.splits
)

lemma wf_event_status:
  "wf_event ms l \<Longrightarrow> ev_status l \<noteq> [] \<and>
     (hd (ev_status l) = CHR ''O'' \<longleftrightarrow> ev_status l = ''OK'') \<and>
     (hd (ev_status l) = CHR ''P'' \<longleftrightarrow> ev_status l = ''PROBLEM'')"
  by (auto simp: wf_event_def)

lemma step_no_wrap:
  "1 \<le> k \<Longrightarrow> k < m \<Longrightarrow> in_int64 m \<Longrightarrow> wrap64 (k + 1) = k + 1"
  by (simp add: in_int64_def int64_min_def int64_max_def)

lemma time_no_wrap:
  "0 \<le> a \<Longrightarrow> a \<le> int64_max \<Longrightarrow> 0 \<le> b \<Longrightarrow> b \<le> int64_max \<Longrightarrow> wrap64 (a - b) = a - b"
  by (simp add: in_int64_def int64_min_def int64_max_def)

lemma alarm_decide_Emit_wf:
  assumes "alarm_decide mi history triggered now e max_step prev = Inr (Emit e')"
    and "valid_call ms now e max_step"
    and "\<And>l. prev = Some l \<Longrightarrow> wf_event ms l \<and> ev_id l = ev_id e"
  shows "wf_event ms e'"
  using alarm_decide_Emit [OF assms(1)] assms(2,3)
  by (auto simp: wf_event_def valid_call_def step_no_wrap dest: wf_event_status)

lemma alarm_decide_Emit_changes:
  assumes "alarm_decide mi history triggered now e max_step prev = Inr (Emit e')"
    and "valid_call ms now e max_step" and "\<And>l. prev = Some l \<Longrightarrow> wf_event ms l"
  shows "prev \<noteq> Some e'"
  using alarm_decide_Emit [OF assms(1)] assms(2,3)
  by (auto simp: wf_event_def valid_call_def step_no_wrap dest: wf_event_status)

text \<open>One call: either the decision emits \<open>e'\<close>, the state is \<open>sendEvent e'\<close> of the
  old one and the call is seen to have sent \<open>e'\<close>, or nothing changes.\<close>

lemma alarm_call:
  assumes "send_event_if_need mi history triggered now e max_step st = Inr st'"
    and "valid_call ms now e max_step"
    and "\<And>l. last_events st (ev_id e) = Some l \<Longrightarrow> wf_event ms l"
  shows "(\<exists>e'. alarm_decide mi history triggered now e max_step (last_events st (ev_id e)) = Inr (Emit e') \<and>
           st' = send_event e' st \<and> sent_by_call st st' (ev_id e) = [e'])
         \<or> (st' = st \<and> sent_by_call st st' (ev_id e) = [])"
proof -
  obtain v where d: "alarm_decide mi history triggered now e max_step (last_events st (ev_id e)) = Inr v"
    and st': "st' = apply_verdict v st"
    using assms(1) by (auto simp: send_event_if_need_refines go_map_eq_Inr)
  show ?thesis
  proof (cases v)
    case (Emit e')
    have id: "ev_id e' = ev_id e" using alarm_decide_Emit [OF d [unfolded Emit]] by simp
    have "last_events st (ev_id e) \<noteq> Some e'"
      using alarm_decide_Emit_changes [OF d [unfolded Emit] assms(2,3)] .
    with st' Emit id have "sent_by_call st st' (ev_id e) = [e']"
      by (simp add: sent_by_call_def apply_verdict_def)
    with d Emit st' show ?thesis by (auto simp: apply_verdict_def)
  qed (use st' in \<open>simp_all add: apply_verdict_def sent_by_call_def\<close>)
qed

lemma alarm_run_inv: "alarm_run mi ms st sent \<Longrightarrow> alarm_inv ms st sent"
proof (induction rule: alarm_run.induct)
  case start
  then show ?case by (simp add: alarm_inv_def alarm_init_def)
next
  case (call st sent now e max_step history triggered st')
  have prev: "\<And>l. last_events st (ev_id e) = Some l \<Longrightarrow> wf_event ms l \<and> ev_id l = ev_id e"
    using call.IH by (auto simp: alarm_inv_def dest: find_Some_in)
  from alarm_call [OF call.hyps(3,2)] prev
  consider (emit) e' where "alarm_decide mi history triggered now e max_step (last_events st (ev_id e)) = Inr (Emit e')"
      "st' = send_event e' st" "sent_by_call st st' (ev_id e) = [e']"
    | (quiet) "st' = st" "sent_by_call st st' (ev_id e) = []"
    by blast
  then show ?case
  proof cases
    case emit
    have "wf_event ms e'" by (rule alarm_decide_Emit_wf [OF emit(1) call.hyps(2) prev])
    moreover have "ev_id e' = ev_id e" using alarm_decide_Emit [OF emit(1)] by simp
    ultimately show ?thesis using call.IH emit(2,3) by (auto simp: alarm_inv_def)
  next
    case quiet
    then show ?thesis using call.IH by simp
  qed
qed

lemma alarm_decide_Emit_follows:
  assumes "alarm_decide mi history triggered now e max_step (Some l) = Inr (Emit e')"
    and "valid_call ms now e max_step" and "wf_event ms l"
  shows "follows mi l e'"
  using alarm_decide_Emit [OF assms(1)] assms(2,3) wf_event_status [OF assms(3)]
  by (auto simp: follows_def wf_event_def valid_call_def step_no_wrap time_no_wrap)

lemma alarm_decide_Emit_first:
  assumes "alarm_decide mi history triggered now e max_step None = Inr (Emit e')"
  shows "ev_status e' = ''PROBLEM'' \<and> ev_current_step e' = 1"
  using alarm_decide_Emit [OF assms] by auto

text \<open>What a call of a run emits, with the facts the two inductions below share.\<close>

lemma alarm_run_call_cases:
  assumes "alarm_run mi ms st sent" and "valid_call ms now e max_step"
    and "send_event_if_need mi history triggered now e max_step st = Inr st'"
  obtains (emit) e' where
      "alarm_decide mi history triggered now e max_step (last_events st (ev_id e)) = Inr (Emit e')"
      "sent_by_call st st' (ev_id e) = [e']" "ev_id e' = ev_id e"
      "last_events st (ev_id e) = find (\<lambda>x. ev_id x = ev_id e) sent"
      "\<forall>x \<in> set sent. wf_event ms x"
  | (quiet) "sent_by_call st st' (ev_id e) = []"
proof -
  have inv: "alarm_inv ms st sent" using assms(1) by (rule alarm_run_inv)
  then have prev: "\<And>l. last_events st (ev_id e) = Some l \<Longrightarrow> wf_event ms l"
    by (auto simp: alarm_inv_def dest: find_Some_in)
  from alarm_call [OF assms(3,2) prev] inv show ?thesis
    using that alarm_decide_Emit by (fastforce simp: alarm_inv_def)
qed

lemma alarm_run_follows:
  "alarm_run mi ms st sent \<Longrightarrow> sent = pre @ e2 # mid @ e1 # post \<Longrightarrow> ev_id e1 = ev_id e2 \<Longrightarrow>
   \<forall>x \<in> set mid. ev_id x \<noteq> ev_id e2 \<Longrightarrow> follows mi e1 e2"
proof (induction arbitrary: pre rule: alarm_run.induct)
  case start
  then show ?case by simp
next
  case (call st sent now e max_step history triggered st')
  from call.hyps show ?case
  proof (cases rule: alarm_run_call_cases)
    case (emit e')
    show ?thesis
    proof (cases pre)
      case Nil
      with call.prems emit(2) have e2: "e2 = e'" and sent: "sent = mid @ e1 # post" by auto
      have "last_events st (ev_id e) = Some e1"
        using emit(3,4) sent e2 call.prems(2,3) by (simp add: find_first_match)
      moreover have "wf_event ms e1" using emit(5) sent by simp
      ultimately show ?thesis
        using alarm_decide_Emit_follows emit(1) call.hyps(2) e2 by metis
    next
      case (Cons x pre')
      with call.prems emit(2) have "sent = pre' @ e2 # mid @ e1 # post" by simp
      with call.IH call.prems(2,3) show ?thesis by blast
    qed
  next
    case quiet
    with call.IH call.prems show ?thesis by simp
  qed
qed

lemma alarm_run_first:
  "alarm_run mi ms st sent \<Longrightarrow> sent = pre @ e2 # post \<Longrightarrow> \<forall>x \<in> set post. ev_id x \<noteq> ev_id e2 \<Longrightarrow>
   ev_status e2 = ''PROBLEM'' \<and> ev_current_step e2 = 1"
proof (induction arbitrary: pre rule: alarm_run.induct)
  case start
  then show ?case by simp
next
  case (call st sent now e max_step history triggered st')
  from call.hyps show ?case
  proof (cases rule: alarm_run_call_cases)
    case (emit e')
    show ?thesis
    proof (cases pre)
      case Nil
      with call.prems emit(2) have e2: "e2 = e'" and sent: "sent = post" by auto
      have "last_events st (ev_id e) = None"
        using emit(3,4) sent e2 call.prems(2) by (simp add: find_no_match)
      with emit(1) e2 show ?thesis using alarm_decide_Emit_first by metis
    next
      case (Cons x pre')
      with call.prems emit(2) have "sent = pre' @ e2 # post" by simp
      with call.IH call.prems(2) show ?thesis by blast
    qed
  next
    case quiet
    with call.IH call.prems show ?thesis by simp
  qed
qed

lemmas scenario_defs = scenario_strategy_def scenario_event_def scenario_history_def

lemma scenario_run_1:
  "alarm_run 300 (\<lambda>_. 3) (send_event ((scenario_event 300 12)\<lparr>ev_status := ''PROBLEM'', ev_current_step := 1\<rparr>) alarm_init)
     [(scenario_event 300 12)\<lparr>ev_status := ''PROBLEM'', ev_current_step := 1\<rparr>]"
proof -
  have "alarm_run 300 (\<lambda>_. 3) (send_event ((scenario_event 300 12)\<lparr>ev_status := ''PROBLEM'', ev_current_step := 1\<rparr>) alarm_init)
      (sent_by_call (alarm_init) (send_event ((scenario_event 300 12)\<lparr>ev_status := ''PROBLEM'', ev_current_step := 1\<rparr>) alarm_init) (ev_id (scenario_event 300 12)) @ [])"
    by (rule alarm_run.call [OF alarm_run.start, where now = 300 and e = "scenario_event 300 12"
          and max_step = 3 and history = "scenario_history 300" and triggered = True])
       (simp_all add: valid_call_def send_event_if_need_def last_events_get_def scenario_defs
          int64_max_def in_int64_def int64_min_def wrap64_def alarm_init_def)
  then show ?thesis by (simp add: sent_by_call_def scenario_defs alarm_init_def)
qed

lemma scenario_run_2:
  "alarm_run 300 (\<lambda>_. 3) (send_event ((scenario_event 610 13)\<lparr>ev_status := ''PROBLEM'', ev_current_step := 2\<rparr>) (send_event ((scenario_event 300 12)\<lparr>ev_status := ''PROBLEM'', ev_current_step := 1\<rparr>) alarm_init))
     [(scenario_event 610 13)\<lparr>ev_status := ''PROBLEM'', ev_current_step := 2\<rparr>, (scenario_event 300 12)\<lparr>ev_status := ''PROBLEM'', ev_current_step := 1\<rparr>]"
proof -
  have "alarm_run 300 (\<lambda>_. 3) (send_event ((scenario_event 610 13)\<lparr>ev_status := ''PROBLEM'', ev_current_step := 2\<rparr>) (send_event ((scenario_event 300 12)\<lparr>ev_status := ''PROBLEM'', ev_current_step := 1\<rparr>) alarm_init))
      (sent_by_call (send_event ((scenario_event 300 12)\<lparr>ev_status := ''PROBLEM'', ev_current_step := 1\<rparr>) alarm_init) (send_event ((scenario_event 610 13)\<lparr>ev_status := ''PROBLEM'', ev_current_step := 2\<rparr>) (send_event ((scenario_event 300 12)\<lparr>ev_status := ''PROBLEM'', ev_current_step := 1\<rparr>) alarm_init)) (ev_id (scenario_event 610 13)) @ [(scenario_event 300 12)\<lparr>ev_status := ''PROBLEM'', ev_current_step := 1\<rparr>])"
    by (rule alarm_run.call [OF scenario_run_1, where now = 610 and e = "scenario_event 610 13"
          and max_step = 3 and history = "scenario_history 610" and triggered = True])
       (simp_all add: valid_call_def send_event_if_need_def last_events_get_def scenario_defs
          int64_max_def in_int64_def int64_min_def wrap64_def alarm_init_def)
  then show ?thesis by (simp add: sent_by_call_def scenario_defs alarm_init_def)
qed

lemma scenario_run_3:
  "alarm_run 300 (\<lambda>_. 3) (send_event ((scenario_event 670 5)\<lparr>ev_status := ''OK'', ev_current_step := 1\<rparr>) (send_event ((scenario_event 610 13)\<lparr>ev_status := ''PROBLEM'', ev_current_step := 2\<rparr>) (send_event ((scenario_event 300 12)\<lparr>ev_status := ''PROBLEM'', ev_current_step := 1\<rparr>) alarm_init)))
     [(scenario_event 670 5)\<lparr>ev_status := ''OK'', ev_current_step := 1\<rparr>, (scenario_event 610 13)\<lparr>ev_status := ''PROBLEM'', ev_current_step := 2\<rparr>, (scenario_event 300 12)\<lparr>ev_status := ''PROBLEM'', ev_current_step := 1\<rparr>]"
proof -
  have "alarm_run 300 (\<lambda>_. 3) (send_event ((scenario_event 670 5)\<lparr>ev_status := ''OK'', ev_current_step := 1\<rparr>) (send_event ((scenario_event 610 13)\<lparr>ev_status := ''PROBLEM'', ev_current_step := 2\<rparr>) (send_event ((scenario_event 300 12)\<lparr>ev_status := ''PROBLEM'', ev_current_step := 1\<rparr>) alarm_init)))
      (sent_by_call (send_event ((scenario_event 610 13)\<lparr>ev_status := ''PROBLEM'', ev_current_step := 2\<rparr>) (send_event ((scenario_event 300 12)\<lparr>ev_status := ''PROBLEM'', ev_current_step := 1\<rparr>) alarm_init)) (send_event ((scenario_event 670 5)\<lparr>ev_status := ''OK'', ev_current_step := 1\<rparr>) (send_event ((scenario_event 610 13)\<lparr>ev_status := ''PROBLEM'', ev_current_step := 2\<rparr>) (send_event ((scenario_event 300 12)\<lparr>ev_status := ''PROBLEM'', ev_current_step := 1\<rparr>) alarm_init))) (ev_id (scenario_event 670 5)) @ [(scenario_event 610 13)\<lparr>ev_status := ''PROBLEM'', ev_current_step := 2\<rparr>, (scenario_event 300 12)\<lparr>ev_status := ''PROBLEM'', ev_current_step := 1\<rparr>])"
    by (rule alarm_run.call [OF scenario_run_2, where now = 670 and e = "scenario_event 670 5"
          and max_step = 3 and history = "scenario_history 670" and triggered = False])
       (simp_all add: valid_call_def send_event_if_need_def last_events_get_def scenario_defs
          int64_max_def in_int64_def int64_min_def wrap64_def alarm_init_def)
  then show ?thesis by (simp add: sent_by_call_def scenario_defs alarm_init_def)
qed

subsection \<open>Properties of runs\<close>

text \<open>C1: Minimum interval: in every run, two successive PROBLEM notifications of the same alert identity are at least MinInterval seconds apart.\<close>

theorem alarm_run_min_interval:
  assumes "alarm_run mi ms st sent" and "sent = pre @ e2 # mid @ e1 # post"
    and "ev_id e1 = ev_id e2" and "\<forall>x \<in> set mid. ev_id x \<noteq> ev_id e2"
    and "ev_status e1 = ''PROBLEM''" and "ev_status e2 = ''PROBLEM''"
  shows "mi \<le> ev_event_time e2 - ev_event_time e1"
  using alarm_run_follows [OF assms(1-4)] assms(5,6) by (auto simp: follows_def)

theorem alarm_run_min_interval_witness:
  "alarm_run 300 (\<lambda>_. 3)
     (send_event ((scenario_event 610 13)\<lparr>ev_status := ''PROBLEM'', ev_current_step := 2\<rparr>)
       (send_event ((scenario_event 300 12)\<lparr>ev_status := ''PROBLEM'', ev_current_step := 1\<rparr>) alarm_init))
     [(scenario_event 610 13)\<lparr>ev_status := ''PROBLEM'', ev_current_step := 2\<rparr>,
      (scenario_event 300 12)\<lparr>ev_status := ''PROBLEM'', ev_current_step := 1\<rparr>] \<and>
   300 \<le> ev_event_time (scenario_event 610 13) - ev_event_time (scenario_event 300 12)"
  using scenario_run_2
    alarm_run_min_interval [OF scenario_run_2, of "[]"
      "(scenario_event 610 13)\<lparr>ev_status := ''PROBLEM'', ev_current_step := 2\<rparr>" "[]"
      "(scenario_event 300 12)\<lparr>ev_status := ''PROBLEM'', ev_current_step := 1\<rparr>" "[]"]
  by (simp add: scenario_event_def)

text \<open>C2: Quota: every PROBLEM notification of a run carries a step between 1 and the strategy's MaxStep (1 when MaxStep is negative), so at most MaxStep consecutive problem notifications are sent.\<close>

theorem alarm_run_quota:
  assumes "alarm_run mi ms st sent" and "e \<in> set sent" and "ev_status e = ''PROBLEM''"
  shows "1 \<le> ev_current_step e \<and> ev_current_step e \<le> max 1 (ms (ev_id e))"
  using alarm_run_inv [OF assms(1)] assms(2,3) by (auto simp: alarm_inv_def wf_event_def)

theorem alarm_run_quota_witness:
  "1 \<le> ev_current_step ((scenario_event 610 13)\<lparr>ev_status := ''PROBLEM'', ev_current_step := 2\<rparr>) \<and>
   ev_current_step ((scenario_event 610 13)\<lparr>ev_status := ''PROBLEM'', ev_current_step := 2\<rparr>) \<le> max 1 ((\<lambda>_. 3::int) (ev_id ((scenario_event 610 13)\<lparr>ev_status := ''PROBLEM'', ev_current_step := 2\<rparr>)))"
  using alarm_run_quota [OF scenario_run_2, of "(scenario_event 610 13)\<lparr>ev_status := ''PROBLEM'', ev_current_step := 2\<rparr>"] by simp

text \<open>C3: Step numbering: a PROBLEM notification that follows a PROBLEM of the same identity carries the next step; one that follows an OK starts again at step 1.\<close>

theorem alarm_run_problem_steps:
  assumes "alarm_run mi ms st sent" and "sent = pre @ e2 # mid @ e1 # post"
    and "ev_id e1 = ev_id e2" and "\<forall>x \<in> set mid. ev_id x \<noteq> ev_id e2"
    and "ev_status e2 = ''PROBLEM''"
  shows "(ev_status e1 = ''PROBLEM'' \<and> ev_current_step e2 = ev_current_step e1 + 1) \<or>
         (ev_status e1 = ''OK'' \<and> ev_current_step e2 = 1)"
  using alarm_run_follows [OF assms(1-4)] assms(5) by (auto simp: follows_def)

theorem alarm_run_problem_steps_witness:
  "ev_status ((scenario_event 300 12)\<lparr>ev_status := ''PROBLEM'', ev_current_step := 1\<rparr>) = ''PROBLEM'' \<and>
   ev_current_step ((scenario_event 610 13)\<lparr>ev_status := ''PROBLEM'', ev_current_step := 2\<rparr>) = ev_current_step ((scenario_event 300 12)\<lparr>ev_status := ''PROBLEM'', ev_current_step := 1\<rparr>) + 1"
  using alarm_run_problem_steps [OF scenario_run_2, of "[]" "(scenario_event 610 13)\<lparr>ev_status := ''PROBLEM'', ev_current_step := 2\<rparr>" "[]" "(scenario_event 300 12)\<lparr>ev_status := ''PROBLEM'', ev_current_step := 1\<rparr>" "[]"]
  by (simp add: scenario_event_def)

text \<open>C4: Recovery exclusivity: an OK notification is only ever sent right after a PROBLEM notification of the same identity.\<close>

theorem alarm_run_recovery:
  assumes "alarm_run mi ms st sent" and "sent = pre @ e2 # mid @ e1 # post"
    and "ev_id e1 = ev_id e2" and "\<forall>x \<in> set mid. ev_id x \<noteq> ev_id e2"
    and "ev_status e2 = ''OK''"
  shows "ev_status e1 = ''PROBLEM''"
  using alarm_run_follows [OF assms(1-4)] assms(5) by (auto simp: follows_def)

theorem alarm_run_recovery_witness:
  "ev_status ((scenario_event 610 13)\<lparr>ev_status := ''PROBLEM'', ev_current_step := 2\<rparr>) = ''PROBLEM''"
  using alarm_run_recovery [OF scenario_run_3, of "[]" "(scenario_event 670 5)\<lparr>ev_status := ''OK'', ev_current_step := 1\<rparr>" "[]" "(scenario_event 610 13)\<lparr>ev_status := ''PROBLEM'', ev_current_step := 2\<rparr>" "[(scenario_event 300 12)\<lparr>ev_status := ''PROBLEM'', ev_current_step := 1\<rparr>]"]
  by (simp add: scenario_event_def)

text \<open>C5: The first notification of an identity is a PROBLEM with step 1 (an OK is never sent first).\<close>

theorem alarm_run_first_problem:
  assumes "alarm_run mi ms st sent" and "sent = pre @ e # post" and "\<forall>x \<in> set post. ev_id x \<noteq> ev_id e"
  shows "ev_status e = ''PROBLEM'' \<and> ev_current_step e = 1"
  using alarm_run_first [OF assms] .

theorem alarm_run_first_problem_witness:
  "ev_status ((scenario_event 300 12)\<lparr>ev_status := ''PROBLEM'', ev_current_step := 1\<rparr>) = ''PROBLEM'' \<and> ev_current_step ((scenario_event 300 12)\<lparr>ev_status := ''PROBLEM'', ev_current_step := 1\<rparr>) = 1"
  using alarm_run_first_problem [OF scenario_run_1, of "[]" "(scenario_event 300 12)\<lparr>ev_status := ''PROBLEM'', ev_current_step := 1\<rparr>" "[]"] by simp



text \<open>C7: A call of sendEventIfNeed changes at most the last-event entry of its own identity
  and the queue of its own priority: other identities and other priorities are untouched.\<close>

theorem send_event_if_need_frame:
  assumes "send_event_if_need mi history triggered now e max_step st = Inr st'"
  shows "(\<forall>i. i \<noteq> ev_id e \<longrightarrow> last_events st' i = last_events st i) \<and>
         (\<forall>p. p \<noteq> ev_priority e \<longrightarrow> queues st' p = queues st p)"
proof -
  obtain v where d: "alarm_decide mi history triggered now e max_step (last_events st (ev_id e)) = Inr v"
    and st': "st' = apply_verdict v st"
    using assms by (auto simp: send_event_if_need_refines go_map_eq_Inr)
  show ?thesis
  proof (cases v)
    case (Emit e')
    then have "ev_id e' = ev_id e \<and> ev_strategy e' = ev_strategy e"
      using alarm_decide_Emit [OF d [unfolded Emit]] by simp
    with st' Emit show ?thesis
      by (simp add: apply_verdict_def send_event_def last_events_set_def ev_priority_def Let_def)
  qed (simp_all add: apply_verdict_def st')
qed

theorem send_event_if_need_frame_witness:
  "send_event_if_need 300 (scenario_history 300) True 300 (scenario_event 300 12) 3 alarm_init =
     Inr (send_event ((scenario_event 300 12)\<lparr>ev_status := ''PROBLEM'', ev_current_step := 1\<rparr>) alarm_init) \<and>
   last_events (send_event ((scenario_event 300 12)\<lparr>ev_status := ''PROBLEM'', ev_current_step := 1\<rparr>) alarm_init) ''s_2_host'' = last_events alarm_init ''s_2_host''"
proof -
  have h: "send_event_if_need 300 (scenario_history 300) True 300 (scenario_event 300 12) 3 alarm_init =
      Inr (send_event ((scenario_event 300 12)\<lparr>ev_status := ''PROBLEM'', ev_current_step := 1\<rparr>) alarm_init)"
    by (simp add: send_event_if_need_def last_events_get_def alarm_init_def)
  show ?thesis using send_event_if_need_frame [OF h] h by (simp add: scenario_defs)
qed

text \<open>C8: The stale-sample check compares the last element of the history, which in the newest-first order is the oldest point, with the previous event time: a repeat PROBLEM is suppressed when the oldest point is not newer, whatever the newest point.\<close>

theorem send_event_if_need_stale_oldest:
  assumes "last_events st (ev_id e) = Some l" and "ev_status l = ''PROBLEM''"
    and "ev_current_step l < max_step" and "history \<noteq> []"
    and "rrd_timestamp (last history) \<le> ev_event_time l"
  shows "send_event_if_need mi history True now e max_step st = Inr st"
  using assms by (simp add: send_event_if_need_def last_events_get_def Let_def last_conv_nth nat_diff_distrib')

theorem send_event_if_need_stale_oldest_witness:
  "ev_event_time ((scenario_event 300 12)\<lparr>ev_status := ''PROBLEM'', ev_current_step := 1\<rparr>) < rrd_timestamp (hd (scenario_history 610)) \<and>
   send_event_if_need 300 (scenario_history 350) True 610 (scenario_event 610 13) 3 (send_event ((scenario_event 300 12)\<lparr>ev_status := ''PROBLEM'', ev_current_step := 1\<rparr>) alarm_init) =
     Inr (send_event ((scenario_event 300 12)\<lparr>ev_status := ''PROBLEM'', ev_current_step := 1\<rparr>) alarm_init)"
  using send_event_if_need_stale_oldest [of "send_event ((scenario_event 300 12)\<lparr>ev_status := ''PROBLEM'', ev_current_step := 1\<rparr>) alarm_init" "scenario_event 610 13" "(scenario_event 300 12)\<lparr>ev_status := ''PROBLEM'', ev_current_step := 1\<rparr>" 3
      "scenario_history 350" 300 610]
  by (simp add: scenario_defs)

text \<open>C9: A repeat PROBLEM less than MinInterval seconds after the previous one is suppressed and the store is unchanged.\<close>

theorem send_event_if_need_too_soon:
  assumes "last_events st (ev_id e) = Some l" and "ev_status l = ''PROBLEM''"
    and "ev_current_step l < max_step" and "history \<noteq> []"
    and "ev_event_time l < rrd_timestamp (last history)"
    and "0 \<le> now" "now \<le> int64_max" "0 \<le> ev_event_time l" "ev_event_time l \<le> int64_max"
    and "now - ev_event_time l < mi"
  shows "send_event_if_need mi history True now e max_step st = Inr st"
  using assms by (simp add: send_event_if_need_def last_events_get_def Let_def time_no_wrap last_conv_nth
      nat_diff_distrib')

theorem send_event_if_need_too_soon_witness:
  "send_event_if_need 300 (scenario_history 480) True 480 (scenario_event 480 13) 3 (send_event ((scenario_event 300 12)\<lparr>ev_status := ''PROBLEM'', ev_current_step := 1\<rparr>) alarm_init) =
     Inr (send_event ((scenario_event 300 12)\<lparr>ev_status := ''PROBLEM'', ev_current_step := 1\<rparr>) alarm_init)"
  using send_event_if_need_too_soon [of "send_event ((scenario_event 300 12)\<lparr>ev_status := ''PROBLEM'', ev_current_step := 1\<rparr>) alarm_init" "scenario_event 480 13" "(scenario_event 300 12)\<lparr>ev_status := ''PROBLEM'', ev_current_step := 1\<rparr>" 3
      "scenario_history 480" 480 300]
  by (simp add: scenario_defs int64_max_def)

text \<open>C10: An event whose left value (or threshold) is NaN or infinite is recorded as the last event but never reaches the queue: JSON encoding fails after the store update.\<close>

theorem send_event_unencodable:
  assumes "\<not> json_marshal_ok e"
  shows "last_events (send_event e st) = (last_events st)(ev_id e \<mapsto> e) \<and> queues (send_event e st) = queues st"
  using assms by (simp add: send_event_def last_events_set_def)

theorem send_event_unencodable_witness:
  "last_events (send_event ((scenario_event 300 0)\<lparr>ev_left_value := NaN\<rparr>) alarm_init) ''s_1_host'' =
     Some ((scenario_event 300 0)\<lparr>ev_left_value := NaN\<rparr>) \<and>
   queues (send_event ((scenario_event 300 0)\<lparr>ev_left_value := NaN\<rparr>) alarm_init) = queues alarm_init"
  using send_event_unencodable [of "(scenario_event 300 0)\<lparr>ev_left_value := NaN\<rparr>" alarm_init]
  by (simp add: json_marshal_ok_def scenario_event_def)

text \<open>C11: A strategy with MaxStep 0 never sends a fresh PROBLEM.\<close>

theorem send_event_if_need_muted:
  assumes "last_events st (ev_id e) = None \<or>
           (\<exists>l. last_events st (ev_id e) = Some l \<and> ev_status l = ''OK'')"
  shows "send_event_if_need mi history True now e 0 st = Inr st"
  using assms by (auto simp: send_event_if_need_def last_events_get_def Let_def)

theorem send_event_if_need_muted_witness:
  "send_event_if_need 300 (scenario_history 300) True 300 (scenario_event 300 12) 0 alarm_init = Inr alarm_init"
  using send_event_if_need_muted [of alarm_init "scenario_event 300 12"] by (simp add: alarm_init_def)

end
