(* ===== verification/Query.thy ===== *)
theory Query
  imports Model
begin

text \<open>
  The graph query service \<open>GraphRpc.QueryOne\<close> of \<open>modules/api/rpc/graph.go\<close>.  The
  backend \<open>grh.QueryOne\<close> (not under \<open>src/\<close>) is a parameter: for a request it gives
  a response or \<open>nil\<close>, and an error or \<open>nil\<close>.  The method copies the backend's
  response field by field into the reply and always returns \<open>nil\<close>: the backend's
  error is discarded.
\<close>

type_synonym graph_backend = "graph_query_param \<Rightarrow> graph_query_response option \<times> string option"

text \<open>The zero \<open>GraphQueryResponse{}\<close>.\<close>

definition empty_response :: graph_query_response where
  "empty_response = \<lparr>r_endpoint = [], r_counter = [], r_ds_type = [], r_step = 0, r_values = []\<rparr>"

text \<open>\<open>QueryOne(para, resp) error\<close>: the reply after the call and the returned error.\<close>

definition graph_query_one ::
  "graph_backend \<Rightarrow> graph_query_param \<Rightarrow> graph_query_response \<Rightarrow> graph_query_response \<times> string option" where
  "graph_query_one backend para resp =
     (case fst (backend para) of
        None \<Rightarrow> (resp, None)
      | Some r \<Rightarrow> (resp\<lparr>r_values := r_values r, r_counter := r_counter r, r_ds_type := r_ds_type r,
                         r_endpoint := r_endpoint r, r_step := r_step r\<rparr>, None))"

section \<open>Lemmas\<close>

lemma graph_query_one_empty:
  "fst (graph_query_one backend para empty_response) =
     (case fst (backend para) of None \<Rightarrow> empty_response | Some r \<Rightarrow> r)"
  by (simp add: graph_query_one_def empty_response_def split: option.splits)

text \<open>C26: QueryOne never reports an error: whatever the backend returns, the error
  result is nil, and a nil backend response leaves the reply as it was.\<close>

theorem graph_query_one_no_error:
  "snd (graph_query_one backend para resp) = None \<and>
   (fst (backend para) = None \<longrightarrow> fst (graph_query_one backend para resp) = resp)"
  by (simp add: graph_query_one_def split: option.splits)

theorem graph_query_one_no_error_witness:
  "snd (graph_query_one (\<lambda>_. (None, Some ''connection refused'')) \<lparr>q_start = -1, q_end = 0, q_consol_fun = ''AVERAGE'', q_endpoint = ''h'', q_counter = ''c'', q_step = 60\<rparr> empty_response) = None \<and>
   fst (graph_query_one (\<lambda>_. (None, Some ''connection refused'')) \<lparr>q_start = -1, q_end = 0, q_consol_fun = ''AVERAGE'', q_endpoint = ''h'', q_counter = ''c'', q_step = 60\<rparr> empty_response) =
     empty_response"
  using graph_query_one_no_error [of "\<lambda>_. (None, Some ''connection refused'')" "\<lparr>q_start = -1, q_end = 0, q_consol_fun = ''AVERAGE'', q_endpoint = ''h'', q_counter = ''c'', q_step = 60\<rparr>" empty_response]
  by simp

text \<open>A backend response is copied completely: the reply of a call on a fresh reply
  is exactly the backend's response, also when the backend reports an error with it.\<close>

theorem graph_query_one_copies:
  assumes "backend para = (Some r, err)"
  shows "graph_query_one backend para empty_response = (r, None)"
  using assms by (simp add: graph_query_one_def empty_response_def)

theorem graph_query_one_copies_witness:
  "graph_query_one (\<lambda>_. (Some (empty_response\<lparr>r_step := 60\<rparr>), Some ''timeout''))
     \<lparr>q_start = -1, q_end = 0, q_consol_fun = ''AVERAGE'', q_endpoint = ''h'', q_counter = ''c'', q_step = 60\<rparr>
     empty_response = (empty_response\<lparr>r_step := 60\<rparr>, None)"
  using graph_query_one_copies [of "\<lambda>_. (Some (empty_response\<lparr>r_step := 60\<rparr>), Some ''timeout'')"] by simp

end
