(* ===== verification/Worker.thy ===== *)
theory Worker
  imports FuncParse Alarm Query "HOL-Library.List_Lexorder" "HOL-Library.Char_ord"
begin

text \<open>
  The per-group worker \<open>judgeItemWithStrategy(key, val)\<close> of
  \<open>modules/judge/cron/judge.go\<close>: for every strategy of the group it splits the key
  \<open>endpoint/metric\<close>, reads the first argument of the descriptor, queries the history
  of the last minute, parses and evaluates the function and hands the outcome to
  \<open>sendEventIfNeed\<close>.  Every \<open>return\<close> of the loop body leaves the whole worker,
  so the remaining strategies of the group are not judged; \<open>etime\<close> is a variable of
  the worker, so the shift a \<open>c_avg_rate_abs\<close> strategy applies to it stays for the
  strategies after it.

  The worker's state is the alert state of \<open>Alarm\<close> and the list of graph requests it
  issued (its calls of \<open>GraphRpc.QueryOne\<close>, oldest first).  Its environment is the
  graph backend, the digest \<open>Md5(PK(endpoint, metric, tags))\<close> of \<open>common/utils\<close>
  (not under \<open>src/\<close>, a parameter) and \<open>Alarm.MinInterval\<close>; the clock gives
  \<open>time.Now().Unix()\<close> at the start and when the \<open>i\<close>-th strategy builds its event.
\<close>

record worker_env =
  we_backend :: graph_backend
  we_digest :: "string \<Rightarrow> string \<Rightarrow> tags \<Rightarrow> string"
  we_min_interval :: int

record worker_state =
  ws_alarm :: alarm_state
  ws_queries :: "graph_query_param list"

text \<open>\<open>cutils.SortedTags\<close> (not under \<open>src/\<close>; the specification's canonical form):
  \<open>k=v\<close> pairs sorted by key, joined by commas, empty for no tags.\<close>

definition sorted_tags :: "tags \<Rightarrow> string" where
  "sorted_tags tags = str_join CHR '','' (map (\<lambda>(k, v). k @ ''='' @ v) (sort_key fst tags))"

text \<open>The counter of lines 55-61: the metric, followed by the sorted tags if there
  are any.\<close>

definition strategy_counter :: "string \<Rightarrow> tags \<Rightarrow> string" where
  "strategy_counter metric tags =
     (let t = sorted_tags tags in if t = [] then metric else metric @ ''/'' @ t)"

definition gen_q_param ::
  "string \<Rightarrow> string \<Rightarrow> string \<Rightarrow> int \<Rightarrow> int \<Rightarrow> int \<Rightarrow> graph_query_param" where
  "gen_q_param endpoint counter consol_fun stime etime step =
     \<lparr>q_start = stime, q_end = etime, q_consol_fun = consol_fun, q_endpoint = endpoint,
      q_counter = counter, q_step = step\<rparr>"

text \<open>\<open>queryHistoryData(queryParam, resp)\<close> on a fresh \<open>resp\<close>: the request is
  recorded and the reply is what \<open>QueryOne\<close> answers (a failed call leaves the fresh
  reply empty, as a \<open>nil\<close> backend answer does).\<close>

definition query_history_data ::
  "worker_env \<Rightarrow> graph_query_param \<Rightarrow> worker_state \<Rightarrow> graph_query_response \<times> worker_state" where
  "query_history_data env qp ws =
     (fst (graph_query_one (we_backend env) qp empty_response),
      ws\<lparr>ws_queries := ws_queries ws @ [qp]\<rparr>)"

text \<open>\<open>Id: fmt.Sprintf("s_%d_%s", strategy.Id, key)\<close> with the digest \<open>key\<close>.\<close>

definition strategy_event_id :: "worker_env \<Rightarrow> string \<Rightarrow> string \<Rightarrow> strategy \<Rightarrow> string" where
  "strategy_event_id env endpoint metric strategy =
     ''s_'' @ int_to_string (s_id strategy) @ ''_'' @ we_digest env endpoint metric (s_tags strategy)"

text \<open>The candidate event of lines 110-117; \<open>Status\<close> and \<open>CurrentStep\<close> keep their
  zero values until \<open>sendEventIfNeed\<close> sets them.\<close>

definition candidate_event :: "worker_env \<Rightarrow> string \<Rightarrow> string \<Rightarrow> strategy \<Rightarrow> f64 \<Rightarrow> int \<Rightarrow> event" where
  "candidate_event env endpoint metric strategy left_value now =
     \<lparr>ev_id = strategy_event_id env endpoint metric strategy, ev_strategy = strategy,
      ev_endpoint = endpoint, ev_left_value = left_value, ev_event_time = now,
      ev_status = [], ev_current_step = 0, ev_pushed_tags = s_tags strategy\<rparr>"

text \<open>Lines 104-118: an outcome without enough data ends the worker; otherwise the
  candidate event is built and passed to \<open>sendEventIfNeed\<close>.  The result is the new
  \<open>etime\<close>, the state and whether the worker returned.\<close>

definition judge_outcome ::
  "worker_env \<Rightarrow> int \<Rightarrow> string list \<Rightarrow> strategy \<Rightarrow> rrd_data list \<Rightarrow> int \<Rightarrow> worker_state \<Rightarrow> outcome \<Rightarrow>
   (int \<times> worker_state \<times> bool) go_result" where
  "judge_outcome env now s strategy vs etime ws =
     (\<lambda>(left_value, triggered, enough).
        if \<not> enough then Inr (etime, ws, True)
        else
          (let e = candidate_event env (s ! 0) (s ! 1) strategy left_value now
           in go_map (\<lambda>st'. (etime, ws\<lparr>ws_alarm := st'\<rparr>, False))
                (send_event_if_need (we_min_interval env) vs triggered now e (s_max_step strategy) (ws_alarm ws))))"

text \<open>Lines 85-103: the relative query and \<open>RelativeCompute\<close> for a descriptor
  containing \<open>c_avg_rate_abs\<close>, \<open>Compute\<close> otherwise.  \<open>vs\<close> is the history
  of the first query; the second query is the first with its end moved back by
  \<open>args[1]\<close> days, and the new \<open>etime\<close> is kept.\<close>

definition judge_eval ::
  "worker_env \<Rightarrow> int \<Rightarrow> string list \<Rightarrow> strategy \<Rightarrow> int list \<Rightarrow> graph_query_param \<Rightarrow> rrd_data list \<Rightarrow>
   int \<Rightarrow> worker_state \<Rightarrow> func \<Rightarrow> (int \<times> worker_state \<times> bool) go_result" where
  "judge_eval env now s strategy args qp vs etime ws fn =
     (if str_contains (s_func strategy) ''c_avg_rate_abs'' then
        (if length args < 2 then Inr (etime, ws, True)
         else
           (let etime' = wrap64 (etime - wrap64 (86400 * args ! 1));
                (resp1, ws1) = query_history_data env (qp\<lparr>q_end := etime'\<rparr>) ws
            in if r_values resp1 \<noteq> []
               then go_bind (relative_compute fn vs (r_values resp1)) (judge_outcome env now s strategy vs etime' ws1)
               else Inr (etime', ws1, True)))
      else go_bind (compute fn vs) (judge_outcome env now s strategy vs etime ws))"

text \<open>Lines 71-79: the query of the last minute up to \<open>etime\<close> with step \<open>args[0]\<close>;
  an empty answer goes on to the next strategy, a parse error ends the worker.\<close>

definition judge_query ::
  "worker_env \<Rightarrow> int \<Rightarrow> string list \<Rightarrow> strategy \<Rightarrow> string \<Rightarrow> int list \<Rightarrow> int \<Rightarrow> worker_state \<Rightarrow>
   (int \<times> worker_state \<times> bool) go_result" where
  "judge_query env now s strategy counter args etime ws =
     (let qp = gen_q_param (s ! 0) counter ''AVERAGE'' (-1) etime (args ! 0);
          (resp, ws1) = query_history_data env qp ws
      in if r_values resp = [] then Inr (etime, ws1, False)
         else go_check (parse_func_from_string (s_func strategy) (s_operator strategy) (s_right_value strategy))
                (Inr (etime, ws1, True)) (judge_eval env now s strategy args qp (r_values resp) etime ws1))"

text \<open>The body of the loop over the group's strategies (lines 51-70 and the calls
  above): the key must have two parts, the descriptor without its last character is
  split at \<open>#\<close> and its second piece must be a non-empty integer list.\<close>

definition judge_strategy ::
  "worker_env \<Rightarrow> int \<Rightarrow> string \<Rightarrow> strategy \<Rightarrow> int \<Rightarrow> worker_state \<Rightarrow> (int \<times> worker_state \<times> bool) go_result" where
  "judge_strategy env now key strategy etime ws =
     (let s = str_split CHR ''/'' key; ret = Inr (etime, ws, True) in
      if length s \<noteq> 2 then ret
      else
        (let counter = strategy_counter (s ! 1) (s_tags strategy);
             fs = s_func strategy
         in go_bind (go_slice fs 0 (int (length fs) - 1)) (\<lambda>f.
            (let sfunc = str_split CHR ''#'' f in
             if length sfunc < 1 then ret
             else go_bind (go_nth sfunc 1) (\<lambda>a1.
               go_check (atois a1) ret (\<lambda>args.
               if length args < 1 then ret
               else judge_query env now s strategy counter args etime ws))))))"

text \<open>The loop \<open>for _, strategy := range val\<close>; \<open>clock i\<close> is the time the \<open>i\<close>-th
  strategy reads at line 108.\<close>

fun judge_strategies ::
  "worker_env \<Rightarrow> (nat \<Rightarrow> int) \<Rightarrow> nat \<Rightarrow> string \<Rightarrow> strategy list \<Rightarrow> int \<Rightarrow> worker_state \<Rightarrow>
   (int \<times> worker_state) go_result" where
  "judge_strategies env clock i key [] etime ws = Inr (etime, ws)"
| "judge_strategies env clock i key (strategy # rest) etime ws =
     go_bind (judge_strategy env (clock i) key strategy etime ws) (\<lambda>(etime', ws', returned).
       if returned then Inr (etime', ws') else judge_strategies env clock (Suc i) key rest etime' ws')"

text \<open>\<open>judgeItemWithStrategy\<close>: \<open>etime := time.Now().Unix() - 60\<close>, then the loop.
  The deferred semaphore release is part of the scheduler model.\<close>

definition judge_item_with_strategy ::
  "worker_env \<Rightarrow> int \<Rightarrow> (nat \<Rightarrow> int) \<Rightarrow> string \<Rightarrow> strategy list \<Rightarrow> worker_state \<Rightarrow> worker_state go_result" where
  "judge_item_with_strategy env t0 clock key val ws =
     go_map snd (judge_strategies env clock 0 key val (wrap64 (t0 - 60)) ws)"

text \<open>The effect a strategy may have on the alert state: none, or one call of
  \<open>sendEventIfNeed\<close> on its candidate event at time \<open>now\<close>.\<close>

definition alarm_effect ::
  "worker_env \<Rightarrow> int \<Rightarrow> string list \<Rightarrow> strategy \<Rightarrow> alarm_state \<Rightarrow> alarm_state \<Rightarrow> bool" where
  "alarm_effect env now s strategy st st' =
     (st' = st \<or> (\<exists>vs triggered lv. send_event_if_need (we_min_interval env) vs triggered now
        (candidate_event env (s ! 0) (s ! 1) strategy lv now) (s_max_step strategy) st = Inr st'))"

subsection \<open>Scenario data\<close>

text \<open>The state of a fresh process, and a backend that answers every request with three
  points one minute apart ending at the requested end (values 12, 11, 10).\<close>

definition worker_init :: worker_state where
  "worker_init = \<lparr>ws_alarm = alarm_init, ws_queries = []\<rparr>"

definition scenario_env :: worker_env where
  "scenario_env =
     \<lparr>we_backend = (\<lambda>q. (Some (empty_response\<lparr>r_values :=
        [\<lparr>rrd_timestamp = q_end q, rrd_value = Fin 12\<rparr>, \<lparr>rrd_timestamp = q_end q - 60, rrd_value = Fin 11\<rparr>,
         \<lparr>rrd_timestamp = q_end q - 120, rrd_value = Fin 10\<rparr>]\<rparr>), None)),
      we_digest = (\<lambda>endpoint metric tags. endpoint @ ''/'' @ metric), we_min_interval = 300\<rparr>"

section \<open>Lemmas\<close>

lemma worker_init_simps [simp]: "ws_alarm worker_init = alarm_init" "ws_queries worker_init = []"
  by (simp_all add: worker_init_def)

lemma query_history_data_alarm [simp]:
  "ws_alarm (snd (query_history_data env qp ws)) = ws_alarm ws"
  by (simp add: query_history_data_def)

lemma query_history_data_queries [simp]:
  "ws_queries (snd (query_history_data env qp ws)) = ws_queries ws @ [qp]"
  by (simp add: query_history_data_def)

lemma alarm_effect_refl [simp]: "alarm_effect env now s strategy st st"
  by (simp add: alarm_effect_def)

text \<open>Each block of the loop body has at most one call of \<open>sendEventIfNeed\<close> as
  effect on the alert state.\<close>

lemma judge_outcome_effect:
  "judge_outcome env now s strategy vs etime ws out = Inr (etime', ws', r) \<Longrightarrow>
   alarm_effect env now s strategy (ws_alarm ws) (ws_alarm ws')"
  by (cases out) (auto simp: alarm_effect_def judge_outcome_def Let_def go_map_eq_Inr split: if_splits)

lemma judge_eval_effect:
  "judge_eval env now s strategy args qp vs etime ws fn = Inr (etime', ws', r) \<Longrightarrow>
   alarm_effect env now s strategy (ws_alarm ws) (ws_alarm ws')"
  by (auto simp: judge_eval_def Let_def go_bind_eq_Inr query_history_data_def split: if_splits prod.splits
           dest!: judge_outcome_effect)

lemma judge_query_effect:
  "judge_query env now s strategy counter args etime ws = Inr (etime', ws', r) \<Longrightarrow>
   alarm_effect env now s strategy (ws_alarm ws) (ws_alarm ws')"
  by (auto simp: judge_query_def Let_def go_check_eq_Inr query_history_data_def split: if_splits prod.splits
           dest!: judge_eval_effect)

lemma judge_strategy_effect:
  "judge_strategy env now key strategy etime ws = Inr (etime', ws', r) \<Longrightarrow>
   alarm_effect env now (str_split CHR ''/'' key) strategy (ws_alarm ws) (ws_alarm ws')"
  by (auto simp: judge_strategy_def Let_def go_bind_eq_Inr go_check_eq_Inr split: if_splits
           dest!: judge_query_effect)


text \<open>Composition with the runs of the alert state machine: a worker is a sequence of
  calls of \<open>sendEventIfNeed\<close> as \<open>alarm_run\<close> admits them.\<close>

lemma alarm_effect_run:
  assumes "alarm_run mi ms st sent" and "alarm_effect env now s strategy st st'"
    and "mi = we_min_interval env" and "0 \<le> now" and "now \<le> int64_max"
    and "ms (strategy_event_id env (s ! 0) (s ! 1) strategy) = s_max_step strategy"
    and "in_int64 (s_max_step strategy)"
  shows "\<exists>new. alarm_run mi ms st' (new @ sent)"
proof -
  from assms(2) consider "st' = st"
    | vs triggered lv where "send_event_if_need (we_min_interval env) vs triggered now
        (candidate_event env (s ! 0) (s ! 1) strategy lv now) (s_max_step strategy) st = Inr st'"
    by (auto simp: alarm_effect_def)
  then show ?thesis
  proof cases
    case 1
    with assms(1) show ?thesis by (intro exI [of _ "[]"]) simp
  next
    case 2
    have "valid_call ms now (candidate_event env (s ! 0) (s ! 1) strategy lv now) (s_max_step strategy)"
      using assms(4-7) by (simp add: valid_call_def candidate_event_def)
    with 2 assms(1,3) show ?thesis by (blast intro: alarm_run.call)
  qed
qed

lemma judge_strategies_run:
  assumes "judge_strategies env clock i key val etime ws = Inr (etime', ws')"
    and "alarm_run mi ms (ws_alarm ws) sent" and "mi = we_min_interval env"
    and "\<forall>j. 0 \<le> clock j \<and> clock j \<le> int64_max"
    and "\<forall>s \<in> set val. (\<forall>ep m. ms (strategy_event_id env ep m s) = s_max_step s) \<and> in_int64 (s_max_step s)"
  shows "\<exists>new. alarm_run mi ms (ws_alarm ws') (new @ sent)"
  using assms
proof (induction val arbitrary: i etime ws sent)
  case Nil
  then show ?case by (intro exI [of _ "[]"]) simp
next
  case (Cons strategy rest)
  obtain etime1 ws1 r where st: "judge_strategy env (clock i) key strategy etime ws = Inr (etime1, ws1, r)"
    and rest: "if r then (etime1, ws1) = (etime', ws')
               else judge_strategies env clock (Suc i) key rest etime1 ws1 = Inr (etime', ws')"
    using Cons.prems(1) by (auto simp: go_bind_eq_Inr split: if_splits)
  obtain new1 where r1: "alarm_run mi ms (ws_alarm ws1) (new1 @ sent)"
    using alarm_effect_run [OF Cons.prems(2) judge_strategy_effect [OF st]] Cons.prems(3-5) by auto
  show ?case
  proof (cases r)
    case True
    with rest r1 show ?thesis by auto
  next
    case False
    with rest have "judge_strategies env clock (Suc i) key rest etime1 ws1 = Inr (etime', ws')" by simp
    from Cons.IH [OF this r1] Cons.prems(3-5) obtain new2
      where "alarm_run mi ms (ws_alarm ws') (new2 @ new1 @ sent)" by auto
    then show ?thesis by (metis append.assoc)
  qed
qed

lemma judge_outcome_etime:
  "judge_outcome env now s strategy vs etime ws out = Inr (etime', ws', r) \<Longrightarrow>
   etime' = etime \<and> ws_queries ws' = ws_queries ws"
  by (cases out) (auto simp: judge_outcome_def Let_def go_map_eq_Inr split: if_splits)

lemma judge_eval_c_avg:
  assumes "str_contains (s_func strategy) ''c_avg_rate_abs''" and "2 \<le> length args"
    and "judge_eval env now s strategy args qp vs etime ws fn = Inr (etime', ws', r)"
  shows "etime' = wrap64 (etime - wrap64 (86400 * args ! 1))"
  using assms
  by (auto simp: judge_eval_def Let_def go_bind_eq_Inr query_history_data_def split: if_splits prod.splits
           dest!: judge_outcome_etime)

lemma judge_query_cases:
  assumes "judge_query env now s strategy counter args etime ws = Inr (etime', ws', r)"
  shows "(etime' = etime \<and> ws_queries ws' = ws_queries ws @ [gen_q_param (s ! 0) counter ''AVERAGE'' (-1) etime (args ! 0)])
    \<or> (\<exists>fn vs. parse_func_from_string (s_func strategy) (s_operator strategy) (s_right_value strategy) = Inr fn \<and>
         judge_eval env now s strategy args (gen_q_param (s ! 0) counter ''AVERAGE'' (-1) etime (args ! 0)) vs etime
           (ws\<lparr>ws_queries := ws_queries ws @ [gen_q_param (s ! 0) counter ''AVERAGE'' (-1) etime (args ! 0)]\<rparr>) fn =
         Inr (etime', ws', r))"
  using assms
  by (auto simp: judge_query_def Let_def go_check_eq_Inr query_history_data_def split: if_splits prod.splits)

lemma judge_eval_queries:
  "judge_eval env now s strategy args qp vs etime ws fn = Inr (etime', ws', r) \<Longrightarrow>
   \<exists>more. ws_queries ws' = ws_queries ws @ more"
  by (auto simp: judge_eval_def Let_def go_bind_eq_Inr query_history_data_def split: if_splits prod.splits
           dest!: judge_outcome_etime)

lemma descriptor_body:
  assumes "CHR ''#'' \<notin> set name"
  shows "go_slice (descriptor name ns) 0 (int (length (descriptor name ns)) - 1) =
           Inr (name @ ''(#'' @ str_join CHR '','' (map int_to_string ns))"
    and "str_split CHR ''#'' (name @ ''(#'' @ str_join CHR '','' (map int_to_string ns)) =
           [name @ ''('', str_join CHR '','' (map int_to_string ns)]"
proof -
  show "go_slice (descriptor name ns) 0 (int (length (descriptor name ns)) - 1) =
           Inr (name @ ''(#'' @ str_join CHR '','' (map int_to_string ns))"
    by (subst go_slice_butlast) (simp_all add: descriptor_def butlast_append)
  from int_list_no_hash [of ns] show "str_split CHR ''#'' (name @ ''(#'' @ str_join CHR '','' (map int_to_string ns)) =
           [name @ ''('', str_join CHR '','' (map int_to_string ns)]"
    using str_split_prefix [of "CHR ''#''" "name @ ''(''"] assms by (simp add: str_split_no_sep)
qed

lemma judge_strategy_descriptor:
  assumes "str_split CHR ''/'' key = [ep, m]" and "s_func strategy = descriptor name ns"
    and "CHR ''#'' \<notin> set name" and "ns \<noteq> []" and "list_all in_int64 ns"
  shows "judge_strategy env now key strategy etime ws =
           judge_query env now [ep, m] strategy (strategy_counter m (s_tags strategy)) ns etime ws"
  using assms descriptor_body [OF assms(3), of ns]
  by (simp add: judge_strategy_def Let_def go_nth_def atois_join)

text \<open>C28: The first request a strategy with a well-formed descriptor sends is the
  query of the last minute: start -1, end the worker's current etime, consolidation
  AVERAGE, the key's endpoint, the counter with the sorted tags, and step args[0].\<close>

theorem judge_strategy_first_query:
  assumes "str_split CHR ''/'' key = [ep, m]" and "s_func strategy = descriptor name ns"
    and "CHR ''#'' \<notin> set name" and "ns \<noteq> []" and "list_all in_int64 ns"
    and "judge_strategy env now key strategy etime ws = Inr (etime', ws', r)"
  shows "take (Suc (length (ws_queries ws))) (ws_queries ws') =
           ws_queries ws @ [gen_q_param ep (strategy_counter m (s_tags strategy)) ''AVERAGE'' (-1) etime (hd ns)]"
proof -
  have q: "judge_query env now [ep, m] strategy (strategy_counter m (s_tags strategy)) ns etime ws = Inr (etime', ws', r)"
    using assms judge_strategy_descriptor by metis
  have "hd ns = ns ! 0" using assms(4) by (simp add: hd_conv_nth)
  with judge_query_cases [OF q] show ?thesis
    by (auto dest!: judge_eval_queries)
qed

theorem judge_strategy_first_query_witness:
  "take 1 (ws_queries (fst (snd (projr (judge_strategy scenario_env 1000 ''host/cpu.idle'' scenario_strategy 940
     worker_init))))) = [gen_q_param ''host'' ''cpu.idle'' ''AVERAGE'' (-1) 940 3]"
proof -
  let ?j = "judge_strategy scenario_env 1000 ''host/cpu.idle'' scenario_strategy 940 worker_init"
  have "\<not> isl ?j" by code_simp
  then obtain et ws' r where j: "?j = Inr (et, ws', r)" by (cases ?j) auto
  have d: "s_func scenario_strategy = descriptor ''avg'' [3]"
    by (simp add: scenario_strategy_def descriptor_def int_to_string_def nat_to_string.simps)
  have k: "str_split CHR ''/'' ''host/cpu.idle'' = [''host'', ''cpu.idle'']" by simp
  have "take (Suc (length (ws_queries worker_init))) (ws_queries ws') =
      ws_queries worker_init @ [gen_q_param ''host'' (strategy_counter ''cpu.idle'' (s_tags scenario_strategy))
        ''AVERAGE'' (-1) 940 (hd [3])]"
    by (rule judge_strategy_first_query [OF k d _ _ _ j]) (simp_all add: in_int64_def int64_min_def int64_max_def)
  then show ?thesis
    unfolding j by (simp add: worker_init_def strategy_counter_def sorted_tags_def scenario_strategy_def)
qed

text \<open>C29: The end of the query window is a variable of the whole worker: after a
  c_avg_rate_abs(#N,D) strategy that sent both of its queries and did not return, the
  remaining strategies of the group run with the window end moved back by D days.\<close>

theorem judge_c_avg_shifts_group:
  assumes "str_split CHR ''/'' key = [ep, m]" and "s_func c = descriptor ''c_avg_rate_abs'' [n, d]"
    and "in_int64 n" and "in_int64 d"
    and "judge_strategy env (clock i) key c etime ws = Inr (etime', ws1, False)"
    and "length (ws_queries ws1) = length (ws_queries ws) + 2"
  shows "etime' = wrap64 (etime - wrap64 (86400 * d)) \<and>
         judge_strategies env clock i key (c # rest) etime ws =
           judge_strategies env clock (Suc i) key rest etime' ws1"
proof -
  have q: "judge_query env (clock i) [ep, m] c (strategy_counter m (s_tags c)) [n, d] etime ws = Inr (etime', ws1, False)"
    using assms judge_strategy_descriptor [of key ep m c "''c_avg_rate_abs''" "[n, d]"] by simp
  have c: "str_contains (s_func c) ''c_avg_rate_abs''"
    using assms(2) by (simp add: descriptor_def)
  from judge_query_cases [OF q] assms(6) obtain qp fn vs ws0
    where "judge_eval env (clock i) [ep, m] c [n, d] qp vs etime ws0 fn = Inr (etime', ws1, False)"
    by auto
  from judge_eval_c_avg [OF c _ this] have "etime' = wrap64 (etime - wrap64 (86400 * d))"
    by simp
  with assms(5) show ?thesis by simp
qed

theorem judge_c_avg_shifts_group_witness:
  "\<exists>ws1. judge_strategies scenario_env (\<lambda>_. 1000) 0 ''host/cpu.idle''
      [scenario_strategy\<lparr>s_func := ''c_avg_rate_abs(#60,1)''\<rparr>, scenario_strategy] 940 worker_init =
    judge_strategies scenario_env (\<lambda>_. 1000) 1 ''host/cpu.idle'' [scenario_strategy] (-85460) ws1"
proof -
  let ?c = "scenario_strategy\<lparr>s_func := ''c_avg_rate_abs(#60,1)''\<rparr>"
  let ?j = "judge_strategy scenario_env 1000 ''host/cpu.idle'' ?c 940 worker_init"
  have e: "\<not> isl ?j" "snd (snd (projr ?j)) = False" "length (ws_queries (fst (snd (projr ?j)))) = 2"
    by code_simp+
  then obtain et ws1 where j: "?j = Inr (et, ws1, False)" and l: "length (ws_queries ws1) = 2"
    by (cases ?j) auto
  have d: "s_func ?c = descriptor ''c_avg_rate_abs'' [60, 1]"
    by (simp add: descriptor_def int_to_string_def nat_to_string.simps)
  have k: "str_split CHR ''/'' ''host/cpu.idle'' = [''host'', ''cpu.idle'']" by simp
  have "et = wrap64 (940 - wrap64 (86400 * 1)) \<and>
      judge_strategies scenario_env (\<lambda>_. 1000) 0 ''host/cpu.idle'' [?c, scenario_strategy] 940 worker_init =
      judge_strategies scenario_env (\<lambda>_. 1000) (Suc 0) ''host/cpu.idle'' [scenario_strategy] et ws1"
    by (rule judge_c_avg_shifts_group [OF k d])
       (simp_all add: j l in_int64_def int64_min_def int64_max_def)
  then show ?thesis by (auto simp: wrap64_def)
qed

text \<open>C30: A strategy whose descriptor names an unsupported function, and whose query
  returned data, ends the worker: whatever strategies follow it in the group, none of
  them sends a query or an event; the only effect of the group is that one query.\<close>

theorem judge_parse_error_ends_group:
  assumes "str_split CHR ''/'' key = [ep, m]" and "s_func strategy = descriptor name ns"
    and "CHR ''#'' \<notin> set name" and "ns \<noteq> []" and "list_all in_int64 ns"
    and "func_of_name name ns (s_operator strategy) (s_right_value strategy) = Inl err" and "\<not> is_panic err"
    and "r_values (fst (graph_query_one (we_backend env)
           (gen_q_param ep (strategy_counter m (s_tags strategy)) ''AVERAGE'' (-1) (wrap64 (t0 - 60)) (hd ns))
           empty_response)) \<noteq> []"
  shows "judge_item_with_strategy env t0 clock key (strategy # rest) ws =
           Inr (ws\<lparr>ws_queries := ws_queries ws @
             [gen_q_param ep (strategy_counter m (s_tags strategy)) ''AVERAGE'' (-1) (wrap64 (t0 - 60)) (hd ns)]\<rparr>)"
proof -
  have p: "parse_func_from_string (s_func strategy) (s_operator strategy) (s_right_value strategy) = Inl err"
    using assms(2-6) by (simp add: parse_descriptor)
  have "hd ns = ns ! 0" using assms(4) by (simp add: hd_conv_nth)
  with assms p show ?thesis
    by (simp add: judge_item_with_strategy_def judge_strategy_descriptor judge_query_def
        query_history_data_def)
qed

theorem judge_parse_error_ends_group_witness:
  "judge_item_with_strategy scenario_env 1000 (\<lambda>_. 1000) ''host/cpu.idle''
     [scenario_strategy\<lparr>s_func := ''mean(#3)''\<rparr>, scenario_strategy] worker_init =
   Inr (worker_init\<lparr>ws_queries := [gen_q_param ''host'' ''cpu.idle'' ''AVERAGE'' (-1) 940 3]\<rparr>)"
proof -
  let ?s = "scenario_strategy\<lparr>s_func := ''mean(#3)''\<rparr>"
  have d: "s_func ?s = descriptor ''mean'' [3]"
    by (simp add: descriptor_def int_to_string_def nat_to_string.simps)
  have k: "str_split CHR ''/'' ''host/cpu.idle'' = [''host'', ''cpu.idle'']" by simp
  have "judge_item_with_strategy scenario_env 1000 (\<lambda>_. 1000) ''host/cpu.idle'' [?s, scenario_strategy] worker_init =
      Inr (worker_init\<lparr>ws_queries := ws_queries worker_init @
        [gen_q_param ''host'' (strategy_counter ''cpu.idle'' (s_tags ?s)) ''AVERAGE'' (-1) (wrap64 (1000 - 60)) (hd [3])]\<rparr>)"
    by (rule judge_parse_error_ends_group [OF k d, where err = "ErrMsg ''not_supported_method''"])
       (simp_all add: func_of_name_def is_panic_def scenario_strategy_def scenario_env_def graph_query_one_def
         in_int64_def int64_min_def int64_max_def)
  then show ?thesis
    by (simp add: worker_init_def strategy_counter_def sorted_tags_def scenario_strategy_def wrap64_def)
qed

text \<open>C31: A non-empty descriptor with no \<open>#\<close> before its last character makes the
  worker panic on \<open>sfunc[1]\<close> (the guard \<open>len(sfunc) < 1\<close> never holds), and an
  empty descriptor panics on the slice \<open>Func[:len(Func)-1]\<close>; neither is skipped as a
  malformed strategy.\<close>

theorem judge_strategy_no_hash_panics:
  assumes "length (str_split CHR ''/'' key) = 2" and "CHR ''#'' \<notin> set (butlast (s_func strategy))"
  shows "judge_strategy env now key strategy etime ws =
           Inl (if s_func strategy = [] then PanicSlice else PanicIndex)"
proof (cases "s_func strategy = []")
  case True
  with assms show ?thesis by (simp add: judge_strategy_def Let_def go_slice_def)
next
  case False
  with assms show ?thesis
    by (simp add: judge_strategy_def Let_def go_slice_butlast str_split_no_sep go_nth_def)
qed


theorem judge_strategy_no_hash_panics_witness:
  "judge_strategy scenario_env 1000 ''host/cpu.idle'' (scenario_strategy\<lparr>s_func := ''avg3)''\<rparr>) 940 worker_init =
     Inl PanicIndex"
  using judge_strategy_no_hash_panics [of "''host/cpu.idle''" "scenario_strategy\<lparr>s_func := ''avg3)''\<rparr>"
      scenario_env 1000 940 worker_init]
  by simp

end
