(* ===== verification/Scheduler.thy ===== *)
theory Scheduler
  imports Worker
begin

text \<open>
  The scheduler \<open>PullAndJudge\<close> of \<open>modules/judge/cron/judge.go\<close>: a turn takes the
  current strategy snapshot \<open>g.StrategyMap.M\<close> (a map from \<open>endpoint/metric\<close> to a
  group of strategies, ranged over in an unspecified order) and, for every group,
  acquires a slot of the semaphore \<open>semaJudge\<close> (capacity \<open>ConcurrentOfJudge = 100\<close>)
  and starts a worker, which releases its slot when it returns.  The turn then sleeps
  and the next turn starts at once, without waiting for the workers.

  The state holds the groups of the current turn still to be dispatched, the running
  workers with their groups, the free slots and the shared worker state.  A worker
  runs as one step when it finishes (its effects on the shared state are those of
  \<open>judge_item_with_strategy\<close>); the interleaving of dispatches, finishes and turns is
  the inductive relation \<open>sched_run\<close>.  The semaphore (\<open>toolkits/concurrent\<close>, not
  under \<open>src/\<close>) is a counter of free slots: \<open>Acquire\<close> blocks at zero.
\<close>

definition concurrent_of_judge :: nat where
  "concurrent_of_judge = 100"

record sched_state =
  sc_pending :: "(string \<times> strategy list) list"
  sc_running :: "(string \<times> strategy list) list"
  sc_slots :: nat
  sc_worker :: worker_state

definition sched_init :: sched_state where
  "sched_init = \<lparr>sc_pending = [], sc_running = [], sc_slots = concurrent_of_judge, sc_worker = worker_init\<rparr>"

text \<open>\<open>semaJudge.Acquire()\<close>: a free slot is taken, none blocks (\<open>None\<close>);
  \<open>Release()\<close> frees one.\<close>

definition sema_acquire :: "nat \<Rightarrow> nat option" where
  "sema_acquire n = (if 0 < n then Some (n - 1) else None)"

definition sema_release :: "nat \<Rightarrow> nat" where
  "sema_release n = Suc n"

text \<open>Lines 27-29: a turn ranges over the snapshot, in the order \<open>groups\<close>.\<close>

definition start_turn :: "(string \<times> strategy list) list \<Rightarrow> sched_state \<Rightarrow> sched_state" where
  "start_turn groups st = st\<lparr>sc_pending := groups\<rparr>"

text \<open>Lines 29-31: acquire a slot and start the worker of the next group.\<close>

definition dispatch :: "sched_state \<Rightarrow> sched_state option" where
  "dispatch st =
     (case sc_pending st of
        [] \<Rightarrow> None
      | g # rest \<Rightarrow>
          (case sema_acquire (sc_slots st) of
             None \<Rightarrow> None
           | Some n \<Rightarrow> Some (st\<lparr>sc_pending := rest, sc_running := sc_running st @ [g], sc_slots := n\<rparr>)))"

text \<open>The \<open>i\<close>-th running worker returns: its run of \<open>judgeItemWithStrategy\<close> and the
  deferred \<open>semaJudge.Release()\<close> (line 47).  A panic of the worker is the panic of
  the process.\<close>

definition finish_worker ::
  "worker_env \<Rightarrow> int \<Rightarrow> (nat \<Rightarrow> int) \<Rightarrow> nat \<Rightarrow> sched_state \<Rightarrow> sched_state go_result" where
  "finish_worker env t0 clock i st =
     go_map (\<lambda>ws'. st\<lparr>sc_running := take i (sc_running st) @ drop (Suc i) (sc_running st),
                      sc_slots := sema_release (sc_slots st), sc_worker := ws'\<rparr>)
       (judge_item_with_strategy env t0 clock (fst (sc_running st ! i)) (snd (sc_running st ! i)) (sc_worker st))"

text \<open>Lines 34-42: the sleep after the dispatch loop, in seconds, for the loop's
  duration \<open>d\<close>.\<close>

definition turn_sleep :: "int \<Rightarrow> int" where
  "turn_sleep d = (if d \<le> 0 then 60 else if d < 60 then d else 0)"

text \<open>The runs: \<open>snaps\<close> is the set of snapshots the strategy map may take (it is
  refreshed by another component); a snapshot is a map, so its keys are distinct.  A
  finishing worker reads a clock of non-negative \<open>int64\<close> seconds.\<close>

inductive sched_run :: "worker_env \<Rightarrow> (string \<times> strategy list) list set \<Rightarrow> sched_state \<Rightarrow> bool"
  for env :: worker_env and snaps :: "(string \<times> strategy list) list set" where
  init: "sched_run env snaps sched_init"
| turn: "sched_run env snaps st \<Longrightarrow> sc_pending st = [] \<Longrightarrow> groups \<in> snaps \<Longrightarrow> distinct (map fst groups) \<Longrightarrow>
     sched_run env snaps (start_turn groups st)"
| dispatch: "sched_run env snaps st \<Longrightarrow> dispatch st = Some st' \<Longrightarrow> sched_run env snaps st'"
| finish: "sched_run env snaps st \<Longrightarrow> i < length (sc_running st) \<Longrightarrow>
     \<forall>j. 0 \<le> clock j \<and> clock j \<le> int64_max \<Longrightarrow>
     finish_worker env t0 clock i st = Inr st' \<Longrightarrow> sched_run env snaps st'"

text \<open>The groups a state still has to dispatch or is running.\<close>

definition sched_groups :: "sched_state \<Rightarrow> (string \<times> strategy list) set" where
  "sched_groups st = set (sc_pending st) \<union> set (sc_running st)"

text \<open>One schedule that completes a turn: dispatch while a slot is free, otherwise let
  the oldest running worker finish.\<close>

function sched_drain :: "worker_env \<Rightarrow> int \<Rightarrow> (nat \<Rightarrow> int) \<Rightarrow> sched_state \<Rightarrow> sched_state go_result" where
  "sched_drain env t0 clock st =
     (case dispatch st of
        Some st' \<Rightarrow> sched_drain env t0 clock st'
      | None \<Rightarrow>
          if sc_running st = [] then Inr st
          else (case finish_worker env t0 clock 0 st of
                  Inl e \<Rightarrow> Inl e
                | Inr st' \<Rightarrow> sched_drain env t0 clock st'))"
  by pat_completeness auto
termination
proof (relation "measure (\<lambda>(env, t0, clock, st). 2 * length (sc_pending st) + length (sc_running st))")
  show "wf (measure (\<lambda>(env, t0, clock, st). 2 * length (sc_pending st) + length (sc_running st)))" by simp
next
  fix env t0 clock st st'
  assume "dispatch st = Some st'"
  then show "((env, t0, clock, st'), env, t0, clock, st)
      \<in> measure (\<lambda>(env, t0, clock, st). 2 * length (sc_pending st) + length (sc_running st))"
    by (auto simp: dispatch_def split: list.splits option.splits)
next
  fix env t0 clock st st'
  assume "sc_running st \<noteq> []" and "finish_worker env t0 clock 0 st = Inr st'"
  then show "((env, t0, clock, st'), env, t0, clock, st)
      \<in> measure (\<lambda>(env, t0, clock, st). 2 * length (sc_pending st) + length (sc_running st))"
    by (auto simp: finish_worker_def go_map_eq_Inr)
qed

section \<open>Lemmas\<close>

lemma sched_inv:
  "sched_run env snaps st \<Longrightarrow> sc_slots st + length (sc_running st) = concurrent_of_judge"
  by (induction rule: sched_run.induct)
     (auto simp: sched_init_def start_turn_def dispatch_def sema_acquire_def finish_worker_def
        sema_release_def go_map_eq_Inr min_def split: list.splits option.splits if_splits)

lemma dispatch_groups: "dispatch st = Some st' \<Longrightarrow> sched_groups st' = sched_groups st"
  by (auto simp: dispatch_def sched_groups_def split: list.splits option.splits)

lemma finish_worker_groups:
  "finish_worker env t0 clock i st = Inr st' \<Longrightarrow> sched_groups st' \<subseteq> sched_groups st"
  using set_take_subset [of i "sc_running st"] set_drop_subset [of "Suc i" "sc_running st"]
  by (auto simp: finish_worker_def sched_groups_def go_map_eq_Inr)

lemma finish_worker_run:
  "finish_worker env t0 clock i st = Inr st' \<Longrightarrow> i < length (sc_running st) \<Longrightarrow>
   judge_item_with_strategy env t0 clock (fst (sc_running st ! i)) (snd (sc_running st ! i)) (sc_worker st) = Inr (sc_worker st')"
  by (auto simp: finish_worker_def go_map_eq_Inr)

lemma sched_run_groups:
  "sched_run env snaps st \<Longrightarrow> \<forall>g \<in> sched_groups st. \<exists>gs \<in> snaps. g \<in> set gs"
proof (induction rule: sched_run.induct)
  case init
  then show ?case by (simp add: sched_init_def sched_groups_def)
next
  case (turn st groups)
  then show ?case by (auto simp: start_turn_def sched_groups_def)
next
  case (dispatch st st')
  then show ?case by (simp add: dispatch_groups)
next
  case (finish st i clock t0 st')
  then show ?case using finish_worker_groups by blast
qed

text \<open>C37: The semaphore bounds the workers: at most ConcurrentOfJudge = 100 workers
  run at any time, and a turn's dispatch blocks only when all 100 slots are taken.\<close>
theorem sched_run_bound:
  assumes "sched_run env snaps st"
  shows "length (sc_running st) \<le> concurrent_of_judge \<and>
    (sc_pending st \<noteq> [] \<longrightarrow> dispatch st = None \<longrightarrow> length (sc_running st) = concurrent_of_judge)"
  using sched_inv [OF assms]
  by (auto simp: dispatch_def sema_acquire_def split: list.splits option.splits if_splits)

theorem sched_run_bound_witness:
  "length (sc_running (start_turn [(''host/cpu.idle'', [scenario_strategy])] sched_init)) \<le> concurrent_of_judge"
proof -
  have "sched_run scenario_env {[(''host/cpu.idle'', [scenario_strategy])]}
      (start_turn [(''host/cpu.idle'', [scenario_strategy])] sched_init)"
    by (rule sched_run.turn [OF sched_run.init]) (simp_all add: sched_init_def)
  from sched_run_bound [OF this] show ?thesis by simp
qed

text \<open>C39: A turn can always complete: from every reachable state in which the
  remaining workers do not panic, the schedule \<open>sched_drain\<close> terminates in a
  reachable state with nothing left to dispatch and no worker running, also when the
  snapshot has more than 100 groups.\<close>
theorem sched_turn_completes:
  assumes "sched_run env snaps st" and "\<forall>j. 0 \<le> clock j \<and> clock j \<le> int64_max"
    and "\<forall>g \<in> sched_groups st. \<forall>ws. \<not> isl (judge_item_with_strategy env t0 clock (fst g) (snd g) ws)"
  shows "\<exists>st'. sched_drain env t0 clock st = Inr st' \<and> sc_pending st' = [] \<and> sc_running st' = [] \<and>
    sched_run env snaps st'"
  using assms
proof (induction env t0 clock st rule: sched_drain.induct)
  case (1 env t0 clock st)
  show ?case
  proof (cases "dispatch st")
    case (Some st')
    have r: "sched_run env snaps st'" using "1.prems"(1) Some by (rule sched_run.dispatch)
    have "\<forall>g \<in> sched_groups st'. \<forall>ws. \<not> isl (judge_item_with_strategy env t0 clock (fst g) (snd g) ws)"
      using "1.prems"(3) dispatch_groups [OF Some] by simp
    from "1.IH"(2) [OF Some r "1.prems"(2) this] Some show ?thesis by simp
  next
    case None
    show ?thesis
    proof (cases "sc_running st = []")
      case True
      have "sc_pending st = []"
      proof (rule ccontr)
        assume "sc_pending st \<noteq> []"
        with None have "sc_slots st = 0"
          by (auto simp: dispatch_def sema_acquire_def split: list.splits if_splits)
        with sched_inv [OF "1.prems"(1)] True show False by (simp add: concurrent_of_judge_def)
      qed
      with None True "1.prems"(1) show ?thesis by simp
    next
      case False
      then have g: "sc_running st ! 0 \<in> sched_groups st" by (simp add: sched_groups_def)
      with "1.prems"(3) obtain ws' where
        "judge_item_with_strategy env t0 clock (fst (sc_running st ! 0)) (snd (sc_running st ! 0)) (sc_worker st) = Inr ws'"
        by (metis isl_def sum.collapse(2))
      then obtain st' where f: "finish_worker env t0 clock 0 st = Inr st'"
        by (simp add: finish_worker_def)
      have r: "sched_run env snaps st'"
        using sched_run.finish [OF "1.prems"(1) _ "1.prems"(2) f] False by simp
      have "\<forall>g \<in> sched_groups st'. \<forall>ws. \<not> isl (judge_item_with_strategy env t0 clock (fst g) (snd g) ws)"
        using "1.prems"(3) finish_worker_groups [OF f] by blast
      from "1.IH"(1) [OF None False f r "1.prems"(2) this] None False f show ?thesis by simp
    qed
  qed
qed

theorem sched_turn_completes_witness:
  "\<exists>st'. sched_drain scenario_env 1000 (\<lambda>_. 1000) (start_turn [(''nokey'', [scenario_strategy])] sched_init) =
     Inr st' \<and> sc_pending st' = [] \<and> sc_running st' = [] \<and>
     sched_run scenario_env {[(''nokey'', [scenario_strategy])]} st'"
proof (rule sched_turn_completes)
  show "sched_run scenario_env {[(''nokey'', [scenario_strategy])]} (start_turn [(''nokey'', [scenario_strategy])] sched_init)"
    by (rule sched_run.turn [OF sched_run.init]) (simp_all add: sched_init_def)
  show "\<forall>g \<in> sched_groups (start_turn [(''nokey'', [scenario_strategy])] sched_init).
      \<forall>ws. \<not> isl (judge_item_with_strategy scenario_env 1000 (\<lambda>_. 1000) (fst g) (snd g) ws)"
    by (simp add: sched_groups_def start_turn_def sched_init_def judge_item_with_strategy_def judge_strategy_def)
qed (simp add: int64_max_def)

text \<open>C40: The next turn does not wait for the workers of the previous one, so two
  workers of the same group, and so of the same alert identities, can run at the same
  time.\<close>
theorem sched_same_group_twice:
  assumes "[g] \<in> snaps"
  shows "\<exists>st. sched_run env snaps st \<and> sc_running st = [g, g]"
proof -
  let ?s1 = "start_turn [g] sched_init"
  let ?s2 = "?s1\<lparr>sc_pending := [], sc_running := [g], sc_slots := 99\<rparr>"
  let ?s3 = "start_turn [g] ?s2"
  let ?s4 = "?s3\<lparr>sc_pending := [], sc_running := [g, g], sc_slots := 98\<rparr>"
  have "sched_run env snaps ?s1"
    by (rule sched_run.turn [OF sched_run.init]) (simp_all add: sched_init_def assms)
  then have "sched_run env snaps ?s2"
    by (rule sched_run.dispatch)
       (simp add: dispatch_def sema_acquire_def start_turn_def sched_init_def concurrent_of_judge_def)
  then have "sched_run env snaps ?s3"
    by (rule sched_run.turn) (simp_all add: assms)
  then have "sched_run env snaps ?s4"
    by (rule sched_run.dispatch) (simp add: dispatch_def sema_acquire_def start_turn_def)
  then show ?thesis by auto
qed

theorem sched_same_group_twice_witness:
  "\<exists>st. sched_run scenario_env {[(''host/cpu.idle'', [scenario_strategy])]} st \<and>
     sc_running st = [(''host/cpu.idle'', [scenario_strategy]), (''host/cpu.idle'', [scenario_strategy])]"
  by (rule sched_same_group_twice) simp

end
