(* ===== verification/Cache.thy ===== *)
theory Cache
  imports Model
begin

text \<open>
  The judge's item cache \<open>TmpItemMap\<close> of \<open>modules/judge/store/cache.go\<close>: a map
  from a key to a pointer \<open>*model.JudgeItem\<close>, guarded by a read-write mutex (so each
  of \<open>Get\<close> and \<open>Set\<close> is one atomic step here).  The map holds pointers to objects
  its callers allocate, and \<open>Set\<close> adds a sample of the same timestamp into the
  stored object in place, so the model has an explicit heap of \<open>JudgeItem\<close> objects:
  a pointer is \<open>Null\<close> or an address, and the objects live at their addresses.
\<close>

datatype ref = Null | Ref nat

record item_map =
  im_b :: "string \<Rightarrow> ref option"
  im_heap :: "nat \<Rightarrow> judge_item option"
  im_next :: nat

text \<open>The map of \<open>init()\<close>: \<open>make(map[string]*model.JudgeItem)\<close>, on an empty heap.\<close>

definition item_map_init :: item_map where
  "item_map_init = \<lparr>im_b = Map.empty, im_heap = Map.empty, im_next = 0\<rparr>"

text \<open>A caller's \<open>&model.JudgeItem{...}\<close>: a fresh object on the heap.\<close>

definition new_item :: "judge_item \<Rightarrow> item_map \<Rightarrow> ref \<times> item_map" where
  "new_item it st =
     (Ref (im_next st), st\<lparr>im_heap := (im_heap st)(im_next st \<mapsto> it), im_next := Suc (im_next st)\<rparr>)"

fun item_at :: "item_map \<Rightarrow> ref \<Rightarrow> judge_item option" where
  "item_at st Null = None"
| "item_at st (Ref a) = im_heap st a"

text \<open>Reading a field through a pointer: \<open>nil\<close> panics.\<close>

definition deref :: "item_map \<Rightarrow> ref \<Rightarrow> judge_item go_result" where
  "deref st r = (case item_at st r of None \<Rightarrow> Inl PanicNilDeref | Some it \<Rightarrow> Inr it)"

fun store_item :: "ref \<Rightarrow> judge_item \<Rightarrow> item_map \<Rightarrow> item_map" where
  "store_item Null it st = st"
| "store_item (Ref a) it st = st\<lparr>im_heap := (im_heap st)(a \<mapsto> it)\<rparr>"

text \<open>\<open>Get(key) (*JudgeItem, bool)\<close>.\<close>

definition tmp_item_get :: "string \<Rightarrow> item_map \<Rightarrow> ref \<times> bool" where
  "tmp_item_get key st = (case im_b st key of Some r \<Rightarrow> (r, True) | None \<Rightarrow> (Null, False))"

text \<open>\<open>Set(key, item) (*JudgeItem, bool)\<close>: a new key stores the pointer; for an
  existing key a sample of the same timestamp (\<open>old.Timestamp - item.Timestamp == 0\<close>,
  an \<open>int64\<close> subtraction) is added into the stored object, otherwise the pointer is
  replaced and the old one returned.\<close>

definition tmp_item_set :: "string \<Rightarrow> ref \<Rightarrow> item_map \<Rightarrow> ((ref \<times> bool) \<times> item_map) go_result" where
  "tmp_item_set key item st =
     (case im_b st key of
        None \<Rightarrow> Inr ((Null, False), st\<lparr>im_b := (im_b st)(key \<mapsto> item)\<rparr>)
      | Some old \<Rightarrow>
          go_bind (deref st old) (\<lambda>old_it.
          go_bind (deref st item) (\<lambda>new_it.
            if wrap64 (ji_timestamp old_it - ji_timestamp new_it) = 0
            then Inr ((Null, False),
                      store_item old (old_it\<lparr>ji_value := fadd (ji_value old_it) (ji_value new_it)\<rparr>) st)
            else Inr ((old, True), st\<lparr>im_b := (im_b st)(key \<mapsto> item)\<rparr>))))"

text \<open>Well-formed states: every pointer in the map points to an object, and every
  allocated address is below the allocation counter.\<close>

definition item_map_wf :: "item_map \<Rightarrow> bool" where
  "item_map_wf st =
     ((\<forall>k r. im_b st k = Some r \<longrightarrow> item_at st r \<noteq> None) \<and> (\<forall>a \<in> dom (im_heap st). a < im_next st))"


subsection \<open>Sample data\<close>

text \<open>Two samples of one step at time 60 and one at time 120; the key holds the first.\<close>

definition sample_item :: "int \<Rightarrow> real \<Rightarrow> judge_item" where
  "sample_item t v = \<lparr>ji_endpoint = ''host'', ji_metric = ''cpu.idle'', ji_value = Fin v, ji_timestamp = t,
     ji_judge_type = ''GAUGE'', ji_tags = []\<rparr>"

definition sample_cache :: item_map where
  "sample_cache = \<lparr>im_b = [''host/cpu.idle'' \<mapsto> Ref 0],
     im_heap = [0 \<mapsto> sample_item 60 1, 1 \<mapsto> sample_item 60 2, 2 \<mapsto> sample_item 120 5], im_next = 3\<rparr>"

section \<open>Lemmas\<close>

lemma item_at_store_item:
  "item_at (store_item r it st) r' = (if r' = r \<and> r \<noteq> Null then Some it else item_at st r')"
  by (cases r; cases r') auto

lemma im_b_store_item [simp]: "im_b (store_item r it st) = im_b st"
  by (cases r) simp_all

lemma item_at_b_update [simp]: "item_at (st\<lparr>im_b := b\<rparr>) r = item_at st r"
  by (cases r) simp_all

lemma deref_Some: "item_at st r = Some it \<Longrightarrow> deref st r = Inr it"
  by (simp add: deref_def)

lemma item_at_Some_Ref: "item_at st r = Some it \<Longrightarrow> \<exists>a. r = Ref a \<and> im_heap st a = Some it"
  by (cases r) auto

text \<open>C32: Round trip: after Set of an allocated item under a key that has no entry, or
  whose entry holds a sample of another timestamp, Get returns that item; the other keys
  and every object are unchanged; Set returns the replaced pointer, if any.\<close>

theorem tmp_item_set_get:
  assumes "item_at st item = Some it"
    and "im_b st key = None \<or>
         (\<exists>old old_it. im_b st key = Some old \<and> item_at st old = Some old_it \<and> ji_timestamp old_it \<noteq> ji_timestamp it)"
    and "\<forall>r x. item_at st r = Some x \<longrightarrow> in_int64 (ji_timestamp x)"
  shows "\<exists>res st'. tmp_item_set key item st = Inr (res, st') \<and> tmp_item_get key st' = (item, True) \<and>
     (\<forall>k. k \<noteq> key \<longrightarrow> tmp_item_get k st' = tmp_item_get k st) \<and> im_heap st' = im_heap st \<and>
     res = (case im_b st key of None \<Rightarrow> (Null, False) | Some old \<Rightarrow> (old, True))"
  using assms(2)
proof
  assume "im_b st key = None"
  then show ?thesis by (simp add: tmp_item_set_def tmp_item_get_def)
next
  assume "\<exists>old old_it. im_b st key = Some old \<and> item_at st old = Some old_it \<and> ji_timestamp old_it \<noteq> ji_timestamp it"
  then obtain old old_it where o: "im_b st key = Some old" "item_at st old = Some old_it"
    and ne: "ji_timestamp old_it \<noteq> ji_timestamp it" by blast
  have "wrap64 (ji_timestamp old_it - ji_timestamp it) \<noteq> 0"
    using ne assms(3) o(2) assms(1) by (simp add: wrap64_diff_eq_0)
  with o assms(1) show ?thesis
    by (simp add: tmp_item_set_def tmp_item_get_def deref_Some)
qed

lemma sample_cache_int64: "\<forall>r x. item_at sample_cache r = Some x \<longrightarrow> in_int64 (ji_timestamp x)"
proof (intro allI impI)
  fix r x
  assume "item_at sample_cache r = Some x"
  then show "in_int64 (ji_timestamp x)"
    by (cases r) (auto simp: sample_cache_def sample_item_def in_int64_def int64_min_def int64_max_def
        split: if_splits)
qed

theorem tmp_item_set_get_witness:
  "tmp_item_get ''host/cpu.idle'' (snd (projr (tmp_item_set ''host/cpu.idle'' (Ref 2) sample_cache))) =
     (Ref 2, True)"
proof -
  have "\<exists>res st'. tmp_item_set ''host/cpu.idle'' (Ref 2) sample_cache = Inr (res, st') \<and>
      tmp_item_get ''host/cpu.idle'' st' = (Ref 2, True) \<and>
      (\<forall>k. k \<noteq> ''host/cpu.idle'' \<longrightarrow> tmp_item_get k st' = tmp_item_get k sample_cache) \<and>
      im_heap st' = im_heap sample_cache \<and>
      res = (case im_b sample_cache ''host/cpu.idle'' of None \<Rightarrow> (Null, False) | Some old \<Rightarrow> (old, True))"
    by (rule tmp_item_set_get [OF _ _ sample_cache_int64, where it = "sample_item 120 5"])
       (simp_all add: sample_cache_def sample_item_def)
  then show ?thesis by auto
qed

text \<open>C33: A sample of the same timestamp is added into the stored object in place:
  the map keeps the old pointer, so a caller that obtained it by an earlier Get sees the
  summed value through it; the caller's new item is not stored and Set returns no
  pointer.\<close>

theorem tmp_item_set_accumulates:
  assumes "im_b st key = Some old" and "item_at st old = Some old_it" and "item_at st item = Some it"
    and "ji_timestamp old_it = ji_timestamp it"
  shows "\<exists>st'. tmp_item_set key item st = Inr ((Null, False), st') \<and> im_b st' = im_b st \<and>
     tmp_item_get key st' = (old, True) \<and>
     item_at st' old = Some (old_it\<lparr>ji_value := fadd (ji_value old_it) (ji_value it)\<rparr>) \<and>
     (\<forall>r. r \<noteq> old \<longrightarrow> item_at st' r = item_at st r)"
  using assms item_at_Some_Ref [OF assms(2)]
  by (auto simp: tmp_item_set_def tmp_item_get_def deref_Some wrap64_def item_at_store_item)


theorem tmp_item_set_accumulates_witness:
  "item_at (snd (projr (tmp_item_set ''host/cpu.idle'' (Ref 1) sample_cache))) (Ref 0) = Some (sample_item 60 3)"
proof -
  have "\<exists>st'. tmp_item_set ''host/cpu.idle'' (Ref 1) sample_cache = Inr ((Null, False), st') \<and>
      im_b st' = im_b sample_cache \<and> tmp_item_get ''host/cpu.idle'' st' = (Ref 0, True) \<and>
      item_at st' (Ref 0) = Some (sample_item 60 1\<lparr>ji_value := fadd (ji_value (sample_item 60 1)) (ji_value (sample_item 60 2))\<rparr>) \<and>
      (\<forall>r. r \<noteq> Ref 0 \<longrightarrow> item_at st' r = item_at sample_cache r)"
    by (rule tmp_item_set_accumulates) (simp_all add: sample_cache_def sample_item_def)
  then show ?thesis by (auto simp: sample_item_def)
qed



lemma item_at_dom: "item_at st r = Some x \<Longrightarrow> \<exists>z. item_at (st\<lparr>im_heap := (im_heap st)(a \<mapsto> y)\<rparr>) r = Some z"
  by (cases r) auto

lemma new_item_wf:
  assumes "item_map_wf st" and "new_item it st = (r, st')"
  shows "item_map_wf st' \<and> item_at st' r = Some it"
proof -
  have fresh: "im_heap st (im_next st) = None" using assms(1) by (auto simp: item_map_wf_def)
  have st': "st' = st\<lparr>im_heap := (im_heap st)(im_next st \<mapsto> it), im_next := Suc (im_next st)\<rparr>"
    and r: "r = Ref (im_next st)"
    using assms(2) by (simp_all add: new_item_def)
  have "item_at st' q \<noteq> None" if "im_b st k = Some q" for k q
  proof -
    from assms(1) that have "item_at st q \<noteq> None" by (simp add: item_map_wf_def)
    then obtain x where "item_at st q = Some x" by blast
    with fresh st' show ?thesis by (cases q) auto
  qed
  moreover have "a < im_next st'" if "a \<in> dom (im_heap st')" for a
  proof (cases "a = im_next st")
    case False
    with that st' have "a \<in> dom (im_heap st)" by auto
    with assms(1) have "a < im_next st" unfolding item_map_wf_def by blast
    with st' show ?thesis by simp
  qed (simp add: st')
  ultimately show ?thesis using st' r by (auto simp: item_map_wf_def)
qed

text \<open>C35: Well-formedness is an invariant of the cache, and in a well-formed state Set
  of an allocated item never panics: allocation and Set (all three branches) keep every
  stored pointer allocated.\<close>

theorem tmp_item_set_wf:
  assumes "item_map_wf st" and "item_at st item \<noteq> None"
  shows "\<exists>res st'. tmp_item_set key item st = Inr (res, st') \<and> item_map_wf st'"
proof (cases "im_b st key")
  case None
  with assms show ?thesis by (auto simp: tmp_item_set_def item_map_wf_def)
next
  case (Some old)
  from assms(1) Some have "item_at st old \<noteq> None" by (simp add: item_map_wf_def)
  then obtain old_it where o: "item_at st old = Some old_it" by blast
  obtain it where i: "item_at st item = Some it" using assms(2) by auto
  obtain a where a: "old = Ref a" "im_heap st a = Some old_it" using item_at_Some_Ref [OF o] by blast
  have acc: "item_map_wf (store_item old (old_it\<lparr>ji_value := fadd (ji_value old_it) (ji_value it)\<rparr>) st)"
    using assms(1) a by (fastforce simp: item_map_wf_def intro: item_at_dom)
  have rep: "item_map_wf (st\<lparr>im_b := (im_b st)(key \<mapsto> item)\<rparr>)"
    using assms by (auto simp: item_map_wf_def)
  show ?thesis
  proof (cases "wrap64 (ji_timestamp old_it - ji_timestamp it) = 0")
    case True
    with Some o i have "tmp_item_set key item st = Inr ((Null, False),
        store_item old (old_it\<lparr>ji_value := fadd (ji_value old_it) (ji_value it)\<rparr>) st)"
      by (simp add: tmp_item_set_def deref_Some)
    with acc show ?thesis by blast
  next
    case False
    with Some o i have "tmp_item_set key item st = Inr ((old, True), st\<lparr>im_b := (im_b st)(key \<mapsto> item)\<rparr>)"
      by (simp add: tmp_item_set_def deref_Some)
    with rep show ?thesis by blast
  qed
qed

theorem tmp_item_set_wf_witness:
  "\<exists>res st'. tmp_item_set ''host/cpu.idle'' (Ref 2) sample_cache = Inr (res, st') \<and> item_map_wf st'"
proof (rule tmp_item_set_wf)
  show "item_map_wf sample_cache"
    by (simp add: item_map_wf_def sample_cache_def)
qed (simp add: sample_cache_def)

text \<open>C36: Set of a nil item under a new key succeeds and stores nil; from then on
  every Set under that key panics on \<open>old.Timestamp\<close>.\<close>

theorem tmp_item_set_nil_then_panics:
  assumes "im_b st key = None"
  shows "\<exists>st'. tmp_item_set key Null st = Inr ((Null, False), st') \<and>
     (\<forall>item. tmp_item_set key item st' = Inl PanicNilDeref)"
proof -
  let ?st' = "st\<lparr>im_b := (im_b st)(key \<mapsto> Null)\<rparr>"
  have "tmp_item_set key Null st = Inr ((Null, False), ?st')"
    using assms by (simp add: tmp_item_set_def)
  moreover have "tmp_item_set key item ?st' = Inl PanicNilDeref" for item
    by (simp add: tmp_item_set_def deref_def)
  ultimately show ?thesis by blast
qed


theorem tmp_item_set_nil_then_panics_witness:
  "tmp_item_set ''host/mem'' (Ref 0) (snd (projr (tmp_item_set ''host/mem'' Null sample_cache))) = Inl PanicNilDeref"
proof -
  have "\<exists>st'. tmp_item_set ''host/mem'' Null sample_cache = Inr ((Null, False), st') \<and>
      (\<forall>item. tmp_item_set ''host/mem'' item st' = Inl PanicNilDeref)"
    by (rule tmp_item_set_nil_then_panics) (simp add: sample_cache_def)
  then show ?thesis by auto
qed

end
