(* ===== verification/Spec2Isabelle.thy ===== *)
theory Spec2Isabelle
  imports Scheduler Cache
begin

text \<open>
  \<^bold>\<open>A verification model of the falcon-plus alert judge.\<close>

  The program (\<open>src/\<close>) is the judge of a monitoring platform.  The scheduler
  (\<open>modules/judge/cron/judge.go\<close>, \<open>PullAndJudge\<close>) ranges over the strategy
  snapshot and hands each \<open>endpoint/metric\<close> group to a worker
  (\<open>judgeItemWithStrategy\<close>) under a counting semaphore of 100 slots.  The worker
  queries recent history (\<open>queryHistoryData\<close>, answered by \<open>GraphRpc.QueryOne\<close> of
  \<open>modules/api/rpc/graph.go\<close>), parses the strategy's function descriptor
  (\<open>modules/judge/judge/func2.go\<close>, \<open>ParseFuncFromString\<close>), evaluates it
  (\<open>Compute\<close> / \<open>RelativeCompute\<close>) and feeds the outcome to the alert state machine
  (\<open>sendEventIfNeed\<close>), which consults the last-event store and emits events to a
  priority queue (\<open>sendEvent\<close>).  \<open>modules/judge/store/cache.go\<close> holds the item
  cache \<open>TmpItemMap\<close>.

  \<^bold>\<open>Library layout\<close> (each theory imports the ones it calls).
  \<^item> \<open>Prelude\<close>: Go run-time behaviour: panics and returned errors as
    \<open>go_error + 'a\<close> (\<open>go_bind\<close>, \<open>go_check\<close> for \<open>if err != nil { return }\<close>),
    bounds-checked \<open>go_nth\<close> and \<open>go_slice\<close>, 64-bit wrap-around \<open>wrap64\<close>, the counting
    loop \<open>for_range\<close> / \<open>for_each_index\<close> (terminating by the measure \<open>hi - i\<close>) and
    its list reading \<open>break_fold\<close>.
  \<^item> \<open>Float64\<close>: \<open>float64\<close> as finite reals, two infinities and NaN; rounding is not
    modelled, NaN propagation and NaN-false comparisons are.
  \<^item> \<open>GoStrings\<close>: \<open>strings.Index/Split/Contains/Join\<close> and \<open>strconv.Atoi/Itoa\<close>
    after Go's documented behaviour, with the round trip \<open>Atoi (Itoa i) = i\<close> on int64.
  \<^item> \<open>Model\<close>: the records of \<open>common/model\<close> (not under \<open>src/\<close>; from the spec).
  \<^item> \<open>Functions\<close>: every \<open>Compute\<close> method of \<open>func2.go\<close>, \<open>checkIsTriggered\<close>, the
    interface dispatch; claims C12-C20 (functional specifications on finite windows,
    NaN and operator duality, enough-data monotonicity, the \<open>diff\<close> exact-window panic).
  \<^item> \<open>FuncParse\<close>: \<open>Atois\<close> and \<open>ParseFuncFromString\<close>; C21-C25 (round trip of the
    comma syntax, rejection of the spec's \<open>#\<close>-separated syntax, the panics of
    \<open>lookup(#N)\<close> and of descriptors without \<open>#\<close>, \<open>avg#N)\<close> unsupported).
  \<^item> \<open>Alarm\<close>: \<open>sendEventIfNeed\<close> and \<open>sendEvent\<close> on the state of the last-event
    store and the queues; \<open>alarm_decide\<close> is the decision of spec 4.D and the code
    refines it; \<open>alarm_run\<close> is the inductive set of runs of calls, with the invariant
    \<open>alarm_inv\<close> by rule induction; C1-C11 (minimum interval, quota, step numbering,
    recovery only after a problem, store contents, frame, stale check on the oldest
    point, unencodable events, muted strategies).  A call is valid
    (\<open>valid_call\<close>) when the event time is \<open>now\<close>, \<open>now\<close> is a non-negative int64 (so
    \<open>now - EventTime\<close> does not wrap) and MaxStep is fixed per identity; these are all
    the assumptions the run theorems make.
  \<^item> \<open>Query\<close>: \<open>GraphRpc.QueryOne\<close> over a backend parameter; C26 (the backend's
    error is never reported).
  \<^item> \<open>Worker\<close>: \<open>judgeItemWithStrategy\<close> with its loop body in the code's blocks
    (\<open>judge_strategy\<close>, \<open>judge_query\<close>, \<open>judge_eval\<close>, \<open>judge_outcome\<close>), on a state of
    the alert state and the list of graph requests; the clock, the backend and the MD5
    digest are parameters.  Lemmas: each strategy has at most one \<open>sendEventIfNeed\<close>
    call as effect (\<open>alarm_effect\<close>), so a worker extends an alarm run
    (\<open>judge_strategies_run\<close>).  C28-C31 (the first query's window, the persisting
    \<open>etime\<close> shift of \<open>c_avg_rate_abs\<close>, a parse error ending the whole group, the
    \<open>sfunc[1]\<close> panic).
  \<^item> \<open>Cache\<close>: \<open>TmpItemMap\<close> over an explicit heap of \<open>JudgeItem\<close> objects, since
    \<open>Set\<close> updates a stored object in place; C32-C36 (round trip, in-place
    accumulation seen through earlier pointers, doubling on re-Set of the same pointer,
    the well-formedness invariant under which Set never panics, the nil-store panic).
  \<^item> \<open>Scheduler\<close>: \<open>PullAndJudge\<close> as the inductive relation \<open>sched_run\<close> of turns,
    dispatches under the semaphore and finishing workers (a worker's effects are applied
    when it finishes); \<open>sched_drain\<close> is a schedule terminating by the measure
    \<open>2 * pending + running\<close>.  C37, C39, C40 (at most 100 workers, every turn can
    complete, two workers of one group can overlap across turns).
  \<^item> This theory: C27 (a worker extends a run of the alert state machine) and C38 (so
    does every state the scheduler reaches), which carry C1-C6 to the whole judge.

  Every claim with hypotheses has a witness that applies it to concrete data
  (the scenario strategy \<open>avg(#3) > 10\<close>, MaxStep 3, MinInterval 300 of spec section
  8), evaluated by \<open>simp\<close> or \<open>code_simp\<close>.  No fuel is used: every loop is a
  terminating function.

  \<^bold>\<open>Not modelled.\<close> Logging and printing; JSON encoding beyond its failure on
  non-finite floats; the Redis connection pool and queue-backend errors; the RPC
  transport (a failed call is an empty reply); configuration loading; the MD5 digest and
  \<open>PK\<close> (a parameter); the refresh of the strategy map (an input set of snapshots);
  wall-clock sleeping (only the sleep rule \<open>turn_sleep\<close> is defined); interleaving
  inside a worker (a worker's effects are atomic at its end); float rounding.
\<close>





end
